(* ===== verification/Effects.thy ===== *)
theory Effects
  imports Prelude
begin

text \<open>
  Code with effects is a function from the world to an exception or a value, and the next world.
  The world is a type parameter: a component states which part of it it uses by the operations it
  takes as arguments. \<open>wp\<close> is the weakest precondition of a run, with one postcondition for a
  normal return and one for an exception.
\<close>

type_synonym ('w, 'e, 'a) eff = "'w \<Rightarrow> ('e + 'a) \<times> 'w"

definition ret :: "'a \<Rightarrow> ('w, 'e, 'a) eff" where
  "ret x = (\<lambda>w. (Inr x, w))"

definition raise_exn :: "'e \<Rightarrow> ('w, 'e, 'a) eff" where
  "raise_exn e = (\<lambda>w. (Inl e, w))"

definition bindM :: "('w, 'e, 'a) eff \<Rightarrow> ('a \<Rightarrow> ('w, 'e, 'b) eff) \<Rightarrow> ('w, 'e, 'b) eff" where
  "bindM m f = (\<lambda>w. case m w of (Inl e, w') \<Rightarrow> (Inl e, w') | (Inr x, w') \<Rightarrow> f x w')"

text \<open>\<open>try: m; except ...\<close>: the handler gives the replacement for the exceptions it catches.\<close>

definition catchM :: "('w, 'e, 'a) eff \<Rightarrow> ('e \<Rightarrow> ('w, 'e, 'a) eff option) \<Rightarrow> ('w, 'e, 'a) eff" where
  "catchM m h = (\<lambda>w. case m w of
      (Inl e, w') \<Rightarrow> (case h e of None \<Rightarrow> (Inl e, w') | Some m' \<Rightarrow> m' w')
    | (Inr x, w') \<Rightarrow> (Inr x, w'))"

text \<open>\<open>try: m; finally: f\<close>, for a cleanup that does not raise.\<close>

definition finallyM :: "('w, 'e, 'a) eff \<Rightarrow> ('w \<Rightarrow> 'w) \<Rightarrow> ('w, 'e, 'a) eff" where
  "finallyM m f = (\<lambda>w. case m w of (r, w') \<Rightarrow> (r, f w'))"

fun mapM :: "('a \<Rightarrow> ('w, 'e, 'b) eff) \<Rightarrow> 'a list \<Rightarrow> ('w, 'e, 'b list) eff" where
  "mapM f [] = ret []"
| "mapM f (x # xs) = bindM (f x) (\<lambda>y. bindM (mapM f xs) (\<lambda>ys. ret (y # ys)))"

fun iterM :: "('a \<Rightarrow> ('w, 'e, unit) eff) \<Rightarrow> 'a list \<Rightarrow> ('w, 'e, unit) eff" where
  "iterM f [] = ret ()"
| "iterM f (x # xs) = bindM (f x) (\<lambda>_. iterM f xs)"

lemma bindM_ret [simp]: "bindM (ret x) f = f x"
  by (simp add: bindM_def ret_def)

lemma bindM_raise [simp]: "bindM (raise_exn e) f = raise_exn e"
  by (simp add: bindM_def raise_exn_def)

lemma bindM_assoc: "bindM (bindM m f) g = bindM m (\<lambda>x. bindM (f x) g)"
  by (rule ext) (simp add: bindM_def split: prod.splits sum.splits)

lemma ret_app [eff_simps]: "ret x w = (Inr x, w)"
  by (simp add: ret_def)

lemma raise_app [eff_simps]: "raise_exn e w = (Inl e, w)"
  by (simp add: raise_exn_def)

lemma bindM_app [eff_simps]:
  "bindM m f w = (case m w of (Inl e, w') \<Rightarrow> (Inl e, w') | (Inr x, w') \<Rightarrow> f x w')"
  by (simp add: bindM_def)

lemma bindM_eq_Inr:
  "bindM m f w = (Inr y, w'') \<longleftrightarrow> (\<exists>x w'. m w = (Inr x, w') \<and> f x w' = (Inr y, w''))"
  by (auto simp: bindM_def eff_simps split: prod.splits sum.splits)

text \<open>A pure result that may be an error.\<close>

definition liftE :: "'e + 'a \<Rightarrow> ('w, 'e, 'a) eff" where
  "liftE r = (case r of Inl e \<Rightarrow> raise_exn e | Inr x \<Rightarrow> ret x)"

text \<open>Reading and changing the world, and a check that raises.\<close>

definition getM :: "('w \<Rightarrow> 'a) \<Rightarrow> ('w, 'e, 'a) eff" where
  "getM f = (\<lambda>w. (Inr (f w), w))"

definition modM :: "('w \<Rightarrow> 'w) \<Rightarrow> ('w, 'e, unit) eff" where
  "modM f = (\<lambda>w. (Inr (), f w))"

definition ensure :: "bool \<Rightarrow> 'e \<Rightarrow> ('w, 'e, unit) eff" where
  "ensure b e = (if b then ret () else raise_exn e)"

lemma state_app [eff_simps]: "getM f w = (Inr (f w), w)" "modM g w = (Inr (), g w)"
  by (simp_all add: getM_def modM_def)

lemma ensure_app [eff_simps]: "ensure b e w = (if b then Inr () else Inl e, w)"
  by (simp add: ensure_def eff_simps)

text \<open>\<open>run_simps\<close> splits a run that is known to return, or to raise, into its steps.\<close>

named_theorems run_simps \<open>split a run by its result\<close>

declare bindM_eq_Inr [run_simps]

lemma bindM_eq_Inl [run_simps]:
  "bindM m f w = (Inl e, w'') \<longleftrightarrow>
     m w = (Inl e, w'') \<or> (\<exists>x w'. m w = (Inr x, w') \<and> f x w' = (Inl e, w''))"
  by (auto simp: bindM_def eff_simps split: prod.splits sum.splits)

lemma ret_eq [run_simps]: "ret x w = (Inr y, w') \<longleftrightarrow> y = x \<and> w' = w" "ret x w \<noteq> (Inl e, w')"
  by (auto simp: ret_def)

lemma raise_eq [run_simps]: "raise_exn e w = (Inl e', w') \<longleftrightarrow> e' = e \<and> w' = w" "raise_exn e w \<noteq> (Inr y, w')"
  by (auto simp: raise_exn_def)

lemma state_eq [run_simps]:
  "getM f w = (r, w') \<longleftrightarrow> r = Inr (f w) \<and> w' = w" "modM g w = (r', w') \<longleftrightarrow> r' = Inr () \<and> w' = g w"
  by (auto simp: eff_simps)

lemma ensure_eq [run_simps]:
  "ensure b e w = (Inr u, w') \<longleftrightarrow> b \<and> w' = w" "ensure b e w = (Inl e', w') \<longleftrightarrow> \<not> b \<and> e' = e \<and> w' = w"
  by (auto simp: ensure_def eff_simps)

lemma liftE_eq [run_simps]:
  "liftE r w = (Inr y, w') \<longleftrightarrow> r = Inr y \<and> w' = w" "liftE r w = (Inl e, w') \<longleftrightarrow> r = Inl e \<and> w' = w"
  by (auto simp: liftE_def run_simps split: sum.splits)

lemma catchM_eq_Inr [run_simps]:
  "catchM m h w = (Inr x, w'') \<longleftrightarrow> m w = (Inr x, w'') \<or>
     (\<exists>e w' m'. m w = (Inl e, w') \<and> h e = Some m' \<and> m' w' = (Inr x, w''))"
  by (auto simp: catchM_def split: prod.splits sum.splits option.splits)

text \<open>The exception classes the modelled code raises or tests for. \<open>ApprovalSurfaceError\<close> is the class
  of \<open>approval_lifecycle\<close>; \<open>approval_surface\<close> declares another class of the same name, here
  \<open>SurfacePolicyError\<close>.\<close>

datatype exn =
    ApprovalRecordsError
  | ApprovalSurfaceError
  | SurfacePolicyError
  | PendingRecordError
  | DriveArchiveError
  | DiscordError
  | UploadIncompleteError
  | OSError
  | ValueError
  | JSONDecodeError
  | UnicodeDecodeError
  | KeyError
  | TypeError
  | IndexError
  | AssertionError
  | OverflowError
  | PolicyError
  | DataSourceFailure
  | TimeoutError
  | HTTPError int
  | DeletionError
  | RelocationError
  | RelocationStoreError
  | RenderError
  | ObsidianWriteError
  | StateError
  | OtherError

text \<open>\<open>except RuntimeError\<close> and \<open>except ValueError\<close> catch their subclasses.\<close>

definition runtime_error :: "exn \<Rightarrow> bool" where
  "runtime_error e \<longleftrightarrow> e \<in> {ApprovalRecordsError, ApprovalSurfaceError, SurfacePolicyError,
     PendingRecordError, DriveArchiveError, DiscordError, UploadIncompleteError, DeletionError,
     RelocationStoreError}"

definition value_error :: "exn \<Rightarrow> bool" where
  "value_error e \<longleftrightarrow> e \<in> {ValueError, JSONDecodeError, UnicodeDecodeError, PolicyError,
     RelocationError, RenderError, StateError}"

section \<open>Weakest preconditions\<close>

definition wp ::
    "('w, 'e, 'a) eff \<Rightarrow> ('a \<Rightarrow> 'w \<Rightarrow> bool) \<Rightarrow> ('e \<Rightarrow> 'w \<Rightarrow> bool) \<Rightarrow> 'w \<Rightarrow> bool" where
  "wp m Q E w \<longleftrightarrow> (case m w of (Inl e, w') \<Rightarrow> E e w' | (Inr x, w') \<Rightarrow> Q x w')"

lemma wp_ret [simp, wp_simps]: "wp (ret x) Q E = Q x"
  by (rule ext) (simp add: wp_def eff_simps)

lemma wp_raise [simp, wp_simps]: "wp (raise_exn e) Q E = E e"
  by (rule ext) (simp add: wp_def eff_simps)

lemma wp_bindM [simp, wp_simps]: "wp (bindM m f) Q E = wp m (\<lambda>x. wp (f x) Q E) E"
  by (rule ext) (auto simp: wp_def bindM_def split: prod.splits sum.splits)

lemma wp_catchM [simp, wp_simps]:
  "wp (catchM m h) Q E =
     wp m Q (\<lambda>e. case h e of None \<Rightarrow> E e | Some m' \<Rightarrow> wp m' Q E)"
  by (rule ext) (auto simp: wp_def catchM_def split: prod.splits sum.splits option.splits)

lemma wp_finallyM [simp, wp_simps]:
  "wp (finallyM m f) Q E = wp m (\<lambda>x w'. Q x (f w')) (\<lambda>e w'. E e (f w'))"
  by (rule ext) (auto simp: wp_def finallyM_def split: prod.splits sum.splits)

lemma wp_state [simp, wp_simps]:
  "wp (getM f) Q E = (\<lambda>w. Q (f w) w)" "wp (modM g) Q' E = (\<lambda>w. Q' () (g w))"
  "wp (ensure b e) Q' E = (\<lambda>w. if b then Q' () w else E e w)"
  by (auto simp: wp_def eff_simps fun_eq_iff)

lemma wp_cong: "m w = m' w \<Longrightarrow> wp m Q E w \<longleftrightarrow> wp m' Q E w"
  by (simp add: wp_def)

lemma wp_mono:
  "wp m Q E w \<Longrightarrow> (\<And>x w'. Q x w' \<Longrightarrow> Q' x w') \<Longrightarrow> (\<And>e w'. E e w' \<Longrightarrow> E' e w') \<Longrightarrow> wp m Q' E' w"
  by (auto simp: wp_def split: prod.splits sum.splits)

lemma wp_I:
  "(\<And>x w'. m w = (Inr x, w') \<Longrightarrow> Q x w') \<Longrightarrow> (\<And>e w'. m w = (Inl e, w') \<Longrightarrow> E e w') \<Longrightarrow> wp m Q E w"
  by (auto simp: wp_def split: prod.splits sum.splits)

lemma wp_D1: "wp m Q E w \<Longrightarrow> m w = (Inr x, w') \<Longrightarrow> Q x w'"
  by (simp add: wp_def eff_simps)

lemma wp_D2: "wp m Q E w \<Longrightarrow> m w = (Inl e, w') \<Longrightarrow> E e w'"
  by (simp add: wp_def eff_simps)

lemma wp_conj: "wp m Q E w \<Longrightarrow> wp m Q' E' w \<Longrightarrow> wp m (\<lambda>x w. Q x w \<and> Q' x w) (\<lambda>e w. E e w \<and> E' e w) w"
  by (auto simp: wp_def split: prod.splits sum.splits)

text \<open>What every normal return of a run satisfies, whatever the world did on the way.\<close>

definition returns :: "('w, 'e, 'a) eff \<Rightarrow> ('a \<Rightarrow> bool) \<Rightarrow> bool" where
  "returns m P \<longleftrightarrow> (\<forall>w x w'. m w = (Inr x, w') \<longrightarrow> P x)"

lemma returns_ret [simp]: "returns (ret x) P \<longleftrightarrow> P x"
  by (simp add: returns_def eff_simps)

lemma returns_bindM [intro]: "(\<And>x. returns (f x) P) \<Longrightarrow> returns (bindM m f) P"
  by (auto simp: returns_def bindM_eq_Inr)

lemma returns_bindM_with: "returns m R \<Longrightarrow> (\<And>x. R x \<Longrightarrow> returns (f x) P) \<Longrightarrow> returns (bindM m f) P"
  unfolding returns_def bindM_eq_Inr by blast

lemma returns_finallyM [intro]: "returns m P \<Longrightarrow> returns (finallyM m f) P"
  by (auto simp: returns_def finallyM_def split: prod.splits)

lemma returnsD: "returns m P \<Longrightarrow> m w = (Inr x, w') \<Longrightarrow> P x"
  by (auto simp: returns_def)

text \<open>A loop whose body keeps an invariant keeps it, whether it ends or raises.\<close>

lemma wp_iterM_inv:
  assumes step: "\<And>x w. x \<in> set xs \<Longrightarrow> I w \<Longrightarrow> wp (f x) (\<lambda>_. I) (\<lambda>_. I) w"
    and "I w"
  shows "wp (iterM f xs) (\<lambda>_. I) (\<lambda>_. I) w"
  using assms
proof (induction xs arbitrary: w)
  case Nil
  then show ?case by simp
next
  case (Cons x xs)
  then have "wp (f x) (\<lambda>_. I) (\<lambda>_. I) w" by simp
  then show ?case
    by (simp, elim wp_mono) (use Cons in auto)
qed

text \<open>A run that leaves a part of the world as it was, whether it returns or raises.\<close>

definition unchanged :: "('w \<Rightarrow> 'b) \<Rightarrow> ('w, 'e, 'a) eff \<Rightarrow> bool" where
  "unchanged f m \<longleftrightarrow> (\<forall>w. f (snd (m w)) = f w)"

lemma unchangedD: "unchanged f m \<Longrightarrow> m w = (r, w') \<Longrightarrow> f w' = f w"
  by (metis unchanged_def snd_conv)

named_theorems unchanged_rules \<open>what leaves a part of the world\<close>

lemma unchanged_basic [unchanged_rules, simp]:
  "unchanged f (ret x)" "unchanged f (raise_exn e)" "unchanged f (liftE r)" "unchanged f (ensure b e)" "unchanged f (getM g)"
  by (simp_all add: unchanged_def eff_simps liftE_def split: sum.splits)

lemma unchanged_bindM [unchanged_rules]: "unchanged f m \<Longrightarrow> (\<And>x. unchanged f (g x)) \<Longrightarrow> unchanged f (bindM m g)"
  unfolding unchanged_def by (simp add: bindM_app split: prod.splits sum.splits) (metis snd_conv)

lemma unchanged_catchM [unchanged_rules]:
  "unchanged f m \<Longrightarrow> (\<And>e m'. h e = Some m' \<Longrightarrow> unchanged f m') \<Longrightarrow> unchanged f (catchM m h)"
  unfolding unchanged_def catchM_def by (simp split: prod.splits sum.splits option.splits) (metis snd_conv)

lemma unchanged_modM [unchanged_rules]: "(\<And>w. f (g w) = f w) \<Longrightarrow> unchanged f (modM g)"
  by (simp add: unchanged_def eff_simps)

lemma unchanged_mapM [unchanged_rules]: "(\<And>x. unchanged f (m x)) \<Longrightarrow> unchanged f (mapM m xs)"
  by (induction xs) (auto intro!: unchanged_rules)

end
