(* ===== verification/Json.thy ===== *)
theory Json
  imports Complex_Main Effects
begin

text \<open>
  JSON values as \<open>json.loads\<close> gives them: an object is a dictionary with distinct keys in document
  order, an integer is unbounded, and \<open>True\<close> is a bool and not an int (the codecs of the source
  test \<open>isinstance(value, bool)\<close> before they take an int). A file read is a value too: the codecs
  distinguish a missing file, an unreadable one, one that is no UTF-8 and one that is no JSON.
\<close>

datatype json =
    JNull
  | JBool bool
  | JInt int
  | JFloat rat
  | JStr ustr
  | JArr "json list"
  | JObj "(ustr \<times> json) list"

datatype file_read =
    FileMissing
  | FileOSError
  | FileNotUtf8
  | FileNotJson
  | FileJson json

abbreviation key_set :: "(ustr \<times> 'v) list \<Rightarrow> ustr set" where
  "key_set kvs \<equiv> set (map fst kvs)"

definition jget :: "(ustr \<times> json) list \<Rightarrow> string \<Rightarrow> json option" where
  "jget kvs k = dict_get kvs (lit k)"

text \<open>\<open>payload["k"]\<close> where the key set has been checked, so the lookup cannot fail.\<close>

definition jfield :: "(ustr \<times> json) list \<Rightarrow> string \<Rightarrow> json" where
  "jfield kvs k = (case jget kvs k of Some v \<Rightarrow> v | None \<Rightarrow> JNull)"

fun jopt :: "ustr option \<Rightarrow> json" where
  "jopt None = JNull"
| "jopt (Some s) = JStr s"

fun is_jstr :: "json \<Rightarrow> bool" where
  "is_jstr (JStr _) = True"
| "is_jstr _ = False"

lemma jopt_eq_iff [simp]: "jopt a = jopt b \<longleftrightarrow> a = b"
  by (cases a; cases b) auto

lemma jget_Cons [simp]:
  "jget ((lit k, v) # kvs) k' = (if k' = k then Some v else jget kvs k')"
  by (simp add: jget_def dict_get_Cons)

lemma jget_Nil [simp]: "jget [] k = None"
  by (simp add: jget_def)

lemma jfield_Cons [simp]:
  "jfield ((lit k, v) # kvs) k' = (if k' = k then v else jfield kvs k')"
  by (simp add: jfield_def)

end
