(* ===== verification/ApprovalLease.thy ===== *)
theory ApprovalLease
  imports Json
begin

text \<open>
  \<open>automation/interop/approval_lease.py\<close>: the key encoding of the lease and journal files, the
  non-blocking per-key lease, the posting journal and its \<open>abandon\<close>. The host is the lock table of
  the kernel, the files by name and the audit lines; failures of the local file system other than an
  unreadable journal are not modelled.
\<close>

section \<open>slug\<close>

definition hex_digit :: "nat \<Rightarrow> nat" where
  "hex_digit d = (if d < 10 then 48 + d else 87 + d)"

fun hex_str :: "nat \<Rightarrow> ustr" where
  "hex_str n = (if n < 16 then [hex_digit n] else hex_str (n div 16) @ [hex_digit (n mod 16)])"

declare hex_str.simps [simp del]

text \<open>The format \<open>{n:02x}\<close>: lower-case hexadecimal, at least two digits.\<close>

definition hex02 :: "nat \<Rightarrow> ustr" where
  "hex02 n = (if n < 16 then 48 # hex_str n else hex_str n)"

definition slug_safe :: "nat \<Rightarrow> bool" where
  "slug_safe c \<longleftrightarrow> 65 \<le> c \<and> c \<le> 90 \<or> 97 \<le> c \<and> c \<le> 122 \<or> 48 \<le> c \<and> c \<le> 57
     \<or> c = 46 \<or> c = 95 \<or> c = 45"

definition slug :: "ustr \<Rightarrow> ustr" where
  "slug key = concat (map (\<lambda>c. if slug_safe c then [c] else 37 # hex02 c) key)"

text \<open>A decoder for keys whose characters fit in one byte.\<close>

definition hex_val :: "nat \<Rightarrow> nat" where
  "hex_val h = (if h < 58 then h - 48 else h - 87)"

fun unslug :: "ustr \<Rightarrow> ustr" where
  "unslug [] = []"
| "unslug (c # cs) =
     (if c = 37 then (case cs of a # b # rest \<Rightarrow> (16 * hex_val a + hex_val b) # unslug rest | _ \<Rightarrow> [])
      else c # unslug cs)"

lemma hex_val_digit: "d < 16 \<Longrightarrow> hex_val (hex_digit d) = d"
  by (auto simp: hex_val_def hex_digit_def)

lemma hex02_byte: "n < 256 \<Longrightarrow> hex02 n = [hex_digit (n div 16), hex_digit (n mod 16)]"
  by (auto simp: hex02_def hex_str.simps [of n] hex_str.simps [of "n div 16"] hex_digit_def
      less_mult_imp_div_less)

lemma unslug_slug: "\<forall>c \<in> set key. c < 256 \<Longrightarrow> unslug (slug key) = key"
proof (induction key)
  case Nil
  then show ?case by (simp add: slug_def)
next
  case (Cons c key)
  then have IH: "unslug (slug key) = key" and c: "c < 256" by auto
  show ?case
  proof (cases "slug_safe c")
    case True
    moreover from True have "c \<noteq> 37" by (auto simp: slug_safe_def)
    ultimately show ?thesis using IH by (simp add: slug_def)
  next
    case False
    have "c div 16 < 16" using c by (simp add: less_mult_imp_div_less)
    then have "16 * hex_val (hex_digit (c div 16)) + hex_val (hex_digit (c mod 16)) = c"
      by (simp add: hex_val_digit)
    with False IH c show ?thesis by (simp add: slug_def hex02_byte)
  qed
qed

section \<open>The host\<close>

record host =
  h_locks :: "ustr set"
  h_files :: "ustr \<Rightarrow> file_read"
  h_audit :: "json list"

section \<open>FileKeyLease\<close>

definition lease_path :: "ustr \<Rightarrow> ustr" where
  "lease_path key = slug key @ lit ''.lease''"

text \<open>\<open>hold\<close> is a context manager: the part before \<open>yield\<close> and the part after it. A lock held by
  another process yields False and leaves everything alone.\<close>

definition lease_enter :: "ustr \<Rightarrow> host \<Rightarrow> bool \<times> host" where
  "lease_enter key w =
     (if lease_path key \<in> h_locks w then (False, w)
      else (True, w\<lparr>h_locks := insert (lease_path key) (h_locks w)\<rparr>))"

definition lease_exit :: "bool \<Rightarrow> ustr \<Rightarrow> host \<Rightarrow> host" where
  "lease_exit owned key w =
     (if owned then w\<lparr>h_locks := h_locks w - {lease_path key}\<rparr> else w)"

section \<open>PostingJournal\<close>

definition journal_path :: "ustr \<Rightarrow> ustr" where
  "journal_path key = slug key @ lit ''.posting.json''"

definition journal_reserve :: "ustr \<Rightarrow> ustr \<Rightarrow> ustr \<Rightarrow> host \<Rightarrow> host" where
  "journal_reserve key action_hash at_time w =
     w\<lparr>h_files := (h_files w)(journal_path key := FileJson (JObj
        [(lit ''action_hash'', JStr action_hash), (lit ''at'', JStr at_time), (lit ''key'', JStr key)]))\<rparr>"

text \<open>\<open>str(v)\<close> of a JSON value is the argument \<open>py_str\<close>. A journal that is not UTF-8 raises, as
  \<open>UnicodeDecodeError\<close> is neither \<open>OSError\<close> nor \<open>JSONDecodeError\<close>.\<close>

definition journal_outstanding ::
    "(json \<Rightarrow> ustr) \<Rightarrow> ustr \<Rightarrow> host \<Rightarrow> exn + (ustr \<times> ustr) list option" where
  "journal_outstanding py_str key w =
     (case h_files w (journal_path key) of
        FileMissing \<Rightarrow> Inr None
      | FileOSError \<Rightarrow> Inr (Some [(lit ''action_hash'', []), (lit ''at'', []), (lit ''key'', key)])
      | FileNotJson \<Rightarrow> Inr (Some [(lit ''action_hash'', []), (lit ''at'', []), (lit ''key'', key)])
      | FileNotUtf8 \<Rightarrow> Inl UnicodeDecodeError
      | FileJson (JObj kvs) \<Rightarrow> Inr (Some (map (\<lambda>(k, v). (k, py_str v)) kvs))
      | FileJson _ \<Rightarrow> Inr None)"

definition journal_clear :: "ustr \<Rightarrow> host \<Rightarrow> host" where
  "journal_clear key w = w\<lparr>h_files := (h_files w)(journal_path key := FileMissing)\<rparr>"

definition reservation_json :: "(ustr \<times> ustr) list option \<Rightarrow> json" where
  "reservation_json r = (case r of None \<Rightarrow> JNull | Some kvs \<Rightarrow> JObj (map (\<lambda>(k, v). (k, JStr v)) kvs))"

definition abandon :: "(json \<Rightarrow> ustr) \<Rightarrow> ustr \<Rightarrow> (host, exn, unit) eff" where
  "abandon py_str key w =
     (case journal_outstanding py_str key w of
        Inl e \<Rightarrow> (Inl e, w)
      | Inr r \<Rightarrow>
          (Inr (), journal_clear key (w\<lparr>h_audit := h_audit w @ [JObj
             [(lit ''event'', JStr (lit ''posting-abandoned'')), (lit ''key'', JStr key),
              (lit ''reservation'', reservation_json r)]]\<rparr>)))"

lemma journal_outstanding_reserve [simp]:
  "journal_outstanding py_str key (journal_reserve key ah at_time w) =
     Inr (Some [(lit ''action_hash'', py_str (JStr ah)), (lit ''at'', py_str (JStr at_time)),
       (lit ''key'', py_str (JStr key))])"
  by (simp add: journal_outstanding_def journal_reserve_def)

lemma journal_outstanding_clear [simp]:
  "journal_outstanding py_str key (journal_clear key w) = Inr None"
  by (simp add: journal_outstanding_def journal_clear_def)

section \<open>Properties\<close>

text \<open>The key encoding is collision free on keys whose characters are below 256: two such keys
  with the same lease or journal file name are the same key.\<close>

lemma slug_injective_bytes:
  assumes "\<forall>c \<in> set k1. c < 256" and "\<forall>c \<in> set k2. c < 256" and "slug k1 = slug k2"
  shows "k1 = k2"
  using assms by (metis unslug_slug)

lemma slug_injective_bytes_witness:
  "slug (lit ''skill:a'') \<noteq> slug (lit ''skill%3aa'')"
  using slug_injective_bytes [of "lit ''skill:a''" "lit ''skill%3aa''"] by (auto simp: lit_def)

text \<open>The documented claim that the encoding is collision free fails beyond one byte: a
  character above U+00FF is written with more than two digits, so two different keys (the Hangul
  syllable U+AC00 and the not sign U+00AC followed by two zeros) share one lease and one journal.\<close>

lemma slug_collision_beyond_bytes:
  "slug [44032] = slug [172, 48, 48] \<and> lease_path [44032] = lease_path [172, 48, 48]
     \<and> journal_path [44032] = journal_path [172, 48, 48] \<and> [44032] \<noteq> [172, 48, 48 :: nat]"
  by (simp add: lease_path_def journal_path_def slug_def slug_safe_def hex02_def hex_str.simps
      hex_digit_def)

text \<open>Abandoning a reservation records it in the audit trail before the journal is cleared, so
  the key can be posted again; an undecodable journal leaves the host unchanged.\<close>

lemma abandon_audits_then_clears:
  "abandon py_str key w = (r, w') \<Longrightarrow>
     (case journal_outstanding py_str key w of
        Inl e \<Rightarrow> r = Inl e \<and> w' = w
      | Inr res \<Rightarrow> r = Inr () \<and> journal_outstanding py_str key w' = Inr None
          \<and> h_locks w' = h_locks w
          \<and> (\<exists>line. h_audit w' = h_audit w @ [line] \<and> (case line of
                JObj kvs \<Rightarrow> jfield kvs ''key'' = JStr key \<and> jfield kvs ''reservation'' = reservation_json res
              | _ \<Rightarrow> False)))"
  by (auto simp: abandon_def journal_clear_def journal_outstanding_def split: sum.splits)

lemma abandon_audits_then_clears_witness:
  "\<exists>w'. abandon (\<lambda>_. []) (lit ''k'') \<lparr>h_locks = {}, h_files = (\<lambda>_. FileNotJson), h_audit = []\<rparr>
          = (Inr (), w') \<and> journal_outstanding (\<lambda>_. []) (lit ''k'') w' = Inr None"
  using abandon_audits_then_clears
    [of "\<lambda>_. []" "lit ''k''" "\<lparr>h_locks = {}, h_files = (\<lambda>_. FileNotJson), h_audit = []\<rparr>"]
  by (auto simp: abandon_def journal_outstanding_def)

end
