(* ===== verification/ApprovalLifecycle.thy ===== *)
theory ApprovalLifecycle
  imports ApprovalLease
begin

text \<open>
  \<open>automation/interop/approval_lifecycle.py\<close>: the shared facade that every approval producer and
  every reaction watcher goes through. The gate, the lease and the journal are the arguments of the
  source's functions, so they are arguments here, over an arbitrary world. The second half states
  what the facade may do as a protocol monitor over the calls it makes, and proves that every run
  keeps to it.
\<close>

section \<open>Data\<close>

record request =
  rq_key :: ustr
  rq_action_hash :: ustr
  rq_message_id :: ustr
  rq_channel_id :: ustr
  rq_created_at :: ustr

record intent =
  in_key :: ustr
  in_action_hash :: ustr
  in_channel_id :: ustr

datatype probe =
    Probe_BOUND_PENDING
  | Probe_APPROVED
  | Probe_CANCELLED
  | Probe_MISSING
  | Probe_BINDING_MISMATCH
  | Probe_UNVERIFIABLE

record posted =
  po_message_id :: ustr
  po_channel_id :: ustr

record 'w gate =
  g_outstanding :: "ustr \<Rightarrow> ('w, exn, request list) eff"
  g_probe :: "request \<Rightarrow> ('w, exn, probe) eff"
  g_delete :: "request \<Rightarrow> ('w, exn, unit) eff"
  g_drop :: "request \<Rightarrow> ('w, exn, unit) eff"
  g_post :: "intent \<Rightarrow> ('w, exn, posted) eff"
  g_commit :: "intent \<Rightarrow> posted \<Rightarrow> ustr \<Rightarrow> ('w, exn, unit) eff"

text \<open>\<open>lease.hold(key)\<close> as its two halves, and the three operations of the journal the facade uses.\<close>

record 'w lease =
  l_enter :: "ustr \<Rightarrow> ('w, exn, bool) eff"
  l_exit :: "bool \<Rightarrow> ustr \<Rightarrow> 'w \<Rightarrow> 'w"

record 'w journal =
  j_outstanding :: "ustr \<Rightarrow> ('w, exn, (ustr \<times> ustr) list option) eff"
  j_reserve :: "ustr \<Rightarrow> ustr \<Rightarrow> ustr \<Rightarrow> ('w, exn, unit) eff"
  j_clear :: "ustr \<Rightarrow> ('w, exn, unit) eff"

datatype outcome = Outcome_POSTED | Outcome_PENDING | Outcome_DEFERRED | Outcome_REFUSED

datatype reason =
    Reason_LEASE_HELD
  | Reason_OWNER_DECIDED
  | Reason_UNVERIFIABLE
  | Reason_BINDING_MISMATCH
  | Reason_STORE_UNREADABLE
  | Reason_SUPERSEDE_FAILED
  | Reason_POSTING_JOURNAL_STALE
  | Reason_CONTENT_CHANGED
  | Reason_MESSAGE_MISSING
  | Reason_DUPLICATE_COLLAPSED

record cleared =
  cl_request :: request
  cl_reason :: reason

record verdict =
  v_outcome :: outcome
  v_reason :: "reason option"
  v_live :: "request option"
  v_posted :: "posted option"
  v_cleared :: "cleared list"
  v_blocked :: "request list"

definition verdict0 :: "outcome \<Rightarrow> reason option \<Rightarrow> verdict" where
  "verdict0 out rsn = \<lparr>v_outcome = out, v_reason = rsn, v_live = None, v_posted = None,
     v_cleared = [], v_blocked = []\<rparr>"

definition cleared_of :: "request \<Rightarrow> reason \<Rightarrow> cleared" where
  "cleared_of r rsn = \<lparr>cl_request = r, cl_reason = rsn\<rparr>"

section \<open>The producer\<close>

definition surface_failure :: "exn \<Rightarrow> bool" where
  "surface_failure e \<longleftrightarrow> e = ApprovalSurfaceError \<or> e = OSError"

text \<open>\<open>_probe\<close>: liveness that cannot be read is UNVERIFIABLE.\<close>

definition safe_probe :: "'w gate \<Rightarrow> request \<Rightarrow> ('w, exn, probe) eff" where
  "safe_probe g r =
     catchM (g_probe g r) (\<lambda>e. if surface_failure e then Some (ret Probe_UNVERIFIABLE) else None)"

text \<open>\<open>_destroy\<close>: the list \<open>cleared\<close> is shared with the caller, so it is returned as well.\<close>

fun destroy ::
    "'w gate \<Rightarrow> reason \<Rightarrow> request list \<Rightarrow> cleared list \<Rightarrow> ('w, exn, verdict option \<times> cleared list) eff"
  where
  "destroy g rsn [] cl = ret (None, cl)"
| "destroy g rsn (r # rs) cl =
     bindM (safe_probe g r) (\<lambda>p.
       case p of
         Probe_APPROVED \<Rightarrow>
           ret (Some ((verdict0 Outcome_DEFERRED (Some Reason_OWNER_DECIDED))
             \<lparr>v_cleared := cl, v_blocked := [r]\<rparr>), cl)
       | Probe_CANCELLED \<Rightarrow>
           ret (Some ((verdict0 Outcome_DEFERRED (Some Reason_OWNER_DECIDED))
             \<lparr>v_cleared := cl, v_blocked := [r]\<rparr>), cl)
       | Probe_UNVERIFIABLE \<Rightarrow>
           ret (Some ((verdict0 Outcome_DEFERRED (Some Reason_UNVERIFIABLE))
             \<lparr>v_cleared := cl, v_blocked := [r]\<rparr>), cl)
       | Probe_BINDING_MISMATCH \<Rightarrow>
           ret (Some ((verdict0 Outcome_REFUSED (Some Reason_BINDING_MISMATCH))
             \<lparr>v_cleared := cl, v_blocked := [r]\<rparr>), cl)
       | Probe_MISSING \<Rightarrow>
           bindM (g_drop g r) (\<lambda>_. destroy g rsn rs (cl @ [cleared_of r Reason_MESSAGE_MISSING]))
       | Probe_BOUND_PENDING \<Rightarrow>
           bindM (catchM (bindM (g_delete g r) (\<lambda>_. ret True))
                    (\<lambda>e. if surface_failure e then Some (ret False) else None)) (\<lambda>deleted.
             if deleted
             then bindM (g_drop g r) (\<lambda>_. destroy g rsn rs (cl @ [cleared_of r rsn]))
             else ret (Some ((verdict0 Outcome_REFUSED (Some Reason_SUPERSEDE_FAILED))
                    \<lparr>v_cleared := cl, v_blocked := [r]\<rparr>), cl)))"

definition probed :: "probe list \<Rightarrow> (request \<times> probe) list \<Rightarrow> request list" where
  "probed ps snapshot = map fst (filter (\<lambda>(r, p). p \<in> set ps) snapshot)"

lemma probed_Nil [simp]: "probed ps [] = []"
  by (simp add: probed_def)

lemma probed_Cons [simp]:
  "probed ps ((r, p) # sn) = (if p \<in> set ps then r # probed ps sn else probed ps sn)"
  by (simp add: probed_def)

lemma set_probed: "set (probed ps sn) = {r. \<exists>p \<in> set ps. (r, p) \<in> set sn}"
  by (force simp: probed_def)

text \<open>The requests bound to this very action, oldest first, and the ones bound to another one.\<close>

definition same_requests :: "intent \<Rightarrow> (request \<times> probe) list \<Rightarrow> request list" where
  "same_requests i snapshot =
     sort_key (\<lambda>r. (rq_created_at r, rq_message_id r))
       (filter (\<lambda>r. rq_action_hash r = in_action_hash i) (probed [Probe_BOUND_PENDING] snapshot))"

definition other_requests :: "intent \<Rightarrow> (request \<times> probe) list \<Rightarrow> request list" where
  "other_requests i snapshot =
     filter (\<lambda>r. rq_action_hash r \<noteq> in_action_hash i) (probed [Probe_BOUND_PENDING] snapshot)"

text \<open>Posting a new request: reserve, post, commit, clear, in that order.\<close>

definition post_new ::
    "'w gate \<Rightarrow> 'w journal \<Rightarrow> ('w \<Rightarrow> ustr) \<Rightarrow> intent \<Rightarrow> cleared list \<Rightarrow> ('w, exn, verdict) eff" where
  "post_new g j now i cl = (\<lambda>w.
     let created_at = now w in
     bindM (j_reserve j (in_key i) (in_action_hash i) created_at) (\<lambda>_.
     bindM (g_post g i) (\<lambda>posted.
     bindM (g_commit g i posted created_at) (\<lambda>_.
     bindM (j_clear j (in_key i)) (\<lambda>_.
       ret ((verdict0 Outcome_POSTED None)\<lparr>v_posted := Some posted, v_cleared := cl\<rparr>))))) w)"

text \<open>The branches that follow once every outstanding request is live and ours, or missing.\<close>

definition settle ::
    "'w gate \<Rightarrow> 'w journal \<Rightarrow> ('w \<Rightarrow> ustr) \<Rightarrow> intent \<Rightarrow> (request \<times> probe) list \<Rightarrow> ('w, exn, verdict) eff" where
  "settle g j now i snapshot =
     (let same = same_requests i snapshot;
          others = other_requests i snapshot;
          gone = probed [Probe_MISSING] snapshot;
          cl0 = map (\<lambda>r. cleared_of r Reason_MESSAGE_MISSING) gone in
      bindM (iterM (g_drop g) gone) (\<lambda>_.
      case same of
        canonical # duplicates \<Rightarrow>
          bindM (destroy g Reason_DUPLICATE_COLLAPSED duplicates cl0) (\<lambda>(halted, cl).
          case halted of
            Some v \<Rightarrow> ret v
          | None \<Rightarrow> ret ((verdict0 Outcome_PENDING
                (if duplicates = [] then None else Some Reason_DUPLICATE_COLLAPSED))
              \<lparr>v_live := Some canonical, v_cleared := cl\<rparr>))
      | [] \<Rightarrow>
          bindM (destroy g Reason_CONTENT_CHANGED others cl0) (\<lambda>(halted, cl).
          case halted of
            Some v \<Rightarrow> ret v
          | None \<Rightarrow> post_new g j now i cl)))"

definition decide_snapshot ::
    "'w gate \<Rightarrow> 'w journal \<Rightarrow> ('w \<Rightarrow> ustr) \<Rightarrow> intent \<Rightarrow> (request \<times> probe) list \<Rightarrow> ('w, exn, verdict) eff" where
  "decide_snapshot g j now i snapshot =
     (let decided = probed [Probe_APPROVED, Probe_CANCELLED] snapshot;
          unverifiable = probed [Probe_UNVERIFIABLE] snapshot;
          mismatched = probed [Probe_BINDING_MISMATCH] snapshot in
      if decided \<noteq> [] then
        ret ((verdict0 Outcome_DEFERRED (Some Reason_OWNER_DECIDED))\<lparr>v_blocked := decided\<rparr>)
      else if unverifiable \<noteq> [] then
        ret ((verdict0 Outcome_DEFERRED (Some Reason_UNVERIFIABLE))\<lparr>v_blocked := unverifiable\<rparr>)
      else if mismatched \<noteq> [] then
        ret ((verdict0 Outcome_REFUSED (Some Reason_BINDING_MISMATCH))\<lparr>v_blocked := mismatched\<rparr>)
      else settle g j now i snapshot)"

definition snapshot_of :: "'w gate \<Rightarrow> request list \<Rightarrow> ('w, exn, (request \<times> probe) list) eff" where
  "snapshot_of g rs = mapM (\<lambda>r. bindM (safe_probe g r) (\<lambda>p. ret (r, p))) rs"

text \<open>The body of the \<open>with\<close> block.\<close>

definition owned_request ::
    "'w gate \<Rightarrow> 'w journal \<Rightarrow> ('w \<Rightarrow> ustr) \<Rightarrow> intent \<Rightarrow> bool \<Rightarrow> ('w, exn, verdict) eff" where
  "owned_request g j now i owned =
     (if \<not> owned then ret (verdict0 Outcome_DEFERRED (Some Reason_LEASE_HELD))
      else bindM (j_outstanding j (in_key i)) (\<lambda>reservation.
        if reservation \<noteq> None then ret (verdict0 Outcome_REFUSED (Some Reason_POSTING_JOURNAL_STALE))
        else bindM (catchM (bindM (g_outstanding g (in_key i)) (\<lambda>rs. ret (Some rs)))
                     (\<lambda>e. if e = ApprovalRecordsError then Some (ret None) else None)) (\<lambda>outstanding.
          case outstanding of
            None \<Rightarrow> ret (verdict0 Outcome_REFUSED (Some Reason_STORE_UNREADABLE))
          | Some rs \<Rightarrow> bindM (snapshot_of g rs) (decide_snapshot g j now i))))"

definition with_lease :: "'w lease \<Rightarrow> ustr \<Rightarrow> (bool \<Rightarrow> ('w, exn, 'a) eff) \<Rightarrow> ('w, exn, 'a) eff" where
  "with_lease l key body =
     bindM (l_enter l key) (\<lambda>owned. finallyM (body owned) (l_exit l owned key))"

definition request_owner_approval ::
    "'w gate \<Rightarrow> 'w lease \<Rightarrow> 'w journal \<Rightarrow> ('w \<Rightarrow> ustr) \<Rightarrow> intent \<Rightarrow> ('w, exn, verdict) eff" where
  "request_owner_approval g l j now i = with_lease l (in_key i) (owned_request g j now i)"

section \<open>The watcher\<close>

record 'w watcher =
  dw_probe :: "request \<Rightarrow> ('w, exn, probe) eff"
  dw_apply :: "request \<Rightarrow> probe \<Rightarrow> ('w, exn, unit) eff"
  dw_drop :: "request \<Rightarrow> ('w, exn, unit) eff"

datatype watch_outcome = Watch_CONSUMED | Watch_WAITING | Watch_SKIPPED

record watch_verdict =
  wv_outcome :: watch_outcome
  wv_reason :: "reason option"

definition owned_resolve :: "'w watcher \<Rightarrow> request \<Rightarrow> bool \<Rightarrow> ('w, exn, watch_verdict) eff" where
  "owned_resolve d r owned =
     (if \<not> owned then ret \<lparr>wv_outcome = Watch_SKIPPED, wv_reason = Some Reason_LEASE_HELD\<rparr>
      else bindM (dw_probe d r) (\<lambda>decision.
        if decision = Probe_APPROVED \<or> decision = Probe_CANCELLED
        then bindM (dw_apply d r decision) (\<lambda>_. bindM (dw_drop d r) (\<lambda>_.
               ret \<lparr>wv_outcome = Watch_CONSUMED, wv_reason = None\<rparr>))
        else ret \<lparr>wv_outcome = Watch_WAITING, wv_reason = None\<rparr>))"

definition resolve_owner_decision ::
    "'w watcher \<Rightarrow> 'w lease \<Rightarrow> request \<Rightarrow> ('w, exn, watch_verdict) eff" where
  "resolve_owner_decision d l r = with_lease l (rq_key r) (owned_resolve d r)"

end
