(* ===== verification/ApprovalProtocol.thy ===== *)
theory ApprovalProtocol
  imports ApprovalLifecycle
begin

text \<open>
  What a run of the facade may do, stated over the calls it makes on its collaborators and for every
  gate, lease, journal and clock. The collaborators are wrapped so that each call is appended to a
  trace; the protocol monitor reads the trace and allows a call only where rules L1 to L4 of the
  module's docstring allow it. The main lemma is that every run is accepted; the properties read off
  what acceptance means.
\<close>

section \<open>Traces\<close>

datatype event =
    Ev_enter ustr "exn + bool"
  | Ev_exit ustr
  | Ev_reservation ustr "exn + (ustr \<times> ustr) list option"
  | Ev_reserve ustr "exn + unit"
  | Ev_clear ustr "exn + unit"
  | Ev_outstanding ustr "exn + request list"
  | Ev_probe request "exn + probe"
  | Ev_delete request "exn + unit"
  | Ev_drop request "exn + unit"
  | Ev_post intent "exn + posted"
  | Ev_commit intent posted "exn + unit"
  | Ev_apply request probe "exn + unit"

type_synonym 'w traced_world = "event list \<times> 'w"

definition traced :: "('w, exn, 'a) eff \<Rightarrow> (exn + 'a \<Rightarrow> event) \<Rightarrow> ('w traced_world, exn, 'a) eff" where
  "traced m ev = (\<lambda>(tr, w). case m w of (r, w') \<Rightarrow> (r, (tr @ [ev r], w')))"

definition traced_gate :: "'w gate \<Rightarrow> 'w traced_world gate" where
  "traced_gate g =
     \<lparr>g_outstanding = (\<lambda>k. traced (g_outstanding g k) (Ev_outstanding k)),
      g_probe = (\<lambda>r. traced (g_probe g r) (Ev_probe r)),
      g_delete = (\<lambda>r. traced (g_delete g r) (Ev_delete r)),
      g_drop = (\<lambda>r. traced (g_drop g r) (Ev_drop r)),
      g_post = (\<lambda>i. traced (g_post g i) (Ev_post i)),
      g_commit = (\<lambda>i p c. traced (g_commit g i p c) (Ev_commit i p))\<rparr>"

definition traced_lease :: "'w lease \<Rightarrow> 'w traced_world lease" where
  "traced_lease l =
     \<lparr>l_enter = (\<lambda>k. traced (l_enter l k) (Ev_enter k)),
      l_exit = (\<lambda>owned k (tr, w). (tr @ [Ev_exit k], l_exit l owned k w))\<rparr>"

definition traced_journal :: "'w journal \<Rightarrow> 'w traced_world journal" where
  "traced_journal j =
     \<lparr>j_outstanding = (\<lambda>k. traced (j_outstanding j k) (Ev_reservation k)),
      j_reserve = (\<lambda>k a c. traced (j_reserve j k a c) (Ev_reserve k)),
      j_clear = (\<lambda>k. traced (j_clear j k) (Ev_clear k))\<rparr>"

definition traced_watcher :: "'w watcher \<Rightarrow> 'w traced_world watcher" where
  "traced_watcher d =
     \<lparr>dw_probe = (\<lambda>r. traced (dw_probe d r) (Ev_probe r)),
      dw_apply = (\<lambda>r p. traced (dw_apply d r p) (Ev_apply r p)),
      dw_drop = (\<lambda>r. traced (dw_drop d r) (Ev_drop r))\<rparr>"

text \<open>The run of a producer from an empty trace, and of a watcher.\<close>

definition producer_run ::
    "'w gate \<Rightarrow> 'w lease \<Rightarrow> 'w journal \<Rightarrow> ('w \<Rightarrow> ustr) \<Rightarrow> intent \<Rightarrow> 'w \<Rightarrow> (exn + verdict) \<times> 'w traced_world" where
  "producer_run g l j now i w =
     request_owner_approval (traced_gate g) (traced_lease l) (traced_journal j) (now \<circ> snd) i ([], w)"

definition watcher_run ::
    "'w watcher \<Rightarrow> 'w lease \<Rightarrow> request \<Rightarrow> 'w \<Rightarrow> (exn + watch_verdict) \<times> 'w traced_world" where
  "watcher_run d l r w = resolve_owner_decision (traced_watcher d) (traced_lease l) r ([], w)"

text \<open>Tracing observes a run and changes nothing: forgetting the trace gives the plain run.\<close>

definition sim :: "('w traced_world, exn, 'a) eff \<Rightarrow> ('w, exn, 'a) eff \<Rightarrow> bool" where
  "sim m m' \<longleftrightarrow> (\<forall>tr w. fst (m (tr, w)) = fst (m' w) \<and> snd (snd (m (tr, w))) = snd (m' w))"

lemma sim_ret: "sim (ret x) (ret x)"
  by (simp add: sim_def ret_def)

lemma sim_traced: "sim (traced m ev) m"
  by (auto simp: sim_def traced_def split: prod.splits)

lemma sim_bind: "sim m m' \<Longrightarrow> (\<And>x. sim (f x) (f' x)) \<Longrightarrow> sim (bindM m f) (bindM m' f')"
  unfolding sim_def bindM_def
  by (auto split: prod.splits sum.splits; metis fst_conv snd_conv prod.collapse sum.inject sum.distinct)

section \<open>The protocol monitor\<close>

datatype post_phase = Not_reserved | Reserved | Message_posted posted | Committed | Journal_cleared

text \<open>
  \<open>m_held\<close>: the lease is held (L1). \<open>m_bad\<close>: a decided, mismatched or unverifiable request, a stale
  journal, an unreadable store or a failed effect has been seen, so nothing may change any more (L3,
  L4). \<open>m_armed\<close>: the last call was a probe that found this request live and undecided, so it may be
  deleted. \<open>m_gone\<close>: requests found missing or deleted, so their records may be dropped (L2).
  \<open>m_listed\<close>: the outstanding requests of the key, all of which must be gone before a new post.
\<close>

record mon =
  m_held :: bool
  m_bad :: bool
  m_armed :: "request option"
  m_gone :: "request set"
  m_listed :: "request set"
  m_phase :: post_phase

definition mon0 :: mon where
  "mon0 = \<lparr>m_held = False, m_bad = False, m_armed = None, m_gone = {}, m_listed = {},
     m_phase = Not_reserved\<rparr>"

definition free_to_act :: "mon \<Rightarrow> bool" where
  "free_to_act m \<longleftrightarrow> m_held m \<and> \<not> m_bad m"

definition failed :: "exn + 'a \<Rightarrow> bool" where
  "failed r \<longleftrightarrow> (case r of Inl _ \<Rightarrow> True | Inr _ \<Rightarrow> False)"

fun mon_step :: "mon \<Rightarrow> event \<Rightarrow> mon option" where
  "mon_step m (Ev_enter k r) = Some (m\<lparr>m_held := (r = Inr True), m_armed := None\<rparr>)"
| "mon_step m (Ev_exit k) = Some (m\<lparr>m_held := False, m_armed := None\<rparr>)"
| "mon_step m (Ev_reservation k r) =
     (if m_held m then Some (m\<lparr>m_bad := m_bad m \<or> r \<noteq> Inr None, m_armed := None\<rparr>) else None)"
| "mon_step m (Ev_outstanding k r) =
     (if m_held m then Some (case r of
         Inl _ \<Rightarrow> m\<lparr>m_bad := True, m_armed := None\<rparr>
       | Inr rs \<Rightarrow> m\<lparr>m_listed := m_listed m \<union> set rs, m_armed := None\<rparr>) else None)"
| "mon_step m (Ev_probe q r) =
     (if m_held m then Some (case r of
         Inr Probe_MISSING \<Rightarrow> m\<lparr>m_gone := insert q (m_gone m), m_armed := None\<rparr>
       | Inr Probe_BOUND_PENDING \<Rightarrow> m\<lparr>m_armed := Some q\<rparr>
       | _ \<Rightarrow> m\<lparr>m_bad := True, m_armed := None\<rparr>) else None)"
| "mon_step m (Ev_delete q r) =
     (if free_to_act m \<and> m_armed m = Some q then Some (m\<lparr>m_bad := failed r, m_armed := None,
         m_gone := (if failed r then m_gone m else insert q (m_gone m))\<rparr>) else None)"
| "mon_step m (Ev_drop q r) =
     (if free_to_act m \<and> q \<in> m_gone m then Some (m\<lparr>m_bad := failed r, m_armed := None\<rparr>) else None)"
| "mon_step m (Ev_reserve k r) =
     (if free_to_act m \<and> m_phase m = Not_reserved \<and> m_listed m \<subseteq> m_gone m
      then Some (m\<lparr>m_bad := failed r, m_armed := None, m_phase := Reserved\<rparr>) else None)"
| "mon_step m (Ev_post i r) =
     (if free_to_act m \<and> m_phase m = Reserved
      then Some (case r of Inl _ \<Rightarrow> m\<lparr>m_bad := True, m_armed := None\<rparr>
        | Inr p \<Rightarrow> m\<lparr>m_phase := Message_posted p, m_armed := None\<rparr>)
      else None)"
| "mon_step m (Ev_commit i p r) =
     (if free_to_act m \<and> m_phase m = Message_posted p
      then Some (m\<lparr>m_bad := failed r, m_armed := None, m_phase := Committed\<rparr>) else None)"
| "mon_step m (Ev_clear k r) =
     (if free_to_act m \<and> m_phase m = Committed
      then Some (m\<lparr>m_bad := failed r, m_armed := None, m_phase := Journal_cleared\<rparr>) else None)"
| "mon_step m (Ev_apply q p r) = None"

fun mon_run :: "mon \<Rightarrow> event list \<Rightarrow> mon option" where
  "mon_run m [] = Some m"
| "mon_run m (e # es) = (case mon_step m e of None \<Rightarrow> None | Some m' \<Rightarrow> mon_run m' es)"

definition accepted :: "event list \<Rightarrow> bool" where
  "accepted tr \<longleftrightarrow> mon_run mon0 tr \<noteq> None"

lemma mon_run_append:
  "mon_run m (es @ fs) = (case mon_run m es of None \<Rightarrow> None | Some m' \<Rightarrow> mon_run m' fs)"
  by (induction es arbitrary: m) (auto split: option.splits)

section \<open>Every run is accepted\<close>

text \<open>The state of the run between two calls, as what the monitor knows about the trace so far.\<close>

definition ready :: "request set \<Rightarrow> request set \<Rightarrow> post_phase \<Rightarrow> event list \<Rightarrow> bool" where
  "ready L G ph tr \<longleftrightarrow> (\<exists>m. mon_run mon0 tr = Some m \<and> free_to_act m \<and> m_listed m = L
     \<and> G \<subseteq> m_gone m \<and> m_phase m = ph)"

definition armed :: "request set \<Rightarrow> request set \<Rightarrow> request \<Rightarrow> event list \<Rightarrow> bool" where
  "armed L G q tr \<longleftrightarrow> (\<exists>m. mon_run mon0 tr = Some m \<and> free_to_act m \<and> m_listed m = L
     \<and> G \<subseteq> m_gone m \<and> m_phase m = Not_reserved \<and> m_armed m = Some q)"

lemma armed_ready: "armed L G q tr \<Longrightarrow> ready L G Not_reserved tr"
  unfolding armed_def ready_def by blast

lemma ready_accepted: "ready L G ph tr \<Longrightarrow> accepted tr"
  by (auto simp: ready_def accepted_def)

lemma accepted_exit: "accepted tr \<Longrightarrow> accepted (tr @ [Ev_exit k])"
  by (auto simp: accepted_def mon_run_append)

text \<open>One lemma per kind of call: from a state where it is allowed to the states its result gives.\<close>

lemmas call_defs = ready_def armed_def accepted_def mon_run_append free_to_act_def failed_def

lemma call_probe:
  assumes "ready L G Not_reserved tr"
  shows "accepted (tr @ [Ev_probe q r])"
    and "r = Inr Probe_MISSING \<Longrightarrow> ready L (insert q G) Not_reserved (tr @ [Ev_probe q r])"
    and "r = Inr Probe_BOUND_PENDING \<Longrightarrow> armed L G q (tr @ [Ev_probe q r])"
  using assms by (auto simp: call_defs)

lemma call_delete:
  assumes "armed L G q tr"
  shows "accepted (tr @ [Ev_delete q r])"
    and "r = Inr u \<Longrightarrow> ready L (insert q G) Not_reserved (tr @ [Ev_delete q r])"
  using assms by (auto simp: call_defs)

lemma call_drop:
  assumes "ready L G Not_reserved tr" and "q \<in> G"
  shows "accepted (tr @ [Ev_drop q r])" and "r = Inr u \<Longrightarrow> ready L G Not_reserved (tr @ [Ev_drop q r])"
  using assms by (auto simp: call_defs)

lemma call_reserve:
  assumes "ready L G Not_reserved tr" and "L \<subseteq> G"
  shows "accepted (tr @ [Ev_reserve k r])" and "r = Inr u \<Longrightarrow> ready L G Reserved (tr @ [Ev_reserve k r])"
  using assms by (auto simp: call_defs)

lemma call_post:
  assumes "ready L G Reserved tr"
  shows "accepted (tr @ [Ev_post i r])"
    and "r = Inr p \<Longrightarrow> ready L G (Message_posted p) (tr @ [Ev_post i r])"
  using assms by (auto simp: call_defs split: sum.splits)

lemma call_commit:
  assumes "ready L G (Message_posted p) tr"
  shows "accepted (tr @ [Ev_commit i p r])" and "r = Inr u \<Longrightarrow> ready L G Committed (tr @ [Ev_commit i p r])"
  using assms by (auto simp: call_defs)

lemma call_clear:
  assumes "ready L G Committed tr"
  shows "accepted (tr @ [Ev_clear k r])"
  using assms by (auto simp: call_defs)

text \<open>The calls of the traced collaborators, as weakest preconditions for any collaborator.\<close>

lemma wp_traced:
  assumes "\<And>x w'. Q x (tr @ [ev (Inr x)], w')" and "\<And>e w'. E e (tr @ [ev (Inl e)], w')"
  shows "wp (traced m ev) Q E (tr, w)"
  using assms by (auto simp: wp_def traced_def split: prod.splits sum.splits)

lemma traced_gate_simps [simp]:
  "g_outstanding (traced_gate g) k = traced (g_outstanding g k) (Ev_outstanding k)"
  "g_probe (traced_gate g) q = traced (g_probe g q) (Ev_probe q)"
  "g_delete (traced_gate g) q = traced (g_delete g q) (Ev_delete q)"
  "g_drop (traced_gate g) q = traced (g_drop g q) (Ev_drop q)"
  "g_post (traced_gate g) i = traced (g_post g i) (Ev_post i)"
  "g_commit (traced_gate g) i p c = traced (g_commit g i p c) (Ev_commit i p)"
  by (simp_all add: traced_gate_def)

lemma traced_others_simps [simp]:
  "l_enter (traced_lease l) k = traced (l_enter l k) (Ev_enter k)"
  "l_exit (traced_lease l) owned k (tr, w) = (tr @ [Ev_exit k], l_exit l owned k w)"
  "j_outstanding (traced_journal j) k = traced (j_outstanding j k) (Ev_reservation k)"
  "j_reserve (traced_journal j) k a c = traced (j_reserve j k a c) (Ev_reserve k)"
  "j_clear (traced_journal j) k = traced (j_clear j k) (Ev_clear k)"
  by (simp_all add: traced_lease_def traced_journal_def)

definition good_probe :: "probe \<Rightarrow> bool" where
  "good_probe p \<longleftrightarrow> p = Probe_BOUND_PENDING \<or> p = Probe_MISSING"

lemma wp_safe_probe:
  assumes "ready L G Not_reserved tr"
  shows "wp (safe_probe (traced_gate g) q)
    (\<lambda>p (tr', w'). accepted tr' \<and> (p = Probe_MISSING \<longrightarrow> ready L (insert q G) Not_reserved tr')
       \<and> (p = Probe_BOUND_PENDING \<longrightarrow> armed L G q tr'))
    (\<lambda>e (tr', w'). accepted tr') (tr, w)"
  unfolding safe_probe_def
  by (simp, rule wp_traced) (use call_probe [OF assms] in \<open>auto split: option.splits\<close>)

lemma wp_destroy:
  assumes "ready L G Not_reserved tr"
  shows "wp (destroy (traced_gate g) rsn rs cl)
    (\<lambda>(h, cl') (tr', w'). accepted tr' \<and> (h = None \<longrightarrow> ready L (G \<union> set rs) Not_reserved tr'))
    (\<lambda>e (tr', w'). accepted tr') (tr, w)"
  using assms
proof (induction rs arbitrary: G tr w cl)
  case Nil
  then show ?case by (auto dest: ready_accepted)
next
  case (Cons q rs)
  have drop: "wp (bindM (traced (g_drop g q) (Ev_drop q)) (\<lambda>_. destroy (traced_gate g) rsn rs cl'))
      (\<lambda>(h, cl') (tr', w'). accepted tr' \<and> (h = None \<longrightarrow> ready L (G \<union> set (q # rs)) Not_reserved tr'))
      (\<lambda>e (tr', w'). accepted tr') (tr', w')"
    if "ready L (insert q G) Not_reserved tr'" for cl' tr' w'
    by (simp, rule wp_traced)
      (use call_drop [OF that, of q] Cons.IH [of "insert q G"] in auto)
  have del: "wp (bindM (catchM (bindM (g_delete (traced_gate g) q) (\<lambda>_. ret True))
                    (\<lambda>e. if surface_failure e then Some (ret False) else None)) (\<lambda>deleted.
             if deleted
             then bindM (g_drop (traced_gate g) q) (\<lambda>_. destroy (traced_gate g) rsn rs (cl @ [cleared_of q rsn]))
             else ret (Some ((verdict0 Outcome_REFUSED (Some Reason_SUPERSEDE_FAILED))
                    \<lparr>v_cleared := cl, v_blocked := [q]\<rparr>), cl)))
      (\<lambda>(h, cl') (tr', w'). accepted tr' \<and> (h = None \<longrightarrow> ready L (G \<union> set (q # rs)) Not_reserved tr'))
      (\<lambda>e (tr', w'). accepted tr') (tr', w')"
    if "armed L G q tr'" for tr' w'
    unfolding wp_bindM wp_catchM traced_gate_simps
    by (rule wp_traced)
      (use call_delete [OF that] drop in \<open>auto simp del: wp_bindM\<close>)
  show ?case
    unfolding destroy.simps wp_bindM
    apply (rule wp_mono [OF wp_safe_probe [OF Cons.prems]])
    subgoal for p tw
      by (cases tw; cases p) (use drop del in \<open>simp_all del: wp_bindM wp_catchM\<close>)
    subgoal by simp
    done
qed

lemma wp_drops:
  assumes "ready L G Not_reserved tr" and "set rs \<subseteq> G"
  shows "wp (iterM (g_drop (traced_gate g)) rs)
    (\<lambda>_ (tr', w'). ready L G Not_reserved tr') (\<lambda>e (tr', w'). accepted tr') (tr, w)"
  using assms
proof (induction rs arbitrary: tr w)
  case Nil
  then show ?case by simp
next
  case (Cons q rs)
  then show ?case
    by (simp, intro wp_traced) (use call_drop [OF Cons.prems(1), of q] in auto)
qed

text \<open>The snapshot probes every outstanding request and changes nothing.\<close>

lemma wp_snapshot:
  assumes "accepted tr" and "b \<Longrightarrow> ready L G Not_reserved tr" and "b \<or> (\<exists>m. mon_run mon0 tr = Some m \<and> m_held m)"
  shows "wp (snapshot_of (traced_gate g) rs)
    (\<lambda>sn (tr', w'). map fst sn = rs \<and> accepted tr'
       \<and> (b \<and> (\<forall>(r, p) \<in> set sn. good_probe p) \<longrightarrow>
            ready L (G \<union> set (probed [Probe_MISSING] sn)) Not_reserved tr'))
    (\<lambda>e (tr', w'). accepted tr') (tr, w)"
  using assms
proof (induction rs arbitrary: b G tr w)
  case Nil
  then show ?case by (simp add: snapshot_of_def probed_def)
next
  case (Cons q rs)
  obtain m where m: "mon_run mon0 tr = Some m" "m_held m"
    using Cons.prems by (auto simp: ready_def free_to_act_def)
  have step: "accepted (tr @ [Ev_probe q r])"
    "\<exists>m. mon_run mon0 (tr @ [Ev_probe q r]) = Some m \<and> m_held m" for r
    using m by (auto simp: accepted_def mon_run_append split: sum.splits probe.splits)
  have rest: "wp (bindM (snapshot_of (traced_gate g) rs) (\<lambda>ys. ret ((q, p) # ys)))
      (\<lambda>sn (tr', w'). map fst sn = q # rs \<and> accepted tr'
         \<and> (b \<and> (\<forall>(r, p) \<in> set sn. good_probe p) \<longrightarrow>
              ready L (G \<union> set (probed [Probe_MISSING] sn)) Not_reserved tr'))
      (\<lambda>e (tr', w'). accepted tr') (tr @ [Ev_probe q r], w')"
    if "r = Inr p \<or> \<not> good_probe p" for p r w'
  proof (cases "b \<and> good_probe p")
    case True
    with Cons.prems(2) that have "ready L (if p = Probe_MISSING then insert q G else G) Not_reserved
        (tr @ [Ev_probe q r])"
      using call_probe(2) [of L G tr r q] armed_ready [OF call_probe(3) [of L G tr r q]]
      by (auto simp: good_probe_def)
    then show ?thesis
      unfolding wp_bindM
      by (intro wp_mono [OF Cons.IH [of _ True]])
        (use step True in \<open>auto simp: good_probe_def split: if_splits\<close>)
  next
    case False
    then show ?thesis
      unfolding wp_bindM
      by (intro wp_mono [OF Cons.IH [of _ False]]) (use step in auto)
  qed
  have "wp (safe_probe (traced_gate g) q)
      (\<lambda>p (tr', w'). \<exists>r. tr' = tr @ [Ev_probe q r] \<and> (r = Inr p \<or> \<not> good_probe p))
      (\<lambda>e (tr', w'). \<exists>r. tr' = tr @ [Ev_probe q r]) (tr, w)"
    unfolding safe_probe_def
    by (simp, rule wp_traced) (auto simp: good_probe_def split: option.splits)
  moreover have "snapshot_of (traced_gate g) (q # rs) =
      bindM (safe_probe (traced_gate g) q) (\<lambda>p.
        bindM (snapshot_of (traced_gate g) rs) (\<lambda>ys. ret ((q, p) # ys)))"
    by (simp add: snapshot_of_def bindM_assoc)
  ultimately show ?case
    by (simp only:, subst wp_bindM, elim wp_mono)
      (use rest step in \<open>auto simp del: wp_bindM probed_Cons\<close>)
qed

lemma wp_post_new_iff:
  "wp (post_new g j now i cl) Q E w \<longleftrightarrow>
     wp (j_reserve j (in_key i) (in_action_hash i) (now w)) (\<lambda>_. wp (g_post g i) (\<lambda>p.
       wp (g_commit g i p (now w)) (\<lambda>_. wp (j_clear j (in_key i))
         (\<lambda>_. Q ((verdict0 Outcome_POSTED None)\<lparr>v_posted := Some p, v_cleared := cl\<rparr>)) E) E) E) E w"
proof -
  have "wp (post_new g j now i cl) Q E w = wp (
      bindM (j_reserve j (in_key i) (in_action_hash i) (now w)) (\<lambda>_. bindM (g_post g i) (\<lambda>p.
        bindM (g_commit g i p (now w)) (\<lambda>_. bindM (j_clear j (in_key i)) (\<lambda>_.
          ret ((verdict0 Outcome_POSTED None)\<lparr>v_posted := Some p, v_cleared := cl\<rparr>)))))) Q E w"
    by (rule wp_cong) (simp add: post_new_def Let_def)
  then show ?thesis by simp
qed

lemma wp_post_new:
  assumes "ready L G Not_reserved tr" and "L \<subseteq> G"
  shows "wp (post_new (traced_gate g) (traced_journal j) now i cl)
    (\<lambda>v (tr', w'). accepted tr') (\<lambda>e (tr', w'). accepted tr') (tr, w)"
proof -
  have clear: "wp (traced (j_clear j k) (Ev_clear k)) (\<lambda>_ (tr', w'). accepted tr')
      (\<lambda>e (tr', w'). accepted tr') (tr', w')" if "ready L G Committed tr'" for tr' w' k
    by (rule wp_traced) (use call_clear [OF that] in auto)
  have commit: "wp (traced (g_commit g i p c) (Ev_commit i p))
      (\<lambda>_. wp (traced (j_clear j k) (Ev_clear k)) (\<lambda>_ (tr', w'). accepted tr')
        (\<lambda>e (tr', w'). accepted tr')) (\<lambda>e (tr', w'). accepted tr') (tr', w')"
    if "ready L G (Message_posted p) tr'" for tr' w' p c k
    by (rule wp_traced) (use call_commit [OF that] clear in auto)
  have post: "wp (traced (g_post g i) (Ev_post i)) (\<lambda>p. wp (traced (g_commit g i p c) (Ev_commit i p))
      (\<lambda>_. wp (traced (j_clear j k) (Ev_clear k)) (\<lambda>_ (tr', w'). accepted tr')
        (\<lambda>e (tr', w'). accepted tr')) (\<lambda>e (tr', w'). accepted tr'))
      (\<lambda>e (tr', w'). accepted tr') (tr', w')"
    if "ready L G Reserved tr'" for tr' w' c k
    by (rule wp_traced) (use call_post [OF that] commit in auto)
  show ?thesis
    unfolding wp_post_new_iff traced_gate_simps traced_others_simps
    by (rule wp_traced) (use call_reserve [OF assms] post in auto)
qed

lemma set_good_snapshot:
  assumes "map fst sn = rs" and "\<forall>(r, p) \<in> set sn. good_probe p"
  shows "set rs = set (probed [Probe_MISSING] sn) \<union> set (same_requests i sn) \<union> set (other_requests i sn)"
  using assms by (force simp: same_requests_def other_requests_def set_probed good_probe_def)

lemma wp_settle:
  assumes "ready (set rs) (set (probed [Probe_MISSING] sn)) Not_reserved tr"
    and "map fst sn = rs" and "\<forall>(r, p) \<in> set sn. good_probe p"
  shows "wp (settle (traced_gate g) (traced_journal j) now i sn)
    (\<lambda>v (tr', w'). accepted tr') (\<lambda>e (tr', w'). accepted tr') (tr, w)"
proof -
  let ?G = "set (probed [Probe_MISSING] sn)"
  have dup: "wp (destroy (traced_gate g) rsn ds cl)
      (\<lambda>(h, cl). case h of Some v \<Rightarrow> (\<lambda>(tr', w'). accepted tr') | None \<Rightarrow> (\<lambda>(tr', w'). accepted tr'))
      (\<lambda>e (tr', w'). accepted tr') (tr', w')"
    if "ready (set rs) ?G Not_reserved tr'" for rsn ds cl tr' w'
    by (rule wp_mono [OF wp_destroy [OF that]]) (auto split: option.splits)
  have oth: "wp (destroy (traced_gate g) rsn (other_requests i sn) cl)
      (\<lambda>(h, cl). case h of Some v \<Rightarrow> (\<lambda>(tr', w'). accepted tr')
         | None \<Rightarrow> wp (post_new (traced_gate g) (traced_journal j) now i cl)
             (\<lambda>v (tr', w'). accepted tr') (\<lambda>e (tr', w'). accepted tr'))
      (\<lambda>e (tr', w'). accepted tr') (tr', w')"
    if "ready (set rs) ?G Not_reserved tr'" and "same_requests i sn = []" for rsn cl tr' w'
  proof (rule wp_mono [OF wp_destroy [OF that(1)]])
    have "set rs \<subseteq> ?G \<union> set (other_requests i sn)"
      using set_good_snapshot [OF assms(2,3), of i] that(2) by simp
    then show "(case x of (h, cl) \<Rightarrow> case h of Some v \<Rightarrow> (\<lambda>(tr', w'). accepted tr')
         | None \<Rightarrow> wp (post_new (traced_gate g) (traced_journal j) now i cl)
             (\<lambda>v (tr', w'). accepted tr') (\<lambda>e (tr', w'). accepted tr')) w'"
      if "(case x of (h, cl') \<Rightarrow> \<lambda>(tr', w'). accepted tr'
           \<and> (h = None \<longrightarrow> ready (set rs) (?G \<union> set (other_requests i sn)) Not_reserved tr')) w'" for x w'
      using that by (cases x; cases w'; cases "fst x") (auto intro!: wp_post_new)
  qed auto
  show ?thesis
    unfolding settle_def Let_def wp_bindM
  proof (rule wp_mono [OF wp_drops [OF assms(1)]], goal_cases)
    case (2 u tw)
    then obtain tr' w' where tw: "tw = (tr', w')" and r: "ready (set rs) ?G Not_reserved tr'"
      by (cases tw) auto
    show ?case
    proof (cases "same_requests i sn")
      case Nil
      show ?thesis
        unfolding Nil tw list.case wp_bindM
        by (rule wp_mono [OF oth [OF r Nil]]) (auto split: option.splits prod.splits)
    next
      case (Cons c ds)
      show ?thesis
        unfolding Cons tw list.case wp_bindM
        by (rule wp_mono [OF dup [OF r]]) (auto split: option.splits prod.splits)
    qed
  qed auto
qed

lemma call_setup:
  "accepted [Ev_enter k e_r]"
  "ready {} {} Not_reserved [Ev_enter k (Inr True)]"
  "ready L G ph tr \<Longrightarrow> ready L G ph (tr @ [Ev_reservation k (Inr None)])"
  "ready L G ph tr \<Longrightarrow> accepted (tr @ [Ev_reservation k r])"
  "ready {} G ph tr \<Longrightarrow> ready (set rs) G ph (tr @ [Ev_outstanding k (Inr rs)])"
  "ready L G ph tr \<Longrightarrow> accepted (tr @ [Ev_outstanding k o_r])"
  by (auto simp: call_defs mon0_def split: sum.splits)

lemma wp_decide_snapshot:
  assumes "accepted tr" and "map fst sn = rs"
    and "\<forall>(r, p) \<in> set sn. good_probe p \<Longrightarrow> ready (set rs) (set (probed [Probe_MISSING] sn)) Not_reserved tr"
  shows "wp (decide_snapshot (traced_gate g) (traced_journal j) now i sn)
    (\<lambda>v (tr', w'). accepted tr') (\<lambda>e (tr', w'). accepted tr') (tr, w)"
proof (cases "\<forall>(r, p) \<in> set sn. good_probe p")
  case True
  then show ?thesis
    using wp_settle [OF assms(3) assms(2) True] assms(1) True
    by (auto simp: decide_snapshot_def Let_def)
next
  case False
  then obtain r p where rp: "(r, p) \<in> set sn" and bad: "\<not> good_probe p" by auto
  then have "r \<in> set (probed [Probe_APPROVED, Probe_CANCELLED] sn)
      \<or> r \<in> set (probed [Probe_UNVERIFIABLE] sn) \<or> r \<in> set (probed [Probe_BINDING_MISMATCH] sn)"
    by (cases p) (auto simp: set_probed good_probe_def)
  then show ?thesis
    using assms(1) by (auto simp: decide_snapshot_def Let_def)
qed

lemma wp_owned_request:
  "wp (owned_request (traced_gate g) (traced_journal j) now i owned)
    (\<lambda>v (tr', w'). accepted tr') (\<lambda>e (tr', w'). accepted tr') ([Ev_enter k (Inr owned)], w)"
proof (cases owned)
  case False
  then show ?thesis by (simp add: owned_request_def accepted_def)
next
  case True
  let ?tr1 = "[Ev_enter k (Inr True)] @ [Ev_reservation (in_key i) (Inr None)]"
  have r1: "ready {} {} Not_reserved ?tr1" by (intro call_setup)
  have out: "wp (bindM (snapshot_of (traced_gate g) rs) (decide_snapshot (traced_gate g) (traced_journal j) now i))
      (\<lambda>v (tr', w'). accepted tr') (\<lambda>e (tr', w'). accepted tr')
      (?tr1 @ [Ev_outstanding (in_key i) (Inr rs)], w')" for rs w'
  proof -
    have r2: "ready (set rs) {} Not_reserved (?tr1 @ [Ev_outstanding (in_key i) (Inr rs)])"
      using call_setup(5) [OF r1] by simp
    show ?thesis
      unfolding wp_bindM
      by (rule wp_mono [OF wp_snapshot [OF ready_accepted [OF r2], of True]])
        (use r2 in \<open>auto intro!: wp_decide_snapshot\<close>)
  qed
  show ?thesis
    using True
    by (auto simp: owned_request_def simp del: append.simps
        intro!: wp_traced call_setup(4) [of "{}" "{}" Not_reserved "[Ev_enter k (Inr True)]", simplified]
          call_setup(2) out [simplified] call_setup(6) [OF r1, simplified]
        split: option.splits)
qed

lemma producer_run_accepted:
  assumes "producer_run g l j now i w = (r, tr, w')"
  shows "accepted tr"
proof -
  have "wp (request_owner_approval (traced_gate g) (traced_lease l) (traced_journal j) (now \<circ> snd) i)
      (\<lambda>v (tr', w'). accepted tr') (\<lambda>e (tr', w'). accepted tr') ([], w)"
    unfolding request_owner_approval_def with_lease_def wp_bindM wp_finallyM traced_others_simps
    by (rule wp_traced)
      (auto simp: call_setup(1) intro!: wp_mono [OF wp_owned_request] accepted_exit)
  with assms show ?thesis
    by (auto simp: producer_run_def wp_def split: sum.splits)
qed

section \<open>What acceptance means\<close>

text \<open>Calls that change what the owner sees or what is stored, and calls after which nothing may.\<close>

fun mutating :: "event \<Rightarrow> bool" where
  "mutating (Ev_reserve _ _) = True"
| "mutating (Ev_clear _ _) = True"
| "mutating (Ev_delete _ _) = True"
| "mutating (Ev_drop _ _) = True"
| "mutating (Ev_post _ _) = True"
| "mutating (Ev_commit _ _ _) = True"
| "mutating (Ev_apply _ _ _) = True"
| "mutating _ = False"

fun blocking :: "event \<Rightarrow> bool" where
  "blocking (Ev_probe _ r) \<longleftrightarrow> r \<noteq> Inr Probe_MISSING \<and> r \<noteq> Inr Probe_BOUND_PENDING"
| "blocking (Ev_reservation _ r) \<longleftrightarrow> r \<noteq> Inr None"
| "blocking (Ev_outstanding _ r) \<longleftrightarrow> failed r"
| "blocking (Ev_delete _ r) \<longleftrightarrow> failed r"
| "blocking (Ev_drop _ r) \<longleftrightarrow> failed r"
| "blocking (Ev_reserve _ r) \<longleftrightarrow> failed r"
| "blocking (Ev_post _ r) \<longleftrightarrow> failed r"
| "blocking (Ev_commit _ _ r) \<longleftrightarrow> failed r"
| "blocking _ = False"

definition gone_in :: "event list \<Rightarrow> request \<Rightarrow> bool" where
  "gone_in tr q \<longleftrightarrow> Ev_probe q (Inr Probe_MISSING) \<in> set tr \<or> (\<exists>u. Ev_delete q (Inr u) \<in> set tr)"

definition lease_held_at :: "event list \<Rightarrow> bool" where
  "lease_held_at tr \<longleftrightarrow> (\<exists>xs k ys. tr = xs @ Ev_enter k (Inr True) # ys
     \<and> (\<forall>e \<in> set ys. (\<forall>k. e \<noteq> Ev_exit k) \<and> (\<forall>k r. e \<noteq> Ev_enter k r)))"

lemma lease_held_at_snoc:
  "lease_held_at tr \<Longrightarrow> (\<forall>k. e \<noteq> Ev_exit k) \<Longrightarrow> (\<forall>k r. e \<noteq> Ev_enter k r) \<Longrightarrow> lease_held_at (tr @ [e])"
  unfolding lease_held_at_def by (elim exE conjE) (rule exI, rule exI, rule_tac x = "ys @ [e]" in exI, auto)

text \<open>The monitor's fields as facts about the trace it has read, each kept by every step.\<close>

lemma gone_in_snoc: "gone_in tr q \<Longrightarrow> gone_in (tr @ [e]) q"
  by (auto simp: gone_in_def)

lemma lease_held_at_enter: "lease_held_at (tr @ [Ev_enter k (Inr True)])"
  unfolding lease_held_at_def by (intro exI [of _ tr] exI [of _ k] exI [of _ "[]"]) simp

definition inv_held :: "event list \<Rightarrow> mon \<Rightarrow> bool" where
  "inv_held tr m \<longleftrightarrow> (m_held m \<longrightarrow> lease_held_at tr)"

definition inv_armed :: "event list \<Rightarrow> mon \<Rightarrow> bool" where
  "inv_armed tr m \<longleftrightarrow>
     (\<forall>q. m_armed m = Some q \<longrightarrow> tr \<noteq> [] \<and> last tr = Ev_probe q (Inr Probe_BOUND_PENDING))"

definition inv_gone :: "event list \<Rightarrow> mon \<Rightarrow> bool" where
  "inv_gone tr m \<longleftrightarrow> (\<forall>q \<in> m_gone m. gone_in tr q)"

definition inv_listed :: "event list \<Rightarrow> mon \<Rightarrow> bool" where
  "inv_listed tr m \<longleftrightarrow>
     (\<forall>k rs q. m_phase m = Not_reserved \<and> Ev_outstanding k (Inr rs) \<in> set tr \<and> q \<in> set rs
        \<longrightarrow> q \<in> m_listed m)"

definition inv_reserved :: "event list \<Rightarrow> mon \<Rightarrow> bool" where
  "inv_reserved tr m \<longleftrightarrow> (m_phase m \<noteq> Not_reserved \<longrightarrow>
     (\<exists>xs k r ys. tr = xs @ Ev_reserve k r # ys \<and>
        (\<forall>k rs. Ev_outstanding k (Inr rs) \<in> set xs \<longrightarrow> (\<forall>q \<in> set rs. gone_in xs q))))"

definition inv_posts :: "event list \<Rightarrow> mon \<Rightarrow> bool" where
  "inv_posts tr m \<longleftrightarrow> ((m_phase m = Not_reserved \<or> m_phase m = Reserved) \<and> \<not> m_bad m \<longrightarrow>
     (\<forall>i r. Ev_post i r \<notin> set tr))"

definition inv_cleared :: "event list \<Rightarrow> mon \<Rightarrow> bool" where
  "inv_cleared tr m \<longleftrightarrow> ((m_phase m = Committed \<and> \<not> m_bad m \<or> m_phase m = Journal_cleared) \<longrightarrow>
     (\<exists>i p u. Ev_commit i p (Inr u) \<in> set tr))"

lemma held_step: "inv_held tr m \<Longrightarrow> mon_step m e = Some m' \<Longrightarrow> inv_held (tr @ [e]) m'"
  by (cases e) (auto simp: inv_held_def lease_held_at_snoc lease_held_at_enter free_to_act_def
      split: if_splits sum.splits probe.splits)

lemma armed_step: "inv_armed tr m \<Longrightarrow> mon_step m e = Some m' \<Longrightarrow> inv_armed (tr @ [e]) m'"
  by (cases e) (auto simp: inv_armed_def split: if_splits sum.splits probe.splits)

lemma gone_step: "inv_gone tr m \<Longrightarrow> mon_step m e = Some m' \<Longrightarrow> inv_gone (tr @ [e]) m'"
  by (cases e) (auto simp: inv_gone_def gone_in_def failed_def split: if_splits sum.splits probe.splits)

lemma listed_step: "inv_listed tr m \<Longrightarrow> mon_step m e = Some m' \<Longrightarrow> inv_listed (tr @ [e]) m'"
  by (cases e) (auto simp: inv_listed_def split: if_splits sum.splits probe.splits)

lemma posts_step: "inv_posts tr m \<Longrightarrow> mon_step m e = Some m' \<Longrightarrow> inv_posts (tr @ [e]) m'"
  by (cases e) (auto simp: inv_posts_def free_to_act_def split: if_splits sum.splits probe.splits)

lemma cleared_step: "inv_cleared tr m \<Longrightarrow> mon_step m e = Some m' \<Longrightarrow> inv_cleared (tr @ [e]) m'"
  by (cases e) (auto simp: inv_cleared_def free_to_act_def failed_def split: if_splits sum.splits probe.splits)

lemma phase_step:
  "mon_step m e = Some m' \<Longrightarrow> m_phase m' \<noteq> Not_reserved \<Longrightarrow> m_phase m = Not_reserved \<Longrightarrow>
     (\<exists>k r. e = Ev_reserve k r) \<and> m_listed m \<subseteq> m_gone m"
  by (cases e) (auto split: if_splits sum.splits probe.splits)

lemma reserved_step:
  assumes "inv_reserved tr m" "inv_listed tr m" "inv_gone tr m" and "mon_step m e = Some m'"
  shows "inv_reserved (tr @ [e]) m'"
  unfolding inv_reserved_def
proof
  assume ph: "m_phase m' \<noteq> Not_reserved"
  show "\<exists>xs k r ys. tr @ [e] = xs @ Ev_reserve k r # ys \<and>
      (\<forall>k rs. Ev_outstanding k (Inr rs) \<in> set xs \<longrightarrow> (\<forall>q \<in> set rs. gone_in xs q))"
  proof (cases "m_phase m = Not_reserved")
    case True
    with phase_step [OF assms(4) ph] obtain k r where "e = Ev_reserve k r" "m_listed m \<subseteq> m_gone m"
      by auto
    moreover have "\<forall>k rs. Ev_outstanding k (Inr rs) \<in> set tr \<longrightarrow> (\<forall>q \<in> set rs. q \<in> m_listed m)"
      using assms(2) True by (auto simp: inv_listed_def)
    ultimately have "\<forall>k rs. Ev_outstanding k (Inr rs) \<in> set tr \<longrightarrow> (\<forall>q \<in> set rs. gone_in tr q)"
      using assms(3) unfolding inv_gone_def by blast
    with \<open>e = Ev_reserve k r\<close> show ?thesis by blast
  next
    case False
    with assms(1) obtain xs k r ys where "tr = xs @ Ev_reserve k r # ys"
      "\<forall>k rs. Ev_outstanding k (Inr rs) \<in> set xs \<longrightarrow> (\<forall>q \<in> set rs. gone_in xs q)"
      unfolding inv_reserved_def by blast
    then show ?thesis by (metis append.assoc append_Cons)
  qed
qed

definition mon_inv :: "event list \<Rightarrow> mon \<Rightarrow> bool" where
  "mon_inv tr m \<longleftrightarrow> inv_held tr m \<and> inv_armed tr m \<and> inv_gone tr m \<and> inv_listed tr m
     \<and> inv_reserved tr m \<and> inv_posts tr m \<and> inv_cleared tr m"

lemma mon_inv_mon0: "mon_inv [] mon0"
  by (simp add: mon_inv_def mon0_def inv_held_def inv_armed_def inv_gone_def inv_listed_def
      inv_reserved_def inv_posts_def inv_cleared_def)

lemma mon_inv_step: "mon_inv tr m \<Longrightarrow> mon_step m e = Some m' \<Longrightarrow> mon_inv (tr @ [e]) m'"
  unfolding mon_inv_def
  by (blast intro: held_step armed_step gone_step listed_step reserved_step posts_step cleared_step)

lemma accepted_split:
  assumes "accepted (xs @ e # ys)"
  obtains m m' where "mon_run mon0 xs = Some m" "mon_inv xs m" "mon_step m e = Some m'"
    "mon_run m' ys \<noteq> None"
proof -
  have inv: "mon_run mon0 zs = Some m \<Longrightarrow> mon_inv zs m" for zs m
  proof (induction zs arbitrary: m rule: rev_induct)
    case Nil
    then show ?case using mon_inv_mon0 by simp
  next
    case (snoc z zs)
    then show ?case
      by (auto simp: mon_run_append split: option.splits intro: mon_inv_step)
  qed
  from assms show ?thesis
    by (auto simp: accepted_def mon_run_append split: option.splits intro!: that inv)
qed

lemma bad_stays:
  assumes "m_bad m" and "mon_run m ys \<noteq> None" and "f \<in> set ys"
  shows "\<not> mutating f"
  using assms
proof (induction ys arbitrary: m)
  case Nil
  then show ?case by simp
next
  case (Cons e ys)
  then obtain m' where m': "mon_step m e = Some m'" "mon_run m' ys \<noteq> None"
    by (auto split: option.splits)
  with Cons.prems(1) have "m_bad m'" "\<not> mutating e"
    by (cases e; auto simp: free_to_act_def split: if_splits sum.splits probe.splits)+
  with Cons.IH m' Cons.prems(3) show ?case by auto
qed

lemma blocking_bad: "mon_step m e = Some m' \<Longrightarrow> blocking e \<Longrightarrow> m_bad m'"
  by (cases e) (auto simp: failed_def split: if_splits sum.splits probe.splits)

abbreviation trace_of :: "(exn + 'a) \<times> 'w traced_world \<Rightarrow> event list" where
  "trace_of run \<equiv> fst (snd run)"

lemma trace_of_accepted: "accepted (trace_of (producer_run g l j now i w))"
  by (rule producer_run_accepted [of g l j now i w "fst (producer_run g l j now i w)" _
        "snd (snd (producer_run g l j now i w))"]) simp

text \<open>Sample collaborators over a world without state, for the witnesses: the requests listed, what
  every probe answers, and whether the lease is free.\<close>

definition sample_gate :: "request list \<Rightarrow> probe \<Rightarrow> unit gate" where
  "sample_gate rs p =
     \<lparr>g_outstanding = (\<lambda>k. ret rs), g_probe = (\<lambda>r. ret p), g_delete = (\<lambda>r. ret ()),
      g_drop = (\<lambda>r. ret ()),
      g_post = (\<lambda>i. ret \<lparr>po_message_id = lit ''m2'', po_channel_id = in_channel_id i\<rparr>),
      g_commit = (\<lambda>i p c. ret ())\<rparr>"

definition sample_lease :: "bool \<Rightarrow> unit lease" where
  "sample_lease free = \<lparr>l_enter = (\<lambda>k. ret free), l_exit = (\<lambda>owned k w. w)\<rparr>"

definition sample_journal :: "unit journal" where
  "sample_journal = \<lparr>j_outstanding = (\<lambda>k. ret None), j_reserve = (\<lambda>k a c. ret ()), j_clear = (\<lambda>k. ret ())\<rparr>"

definition sample_request :: "string \<Rightarrow> request" where
  "sample_request ah = \<lparr>rq_key = lit ''k'', rq_action_hash = lit ah, rq_message_id = lit ''m1'',
     rq_channel_id = lit ''c'', rq_created_at = lit ''t''\<rparr>"

definition sample_intent :: intent where
  "sample_intent = \<lparr>in_key = lit ''k'', in_action_hash = lit ''h2'', in_channel_id = lit ''c''\<rparr>"

definition sample_run :: "request list \<Rightarrow> probe \<Rightarrow> (exn + verdict) \<times> unit traced_world" where
  "sample_run rs p = producer_run (sample_gate rs p) (sample_lease True) sample_journal (\<lambda>_. lit ''t'')
     sample_intent ()"

lemmas run_defs = sample_run_def producer_run_def request_owner_approval_def with_lease_def
  owned_request_def snapshot_of_def decide_snapshot_def settle_def same_requests_def
  other_requests_def post_new_def safe_probe_def finallyM_def catchM_def traced_def
  sample_gate_def sample_lease_def sample_journal_def sample_request_def sample_intent_def

lemma sample_run_decided:
  "trace_of (sample_run [sample_request ''h1''] Probe_APPROVED) =
     [Ev_enter (lit ''k'') (Inr True), Ev_reservation (lit ''k'') (Inr None),
      Ev_outstanding (lit ''k'') (Inr [sample_request ''h1'']),
      Ev_probe (sample_request ''h1'') (Inr Probe_APPROVED), Ev_exit (lit ''k'')]"
  by (simp add: run_defs eff_simps)

lemma sample_run_superseded:
  "trace_of (sample_run [sample_request ''h1''] Probe_BOUND_PENDING) =
     [Ev_enter (lit ''k'') (Inr True), Ev_reservation (lit ''k'') (Inr None),
      Ev_outstanding (lit ''k'') (Inr [sample_request ''h1'']),
      Ev_probe (sample_request ''h1'') (Inr Probe_BOUND_PENDING),
      Ev_probe (sample_request ''h1'') (Inr Probe_BOUND_PENDING),
      Ev_delete (sample_request ''h1'') (Inr ()), Ev_drop (sample_request ''h1'') (Inr ()),
      Ev_reserve (lit ''k'') (Inr ()),
      Ev_post sample_intent (Inr \<lparr>po_message_id = lit ''m2'', po_channel_id = lit ''c''\<rparr>),
      Ev_commit sample_intent \<lparr>po_message_id = lit ''m2'', po_channel_id = lit ''c''\<rparr> (Inr ()),
      Ev_clear (lit ''k'') (Inr ()), Ev_exit (lit ''k'')]"
  by (simp add: run_defs eff_simps)

section \<open>Properties\<close>

text \<open>C1. Fail closed (L3, L4): once a run has met a request the owner has decided, a request it
  cannot verify or whose binding differs, a stale posting journal, an unreadable store or a failed
  effect, it deletes, drops, posts, commits, reserves and clears nothing more, for every gate, lease,
  journal and clock.\<close>

theorem blocked_run_changes_nothing_more:
  assumes "trace_of (producer_run g l j now i w) = xs @ e # ys" and "blocking e" and "f \<in> set ys"
  shows "\<not> mutating f"
proof -
  from assms(1) have "accepted (xs @ e # ys)" by (metis trace_of_accepted)
  then obtain m m' where "mon_step m e = Some m'" "mon_run m' ys \<noteq> None" by (rule accepted_split)
  with blocking_bad assms(2,3) bad_stays show ?thesis by blast
qed

theorem blocked_run_changes_nothing_more_witness:
  "\<not> mutating (Ev_exit (lit ''k''))
     \<and> trace_of (sample_run [sample_request ''h1''] Probe_APPROVED) \<noteq> []"
  using blocked_run_changes_nothing_more [OF sample_run_decided [unfolded sample_run_def, THEN trans],
    of "[Ev_enter (lit ''k'') (Inr True), Ev_reservation (lit ''k'') (Inr None),
      Ev_outstanding (lit ''k'') (Inr [sample_request ''h1''])]"
     "Ev_probe (sample_request ''h1'') (Inr Probe_APPROVED)" "[Ev_exit (lit ''k'')]" "Ev_exit (lit ''k'')"]
    sample_run_decided by simp

text \<open>C13. A stored request is superseded, never lost (L2): a run deletes a message only when the call
  just before was a probe that found it live and undecided, and drops a record only after the message
  was found missing or was deleted in this run.\<close>

theorem delete_before_drop:
  assumes "trace_of (producer_run g l j now i w) = xs @ e # ys"
  shows "(\<forall>q r. e = Ev_delete q r \<longrightarrow> xs \<noteq> [] \<and> last xs = Ev_probe q (Inr Probe_BOUND_PENDING))
    \<and> (\<forall>q r. e = Ev_drop q r \<longrightarrow> gone_in xs q)"
proof -
  from assms have "accepted (xs @ e # ys)" by (metis trace_of_accepted)
  then obtain m m' where "mon_inv xs m" "mon_step m e = Some m'" by (rule accepted_split)
  then show ?thesis
    by (auto simp: mon_inv_def inv_armed_def inv_gone_def split: if_splits)
qed

theorem delete_before_drop_witness:
  "last [Ev_probe (sample_request ''h1'') (Inr Probe_BOUND_PENDING)]
     = Ev_probe (sample_request ''h1'') (Inr Probe_BOUND_PENDING)
   \<and> (\<exists>xs ys. trace_of (sample_run [sample_request ''h1''] Probe_BOUND_PENDING)
        = xs @ Ev_delete (sample_request ''h1'') (Inr ()) # ys
        \<and> last xs = Ev_probe (sample_request ''h1'') (Inr Probe_BOUND_PENDING))"
proof -
  obtain xs ys where split: "trace_of (sample_run [sample_request ''h1''] Probe_BOUND_PENDING)
      = xs @ Ev_delete (sample_request ''h1'') (Inr ()) # ys"
    unfolding sample_run_superseded by (metis append_Cons append_Nil)
  then show ?thesis
    using delete_before_drop [OF split [unfolded sample_run_def]] by auto
qed

text \<open>All mutation is under the lease (L1): every call that changes a message, a record or the
  journal is made after this run acquired the lease and before it released it.\<close>

lemma mutation_under_lease:
  assumes "trace_of (producer_run g l j now i w) = xs @ e # ys" and "mutating e"
  shows "lease_held_at xs"
proof -
  from assms(1) have "accepted (xs @ e # ys)" by (metis trace_of_accepted)
  then obtain m m' where "mon_inv xs m" "mon_step m e = Some m'" by (rule accepted_split)
  with assms(2) show ?thesis
    by (cases e) (auto simp: mon_inv_def inv_held_def free_to_act_def split: if_splits)
qed

lemma mutation_under_lease_witness:
  "lease_held_at [Ev_enter (lit ''k'') (Inr True), Ev_reservation (lit ''k'') (Inr None),
     Ev_outstanding (lit ''k'') (Inr [])]"
  by (rule mutation_under_lease [where e = "Ev_reserve (lit ''k'') (Inr ())"
        and g = "sample_gate [] Probe_MISSING" and l = "sample_lease True" and j = sample_journal
        and now = "\<lambda>_. lit ''t''" and i = sample_intent and w = "()"])
     (auto simp: run_defs eff_simps)



section \<open>Verdicts and watchers\<close>

definition explained :: "intent \<Rightarrow> verdict \<Rightarrow> bool" where
  "explained i v \<longleftrightarrow> (case v_outcome v of
      Outcome_DEFERRED \<Rightarrow> v_reason v \<noteq> None
    | Outcome_REFUSED \<Rightarrow> v_reason v \<noteq> None
    | Outcome_POSTED \<Rightarrow> v_posted v \<noteq> None \<and> v_reason v = None \<and> v_blocked v = []
    | Outcome_PENDING \<Rightarrow> (\<exists>q. v_live v = Some q \<and> rq_action_hash q = in_action_hash i)
        \<and> v_blocked v = [])"

lemma explained_stop [simp]:
  "explained i (verdict0 Outcome_DEFERRED (Some rsn))"
  "explained i (verdict0 Outcome_REFUSED (Some rsn))"
  "explained i ((verdict0 Outcome_DEFERRED (Some rsn))\<lparr>v_blocked := bl\<rparr>)"
  "explained i ((verdict0 Outcome_REFUSED (Some rsn))\<lparr>v_blocked := bl\<rparr>)"
  "explained i ((verdict0 Outcome_DEFERRED (Some rsn))\<lparr>v_cleared := cl, v_blocked := bl\<rparr>)"
  "explained i ((verdict0 Outcome_REFUSED (Some rsn))\<lparr>v_cleared := cl, v_blocked := bl\<rparr>)"
  "explained i ((verdict0 Outcome_POSTED None)\<lparr>v_posted := Some po, v_cleared := cl\<rparr>)"
  by (simp_all add: explained_def verdict0_def)

lemma pending_explained:
  "rq_action_hash c = in_action_hash i \<Longrightarrow>
     explained i ((verdict0 Outcome_PENDING rsn)\<lparr>v_live := Some c, v_cleared := cl\<rparr>)"
  by (simp add: explained_def verdict0_def)

definition halt_explained :: "intent \<Rightarrow> verdict option \<times> cleared list \<Rightarrow> bool" where
  "halt_explained i hc \<longleftrightarrow> (\<forall>v. fst hc = Some v \<longrightarrow> explained i v)"

lemma halt_explained_simps [simp]:
  "halt_explained i (None, cl)" "halt_explained i (Some v, cl) \<longleftrightarrow> explained i v"
  by (simp_all add: halt_explained_def)

lemma destroy_explained: "returns (destroy g rsn rs cl) (halt_explained i)"
proof (induction rs arbitrary: cl)
  case Nil
  then show ?case by auto
next
  case (Cons q rs)
  show ?case
    unfolding destroy.simps
    by (intro returns_bindM) (auto intro!: returns_bindM Cons.IH split: probe.splits)
qed

lemma settle_explained: "returns (settle g j now i sn) (explained i)"
proof -
  have post: "returns (post_new g j now i cl) (explained i)" for cl
    unfolding returns_def post_new_def Let_def
    by (auto simp: bindM_eq_Inr ret_app)
  have canonical: "rq_action_hash c = in_action_hash i" if "same_requests i sn = c # ds" for c ds
  proof -
    have "c \<in> set (same_requests i sn)" using that by simp
    then show ?thesis by (simp add: same_requests_def)
  qed
  show ?thesis
    unfolding settle_def Let_def
    by (intro returns_bindM)
      (auto intro!: returns_bindM_with [OF destroy_explained] post pending_explained
        dest: canonical split: list.splits option.splits)
qed

lemma request_explained: "returns (request_owner_approval g l j now i) (explained i)"
  unfolding request_owner_approval_def with_lease_def owned_request_def decide_snapshot_def Let_def
  by (intro returns_bindM returns_finallyM)
    (auto intro!: returns_bindM settle_explained split: option.splits)

text \<open>A verdict explains itself (L5): every DEFERRED or REFUSED verdict carries a reason, a POSTED
  one the posted message, and a PENDING one the live request, which is bound to this very action.\<close>

lemma verdict_explained:
  assumes "request_owner_approval g l j now i w = (Inr v, w')"
  shows "explained i v"
  using request_explained assms by (rule returnsD)

lemma verdict_explained_witness:
  "explained sample_intent
     ((verdict0 Outcome_DEFERRED (Some Reason_OWNER_DECIDED))\<lparr>v_blocked := [sample_request ''h1'']\<rparr>)"
  by (rule verdict_explained [of "sample_gate [sample_request ''h1''] Probe_APPROVED" "sample_lease True"
        sample_journal "\<lambda>_. lit ''t''" sample_intent "()" _ "()"])
     (simp add: run_defs eff_simps)

definition decided :: "probe \<Rightarrow> bool" where
  "decided p \<longleftrightarrow> p = Probe_APPROVED \<or> p = Probe_CANCELLED"

text \<open>The five shapes of a watcher's run.\<close>

inductive watch_shape :: "request \<Rightarrow> event list \<Rightarrow> bool" for q where
  no_lease: "watch_shape q [Ev_enter (rq_key q) (Inl e)]"
| skipped: "watch_shape q [Ev_enter (rq_key q) (Inr False), Ev_exit (rq_key q)]"
| waiting: "\<forall>p. r = Inr p \<longrightarrow> \<not> decided p \<Longrightarrow>
    watch_shape q [Ev_enter (rq_key q) (Inr True), Ev_probe q r, Ev_exit (rq_key q)]"
| unapplied: "decided p \<Longrightarrow> watch_shape q
    [Ev_enter (rq_key q) (Inr True), Ev_probe q (Inr p), Ev_apply q p (Inl e), Ev_exit (rq_key q)]"
| applied: "decided p \<Longrightarrow> watch_shape q
    [Ev_enter (rq_key q) (Inr True), Ev_probe q (Inr p), Ev_apply q p (Inr u), Ev_drop q r,
     Ev_exit (rq_key q)]"

lemma watcher_run_shape: "watch_shape q (trace_of (watcher_run d l q w))"
  by (auto simp: watcher_run_def resolve_owner_decision_def with_lease_def owned_resolve_def
      traced_lease_def traced_watcher_def finallyM_def traced_def eff_simps decided_def
      intro: watch_shape.intros split: prod.splits sum.splits)

lemma lease_held_after_enter:
  "\<forall>e \<in> set ys. (\<forall>k. e \<noteq> Ev_exit k) \<and> (\<forall>k r. e \<noteq> Ev_enter k r) \<Longrightarrow>
     lease_held_at (Ev_enter k (Inr True) # ys)"
  unfolding lease_held_at_def by (intro exI [of _ "[]"] exI [of _ k] exI [of _ ys]) simp

text \<open>A watcher applies only what the owner decided: in every run an effect happens under the
  lease and after a probe that returned the very decision applied; the decision is applied first and
  once, and the record is dropped only after it was applied without an error.\<close>

lemma watcher_applies_decided:
  assumes "trace_of (watcher_run d l q w) = xs @ e # ys" and "mutating e"
  shows "lease_held_at xs
    \<and> (\<exists>p. decided p \<and> Ev_probe q (Inr p) \<in> set xs
          \<and> ((\<exists>r. e = Ev_apply q p r) \<and> (\<forall>f \<in> set xs. \<not> mutating f)
              \<or> (\<exists>r u. e = Ev_drop q r \<and> Ev_apply q p (Inr u) \<in> set xs)))"
proof -
  from watcher_run_shape [of q d l w] assms(1) have "watch_shape q (xs @ e # ys)" by simp
  then show ?thesis
  proof (cases rule: watch_shape.cases)
    case (unapplied p er)
    then have "xs = [Ev_enter (rq_key q) (Inr True), Ev_probe q (Inr p)] \<and> e = Ev_apply q p (Inl er)"
      using assms(2) by (auto simp: append_eq_Cons_conv)
    with unapplied show ?thesis by (auto intro!: lease_held_after_enter)
  next
    case (applied p u r)
    then have "xs = [Ev_enter (rq_key q) (Inr True), Ev_probe q (Inr p)] \<and> e = Ev_apply q p (Inr u)
        \<or> xs = [Ev_enter (rq_key q) (Inr True), Ev_probe q (Inr p), Ev_apply q p (Inr u)] \<and> e = Ev_drop q r"
      using assms(2) by (auto simp: append_eq_Cons_conv)
    with applied show ?thesis by (auto intro!: lease_held_after_enter)
  qed (use assms(2) in \<open>auto simp: append_eq_Cons_conv\<close>)
qed

lemma watcher_applies_decided_witness:
  "lease_held_at [Ev_enter (lit ''k'') (Inr True), Ev_probe (sample_request ''h1'') (Inr Probe_CANCELLED)]"
  using watcher_applies_decided
    [of "\<lparr>dw_probe = (\<lambda>r. ret Probe_CANCELLED), dw_apply = (\<lambda>r p. ret ()), dw_drop = (\<lambda>r. ret ())\<rparr>"
      "sample_lease True" "sample_request ''h1''" "()"
      "[Ev_enter (lit ''k'') (Inr True), Ev_probe (sample_request ''h1'') (Inr Probe_CANCELLED)]"
      "Ev_apply (sample_request ''h1'') Probe_CANCELLED (Inr ())"
      "[Ev_drop (sample_request ''h1'') (Inr ()), Ev_exit (lit ''k'')]"]
  by (auto simp: watcher_run_def resolve_owner_decision_def with_lease_def owned_resolve_def
      traced_lease_def traced_watcher_def finallyM_def traced_def eff_simps sample_lease_def
      sample_request_def)

end
