(* ===== verification/CanonicalJson.thy ===== *)
theory CanonicalJson
  imports Json
begin

text \<open>
  \<open>json.dumps(value, ensure_ascii=False, separators=(",", ":"), sort_keys=True)\<close>, the canonical
  rendering that every approval hash of the repository is computed over, and the proof that it is
  injective: two values with one rendering are one value up to the order of the keys of objects.
  The rendering of a float (\<open>float.__repr__\<close>) is an argument.
\<close>

section \<open>Rendering\<close>

fun dec_nat :: "nat \<Rightarrow> ustr" where
  "dec_nat n = (if n < 10 then [48 + n] else dec_nat (n div 10) @ [48 + n mod 10])"

declare dec_nat.simps [simp del]

definition dec_int :: "int \<Rightarrow> ustr" where
  "dec_int i = (if i < 0 then 45 # dec_nat (nat (- i)) else dec_nat (nat i))"

definition low_hex :: "nat \<Rightarrow> nat" where
  "low_hex d = (if d < 10 then 48 + d else 87 + d)"

text \<open>The escapes of the C encoder: the seven short ones, and \<open>\u00xx\<close> below U+0020.\<close>

definition json_escape :: "nat \<Rightarrow> ustr" where
  "json_escape c =
     (if c = 34 then [92, 34] else if c = 92 then [92, 92] else if c = 10 then [92, 110]
      else if c = 13 then [92, 114] else if c = 9 then [92, 116] else if c = 12 then [92, 102]
      else if c = 8 then [92, 98]
      else if c < 32 then [92, 117, 48, 48, low_hex (c div 16), low_hex (c mod 16)]
      else [c])"

definition json_quote :: "ustr \<Rightarrow> ustr" where
  "json_quote s = 34 # concat (map json_escape s) @ [34]"

fun dumps :: "(rat \<Rightarrow> ustr) \<Rightarrow> json \<Rightarrow> ustr"
  and dumps_tail :: "(rat \<Rightarrow> ustr) \<Rightarrow> json list \<Rightarrow> ustr"
  and dumps_items :: "(rat \<Rightarrow> ustr) \<Rightarrow> (ustr \<times> json) list \<Rightarrow> ustr" where
  "dumps fr JNull = lit ''null''"
| "dumps fr (JBool b) = (if b then lit ''true'' else lit ''false'')"
| "dumps fr (JInt i) = dec_int i"
| "dumps fr (JFloat q) = fr q"
| "dumps fr (JStr s) = json_quote s"
| "dumps fr (JArr []) = [91, 93]"
| "dumps fr (JArr (v # vs)) = 91 # dumps fr v @ dumps_tail fr vs"
| "dumps fr (JObj []) = [123, 125]"
| "dumps fr (JObj ((k, v) # kvs)) = 123 # json_quote k @ 58 # dumps fr v @ dumps_items fr kvs"
| "dumps_tail fr [] = [93]"
| "dumps_tail fr (v # vs) = 44 # dumps fr v @ dumps_tail fr vs"
| "dumps_items fr [] = [125]"
| "dumps_items fr ((k, v) # kvs) = 44 # json_quote k @ 58 # dumps fr v @ dumps_items fr kvs"

text \<open>\<open>sort_keys=True\<close>, at every level.\<close>

fun sort_keys :: "json \<Rightarrow> json"
  and sort_keys_list :: "json list \<Rightarrow> json list"
  and sort_keys_items :: "(ustr \<times> json) list \<Rightarrow> (ustr \<times> json) list" where
  "sort_keys (JArr vs) = JArr (sort_keys_list vs)"
| "sort_keys (JObj kvs) = JObj (sort_key fst (sort_keys_items kvs))"
| "sort_keys JNull = JNull"
| "sort_keys (JBool b) = JBool b"
| "sort_keys (JInt i) = JInt i"
| "sort_keys (JFloat q) = JFloat q"
| "sort_keys (JStr s) = JStr s"
| "sort_keys_list [] = []"
| "sort_keys_list (v # vs) = sort_keys v # sort_keys_list vs"
| "sort_keys_items [] = []"
| "sort_keys_items ((k, v) # kvs) = (k, sort_keys v) # sort_keys_items kvs"

definition canonical :: "(rat \<Rightarrow> ustr) \<Rightarrow> json \<Rightarrow> ustr" where
  "canonical fr v = dumps fr (sort_keys v)"

fun float_free :: "json \<Rightarrow> bool" where
  "float_free (JFloat _) = False"
| "float_free (JArr vs) = list_all float_free vs"
| "float_free (JObj kvs) = list_all (\<lambda>kv. float_free (snd kv)) kvs"
| "float_free _ = True"

section \<open>Injectivity\<close>

definition digit :: "nat \<Rightarrow> bool" where
  "digit c \<longleftrightarrow> 48 \<le> c \<and> c \<le> 57"

definition ends_number :: "ustr \<Rightarrow> bool" where
  "ends_number r \<longleftrightarrow> r = [] \<or> \<not> digit (hd r)"

lemma dec_nat_digits: "\<forall>c \<in> set (dec_nat n). digit c"
proof (induction n rule: dec_nat.induct)
  case (1 n)
  have "n mod 10 < 10" by simp
  then have "n mod 10 \<le> 9" by linarith
  with 1 show ?case by (simp add: dec_nat.simps [of n] digit_def)
qed

lemma dec_nat_not_Nil: "dec_nat n \<noteq> []"
  by (simp add: dec_nat.simps [of n])

fun undec :: "nat \<Rightarrow> ustr \<Rightarrow> nat" where
  "undec a [] = a"
| "undec a (c # cs) = undec (10 * a + (c - 48)) cs"

lemma undec_append: "undec a (s @ t) = undec (undec a s) t"
  by (induction a s rule: undec.induct) auto

lemma undec_dec_nat: "undec 0 (dec_nat n) = n"
proof (induction n rule: dec_nat.induct)
  case (1 n)
  then show ?case by (cases "n < 10") (simp_all add: dec_nat.simps [of n] undec_append)
qed

lemma takeWhile_number:
  "\<forall>c \<in> set s. digit c \<Longrightarrow> ends_number r \<Longrightarrow> takeWhile digit (s @ r) = s \<and> dropWhile digit (s @ r) = r"
  by (cases r) (auto simp: ends_number_def)

lemma dec_nat_prefix:
  assumes "dec_nat m @ r = dec_nat n @ r'" and "ends_number r" and "ends_number r'"
  shows "m = n \<and> r = r'"
  using takeWhile_number [OF dec_nat_digits assms(2), of m] takeWhile_number [OF dec_nat_digits assms(3), of n]
    assms(1) undec_dec_nat by metis

lemma dec_nat_Cons: "\<exists>c s. dec_nat n = c # s \<and> digit c"
  using dec_nat_digits [of n] dec_nat_not_Nil [of n] by (cases "dec_nat n") auto

lemma dec_int_Cons: "\<exists>c s. dec_int i = c # s \<and> (digit c \<or> c = 45)"
  using dec_nat_Cons [of "nat i"] by (auto simp: dec_int_def)

lemma dec_int_prefix:
  assumes "dec_int i @ r = dec_int j @ r'" and "ends_number r" and "ends_number r'"
  shows "i = j \<and> r = r'"
proof (cases "i < 0"; cases "j < 0")
  assume *: "i < 0" "j < 0"
  with assms(1) have "dec_nat (nat (- i)) @ r = dec_nat (nat (- j)) @ r'" by (simp add: dec_int_def)
  from dec_nat_prefix [OF this assms(2,3)] * show ?thesis by auto
next
  assume *: "\<not> i < 0" "\<not> j < 0"
  with assms(1) have "dec_nat (nat i) @ r = dec_nat (nat j) @ r'" by (simp add: dec_int_def)
  from dec_nat_prefix [OF this assms(2,3)] * show ?thesis by auto
qed (use assms(1) dec_nat_Cons [of "nat i"] dec_nat_Cons [of "nat j"] in \<open>auto simp: dec_int_def digit_def\<close>)

text \<open>A decoder of one escaped character.\<close>

definition hex_of :: "nat \<Rightarrow> nat" where
  "hex_of h = (if h < 58 then h - 48 else h - 87)"

definition unescape :: "ustr \<Rightarrow> nat \<times> ustr" where
  "unescape s = (case s of
      c # s1 \<Rightarrow> if c \<noteq> 92 then (c, s1) else (case s1 of
        e # s2 \<Rightarrow> if e = 117 then (case s2 of _ # _ # h # l # s3 \<Rightarrow> (16 * hex_of h + hex_of l, s3) | _ \<Rightarrow> (0, []))
        else ((if e = 110 then 10 else if e = 114 then 13 else if e = 116 then 9 else if e = 102 then 12
          else if e = 98 then 8 else e), s2)
      | [] \<Rightarrow> (0, []))
    | [] \<Rightarrow> (0, []))"

lemma low_hex_of: "d < 16 \<Longrightarrow> hex_of (low_hex d) = d"
  by (simp add: hex_of_def low_hex_def)

lemma unescape_escape: "unescape (json_escape c @ s) = (c, s)"
  by (auto simp: json_escape_def low_hex_of unescape_def)

lemma escape_Cons: "\<exists>d t. json_escape c = d # t \<and> d \<noteq> 34"
  by (auto simp: json_escape_def)

lemma quote_body_prefix:
  "concat (map json_escape s) @ 34 # r = concat (map json_escape t) @ 34 # r' \<Longrightarrow> s = t \<and> r = r'"
proof (induction s arbitrary: t)
  case Nil
  then show ?case using escape_Cons by (cases t) (auto, metis append_Cons list.inject)
next
  case (Cons c s)
  show ?case
  proof (cases t)
    case Nil
    with Cons.prems escape_Cons [of c] show ?thesis by auto
  next
    case (Cons d t')
    with Cons.prems have "json_escape c @ (concat (map json_escape s) @ 34 # r)
        = json_escape d @ (concat (map json_escape t') @ 34 # r')" by simp
    from arg_cong [OF this, of unescape] Cons.IH [of t'] Cons show ?thesis
      by (simp add: unescape_escape)
  qed
qed

lemma json_quote_prefix: "json_quote s @ r = json_quote t @ r' \<longleftrightarrow> s = t \<and> r = r'"
  using quote_body_prefix [of s r t r'] by (auto simp: json_quote_def)

lemma tail_ends: "ends_number (dumps_tail fr vs @ r)" "ends_number (dumps_items fr kvs @ r)"
  by (cases vs; cases kvs; auto simp: ends_number_def digit_def)+

lemma ends_punct [simp]: "ends_number (44 # r)" "ends_number (93 # r)" "ends_number (125 # r)" "ends_number []"
  by (simp_all add: ends_number_def digit_def)

text \<open>The first character of a rendering says which constructor it came from.\<close>

lemma lit_chars [simp]:
  "lit ''null'' = [110, 117, 108, 108]" "lit ''true'' = [116, 114, 117, 101]"
  "lit ''false'' = [102, 97, 108, 115, 101]"
  by (simp_all add: lit_def)

definition head_of :: "json \<Rightarrow> nat \<Rightarrow> bool" where
  "head_of v c \<longleftrightarrow> (case v of JNull \<Rightarrow> c = 110 | JBool b \<Rightarrow> c = (if b then 116 else 102)
    | JInt _ \<Rightarrow> digit c \<or> c = 45 | JFloat _ \<Rightarrow> True | JStr _ \<Rightarrow> c = 34 | JArr _ \<Rightarrow> c = 91 | JObj _ \<Rightarrow> c = 123)"

lemma dumps_head: "float_free v \<Longrightarrow> \<exists>c s. dumps fr v = c # s \<and> head_of v c"
proof (cases v)
  case (JInt i)
  then show ?thesis using dec_int_Cons [of i] by (auto simp: head_of_def)
next
  case (JArr vs)
  then show ?thesis by (cases vs) (auto simp: head_of_def)
next
  case (JObj kvs)
  then show ?thesis by (cases kvs) (auto simp: head_of_def)
qed (auto simp: head_of_def json_quote_def)

lemma dumps_not_bracket: "float_free v \<Longrightarrow> dumps fr v @ x \<noteq> 93 # y"
  using dumps_head [of v fr] by (cases v) (auto simp: head_of_def digit_def)

definition same_shape :: "json \<Rightarrow> json \<Rightarrow> bool" where
  "same_shape v u \<longleftrightarrow> (case v of JNull \<Rightarrow> u = JNull | JBool b \<Rightarrow> u = JBool b
    | JInt _ \<Rightarrow> (\<exists>j. u = JInt j) | JFloat _ \<Rightarrow> True | JStr _ \<Rightarrow> (\<exists>t. u = JStr t)
    | JArr _ \<Rightarrow> (\<exists>us. u = JArr us) | JObj _ \<Rightarrow> (\<exists>us. u = JObj us))"

lemma dumps_shape:
  assumes "dumps fr v @ r = dumps fr u @ r'" and "float_free v" and "float_free u"
  shows "same_shape v u"
proof -
  obtain c s d t where "dumps fr v = c # s" "head_of v c" "dumps fr u = d # t" "head_of u d"
    using dumps_head assms(2,3) by metis
  with assms show ?thesis
    by (cases v; cases u) (auto simp: head_of_def same_shape_def digit_def split: if_splits)
qed

lemma dumps_prefix:
  "float_free v \<Longrightarrow> float_free u \<Longrightarrow> dumps fr v @ r = dumps fr u @ r' \<Longrightarrow> ends_number r \<Longrightarrow>
     ends_number r' \<Longrightarrow> v = u \<and> r = r'"
  and "list_all float_free vs \<Longrightarrow> list_all float_free us \<Longrightarrow>
     dumps_tail fr vs @ r = dumps_tail fr us @ r' \<Longrightarrow> vs = us \<and> r = r'"
  and "list_all (\<lambda>kv. float_free (snd kv)) kvs \<Longrightarrow> list_all (\<lambda>kv. float_free (snd kv)) kus \<Longrightarrow>
     dumps_items fr kvs @ r = dumps_items fr kus @ r' \<Longrightarrow> kvs = kus \<and> r = r'"
proof (induction fr v and fr vs and fr kvs arbitrary: u r r' and us r r' and kus r r'
    rule: dumps_dumps_tail_dumps_items.induct)
  case (1 fr)
  then show ?case using dumps_shape [OF 1(3,1,2)] by (simp add: same_shape_def)
next
  case (2 fr b)
  then show ?case using dumps_shape [OF 2(3,1,2)] by (simp add: same_shape_def)
next
  case (4 fr q)
  then show ?case by simp
next
  case (3 fr i)
  then show ?case using dumps_shape [OF 3(3,1,2)] dec_int_prefix by (auto simp: same_shape_def)
next
  case (5 fr s)
  then show ?case using dumps_shape [OF 5(3,1,2)] by (auto simp: same_shape_def json_quote_prefix)
next
  case (6 fr)
  obtain us where us: "u = JArr us" using dumps_shape [OF 6(3,1,2)] by (auto simp: same_shape_def)
  show ?case
  proof (cases us)
    case (Cons w ws)
    with us 6(2,3) dumps_not_bracket [of w fr "dumps_tail fr ws @ r'" r] show ?thesis by simp
  qed (use us 6 in auto)
next
  case (7 fr v vs)
  obtain us where us: "u = JArr us" using dumps_shape [OF 7(5,3,4)] by (auto simp: same_shape_def)
  show ?case
  proof (cases us)
    case Nil
    with us 7(3,5) dumps_not_bracket [of v fr "dumps_tail fr vs @ r" r'] show ?thesis by simp
  next
    case (Cons w ws)
    with us 7 have ff: "float_free v" "float_free w" "list_all float_free vs" "list_all float_free ws" by auto
    from us Cons 7(5) have "dumps fr v @ (dumps_tail fr vs @ r) = dumps fr w @ (dumps_tail fr ws @ r')" by simp
    from 7(1) [OF ff(1,2) this tail_ends(1) tail_ends(1)]
    have "v = w" "dumps_tail fr vs @ r = dumps_tail fr ws @ r'" by blast+
    with 7(2) [OF ff(3,4)] us Cons show ?thesis by simp
  qed
next
  case (8 fr)
  obtain us where us: "u = JObj us" using dumps_shape [OF 8(3,1,2)] by (auto simp: same_shape_def)
  then show ?case using 8 by (cases us) (auto simp: json_quote_def)
next
  case (9 fr k v kvs)
  obtain us where us: "u = JObj us" using dumps_shape [OF 9(5,3,4)] by (auto simp: same_shape_def)
  show ?case
  proof (cases us)
    case Nil
    with us 9(5) show ?thesis by (simp add: json_quote_def)
  next
    case (Cons kw ws)
    obtain l w where kw: "kw = (l, w)" by (cases kw)
    with us Cons kw 9(3,4) have ff: "float_free v" "float_free w" "list_all (\<lambda>kv. float_free (snd kv)) kvs"
      "list_all (\<lambda>kv. float_free (snd kv)) ws" by auto
    from us Cons kw 9(5) have "k = l \<and> dumps fr v @ (dumps_items fr kvs @ r) = dumps fr w @ (dumps_items fr ws @ r')"
      by (simp add: json_quote_prefix)
    then have "k = l" and eq: "dumps fr v @ (dumps_items fr kvs @ r) = dumps fr w @ (dumps_items fr ws @ r')"
      by blast+
    from 9(1) [OF ff(1,2) eq tail_ends(2) tail_ends(2)]
    have "v = w" "dumps_items fr kvs @ r = dumps_items fr ws @ r'" by blast+
    with 9(2) [OF ff(3,4)] \<open>k = l\<close> us Cons kw show ?thesis by simp
  qed
next
  case (10 fr)
  then show ?case by (cases us) auto
next
  case (11 fr v vs)
  show ?case
  proof (cases us)
    case Nil
    with 11(5) show ?thesis by simp
  next
    case (Cons w ws)
    with 11 have ff: "float_free v" "float_free w" "list_all float_free vs" "list_all float_free ws" by auto
    from Cons 11(5) have "dumps fr v @ (dumps_tail fr vs @ r) = dumps fr w @ (dumps_tail fr ws @ r')" by simp
    from 11(1) [OF ff(1,2) this tail_ends(1) tail_ends(1)]
    have "v = w" "dumps_tail fr vs @ r = dumps_tail fr ws @ r'" by blast+
    with 11(2) [OF ff(3,4)] Cons show ?thesis by simp
  qed
next
  case (12 fr)
  then show ?case by (cases kus) auto
next
  case (13 fr k v kvs)
  show ?case
  proof (cases kus)
    case Nil
    with 13(5) show ?thesis by simp
  next
    case (Cons kw ws)
    obtain l w where kw: "kw = (l, w)" by (cases kw)
    with Cons kw 13(3,4) have ff: "float_free v" "float_free w" "list_all (\<lambda>kv. float_free (snd kv)) kvs"
      "list_all (\<lambda>kv. float_free (snd kv)) ws" by auto
    from Cons kw 13(5) have "k = l \<and> dumps fr v @ (dumps_items fr kvs @ r) = dumps fr w @ (dumps_items fr ws @ r')"
      by (simp add: json_quote_prefix)
    then have "k = l" and eq: "dumps fr v @ (dumps_items fr kvs @ r) = dumps fr w @ (dumps_items fr ws @ r')"
      by blast+
    from 13(1) [OF ff(1,2) eq tail_ends(2) tail_ends(2)]
    have "v = w" "dumps_items fr kvs @ r = dumps_items fr ws @ r'" by blast+
    with 13(2) [OF ff(3,4)] \<open>k = l\<close> Cons kw show ?thesis by simp
  qed
qed

section \<open>Canonical values\<close>

lemma sort_keys_list_map: "sort_keys_list vs = map sort_keys vs"
  by (induction vs) auto

lemma sort_keys_items_map: "sort_keys_items kvs = map (\<lambda>(k, v). (k, sort_keys v)) kvs"
  by (induction kvs) auto

lemma list_all_sort_key: "list_all P (sort_key f xs) = list_all P xs"
  by (simp add: list_all_iff)

lemma float_free_sort_keys:
  "float_free (sort_keys v) = float_free v"
  "list_all float_free (sort_keys_list vs) = list_all float_free vs"
  "list_all (\<lambda>kv. float_free (snd kv)) (sort_keys_items kvs) = list_all (\<lambda>kv. float_free (snd kv)) kvs"
  by (induction v and vs and kvs rule: sort_keys_sort_keys_list_sort_keys_items.induct)
    (auto simp: list_all_sort_key)

lemma canonical_inject:
  "float_free v \<Longrightarrow> float_free u \<Longrightarrow> canonical fr v = canonical fr u \<longleftrightarrow> sort_keys v = sort_keys u"
  using dumps_prefix(1) [of "sort_keys v" "sort_keys u" fr "[]" "[]"]
  by (auto simp: canonical_def float_free_sort_keys)

lemma sorted_items_get:
  assumes "wf_dict kvs"
  shows "dict_get (sort_key fst (sort_keys_items kvs)) k = map_option sort_keys (dict_get kvs k)"
proof -
  have "map fst (sort_keys_items kvs) = map fst kvs"
    by (simp add: sort_keys_items_map comp_def case_prod_beta)
  with assms have D: "distinct (map fst (sort_keys_items kvs))" by (simp add: wf_dict_def)
  then have "distinct (map fst (sort_key fst (sort_keys_items kvs)))" by (simp add: distinct_map)
  with D have "map_of (sort_key fst (sort_keys_items kvs)) = map_of (sort_keys_items kvs)"
    by (simp add: map_of_inject_set)
  moreover have "map_of (map (\<lambda>(k, v). (k, sort_keys v)) kvs) k = map_option sort_keys (map_of kvs k)"
    by (induction kvs) auto
  ultimately show ?thesis by (simp add: dict_get_def sort_keys_items_map)
qed

text \<open>Objects with the same canonical form have the same members, up to the canonical form of each.\<close>

lemma sort_keys_obj_members:
  assumes "sort_keys (JObj a) = sort_keys (JObj b)" and "wf_dict a" and "wf_dict b"
  shows "map_option sort_keys (dict_get a k) = map_option sort_keys (dict_get b k)"
  using assms sorted_items_get [of a k] sorted_items_get [of b k] by simp

end
