(* ===== verification/DrivePending.thy ===== *)
theory DrivePending
  imports CanonicalJson
begin

text \<open>
  \<open>automation/drive_archive/manifest.py\<close> and \<open>pending.py\<close>: the manifest of a batch, the upload
  cursor, the pending record and the directory that stores the records. The directory is a dictionary
  from file names to what reading the file gives. Python's \<open>repr\<close> of floats and containers and its
  parse of an integer string are the record \<open>py\<close>.
\<close>

section \<open>Conversions\<close>

record py =
  py_repr :: "json \<Rightarrow> ustr"
  py_parse_int :: "ustr \<Rightarrow> int option"

fun py_str :: "py \<Rightarrow> json \<Rightarrow> ustr" where
  "py_str py (JStr s) = s"
| "py_str py (JInt i) = dec_int i"
| "py_str py JNull = lit ''None''"
| "py_str py (JBool b) = (if b then lit ''True'' else lit ''False'')"
| "py_str py v = py_repr py v"

fun falsy :: "json \<Rightarrow> bool" where
  "falsy JNull \<longleftrightarrow> True"
| "falsy (JBool b) \<longleftrightarrow> \<not> b"
| "falsy (JInt i) \<longleftrightarrow> i = 0"
| "falsy (JFloat q) \<longleftrightarrow> q = 0"
| "falsy (JStr s) \<longleftrightarrow> s = []"
| "falsy (JArr vs) \<longleftrightarrow> vs = []"
| "falsy (JObj kvs) \<longleftrightarrow> kvs = []"

fun py_int :: "py \<Rightarrow> json \<Rightarrow> exn + int" where
  "py_int py (JInt i) = Inr i"
| "py_int py (JBool b) = Inr (if b then 1 else 0)"
| "py_int py (JFloat q) = Inr (if q < 0 then - \<lfloor>- q\<rfloor> else \<lfloor>q\<rfloor>)"
| "py_int py (JStr s) = (case py_parse_int py s of Some i \<Rightarrow> Inr i | None \<Rightarrow> Inl ValueError)"
| "py_int py v = Inl TypeError"

section \<open>Manifest and cursor\<close>

record file_entry =
  fe_path :: ustr
  fe_sha256 :: ustr

record batch_manifest =
  bm_project :: ustr
  bm_files :: "file_entry list"

definition entry_json :: "file_entry \<Rightarrow> json" where
  "entry_json e = JObj [(lit ''path'', JStr (fe_path e)), (lit ''sha256'', JStr (fe_sha256 e))]"

definition to_arguments :: "batch_manifest \<Rightarrow> (ustr, json) dict" where
  "to_arguments b =
     [(lit ''project'', JStr (bm_project b)),
      (lit ''files'', JArr (map entry_json (sort_key fe_path (bm_files b))))]"

text \<open>\<open>sha256_file\<close> of the tree on disk is the argument \<open>disk\<close>; a missing file raises.\<close>

definition build_manifest :: "(ustr \<Rightarrow> exn + ustr) \<Rightarrow> ustr \<Rightarrow> ustr list \<Rightarrow> exn + batch_manifest" where
  "build_manifest disk project rel_paths =
     bindE (mapE (\<lambda>rel. bindE (disk rel) (\<lambda>h. Inr \<lparr>fe_path = rel, fe_sha256 = h\<rparr>)) (sort rel_paths))
       (\<lambda>entries. Inr \<lparr>bm_project = project, bm_files = entries\<rparr>)"

type_synonym cursor = "(ustr, ustr) dict"

definition diff :: "batch_manifest \<Rightarrow> cursor \<Rightarrow> batch_manifest" where
  "diff b cursor = \<lparr>bm_project = bm_project b,
     bm_files = filter (\<lambda>e. dict_get cursor (fe_path e) \<noteq> Some (fe_sha256 e)) (bm_files b)\<rparr>"

definition load_cursor :: "py \<Rightarrow> file_read \<Rightarrow> exn + cursor" where
  "load_cursor py f = (case f of
      FileJson (JObj kvs) \<Rightarrow> Inr (map (\<lambda>(k, v). (k, py_str py v)) kvs)
    | FileNotUtf8 \<Rightarrow> Inl UnicodeDecodeError
    | _ \<Rightarrow> Inr [])"

definition cursor_file :: "cursor \<Rightarrow> file_read" where
  "cursor_file c = FileJson (sort_keys (JObj (map (\<lambda>(k, v). (k, JStr v)) c)))"

definition advance_cursor :: "py \<Rightarrow> file_read \<Rightarrow> file_entry list \<Rightarrow> exn + file_read" where
  "advance_cursor py f entries =
     bindE (load_cursor py f) (\<lambda>cursor.
       Inr (cursor_file (foldl (\<lambda>c e. dict_set c (fe_path e) (fe_sha256 e)) cursor entries)))"

section \<open>The pending record\<close>

record pending_batch =
  pb_action_hash :: ustr
  pb_target_id :: ustr
  pb_message_id :: ustr
  pb_project :: ustr
  pb_created_at :: ustr
  pb_files :: "file_entry list"
  pb_kind :: ustr
  pb_surface :: ustr
  pb_channel_id :: ustr
  pb_policy_version :: int

definition is_bound :: "pending_batch \<Rightarrow> bool" where
  "is_bound p \<longleftrightarrow> pb_surface p \<noteq> [] \<and> pb_channel_id p \<noteq> []"

definition pending_to_json :: "pending_batch \<Rightarrow> json" where
  "pending_to_json p = JObj
     [(lit ''action_hash'', JStr (pb_action_hash p)),
      (lit ''target_id'', JStr (pb_target_id p)),
      (lit ''message_id'', JStr (pb_message_id p)),
      (lit ''project'', JStr (pb_project p)),
      (lit ''created_at'', JStr (pb_created_at p)),
      (lit ''files'', JArr (map entry_json (pb_files p))),
      (lit ''kind'', JStr (pb_kind p)),
      (lit ''surface'', JStr (pb_surface p)),
      (lit ''channel_id'', JStr (pb_channel_id p)),
      (lit ''policy_version'', JInt (pb_policy_version p))]"

text \<open>\<open>data[k]\<close> of a JSON object, and \<open>str(data[k])\<close>.\<close>

definition need :: "(ustr \<times> json) list \<Rightarrow> string \<Rightarrow> exn + json" where
  "need kvs k = (case jget kvs k of Some v \<Rightarrow> Inr v | None \<Rightarrow> Inl KeyError)"

definition need_str :: "py \<Rightarrow> (ustr \<times> json) list \<Rightarrow> string \<Rightarrow> exn + ustr" where
  "need_str py kvs k = bindE (need kvs k) (\<lambda>v. Inr (py_str py v))"

definition get_str :: "py \<Rightarrow> (ustr \<times> json) list \<Rightarrow> string \<Rightarrow> ustr" where
  "get_str py kvs k = (case jget kvs k of Some v \<Rightarrow> py_str py v | None \<Rightarrow> [])"

fun entries_of :: "py \<Rightarrow> json list \<Rightarrow> exn + file_entry list" where
  "entries_of py [] = Inr []"
| "entries_of py (JObj item # vs) =
     bindE (need_str py item ''path'') (\<lambda>p. bindE (need_str py item ''sha256'') (\<lambda>h.
     bindE (entries_of py vs) (\<lambda>es. Inr (\<lparr>fe_path = p, fe_sha256 = h\<rparr> # es))))"
| "entries_of py (v # vs) = entries_of py vs"

definition pending_from_json :: "py \<Rightarrow> json \<Rightarrow> exn + pending_batch" where
  "pending_from_json py data = (case data of
      JObj kvs \<Rightarrow>
        bindE (need kvs ''files'') (\<lambda>raw_files. case raw_files of
          JArr items \<Rightarrow>
            bindE (entries_of py items) (\<lambda>files.
            bindE (need_str py kvs ''action_hash'') (\<lambda>ah.
            bindE (need_str py kvs ''target_id'') (\<lambda>ti.
            bindE (need_str py kvs ''message_id'') (\<lambda>mi.
            bindE (need_str py kvs ''project'') (\<lambda>pr.
            bindE (need_str py kvs ''created_at'') (\<lambda>ca.
            bindE (case jget kvs ''policy_version'' of
                     None \<Rightarrow> Inr 0
                   | Some v \<Rightarrow> if falsy v then Inr 0 else py_int py v) (\<lambda>pv.
              Inr \<lparr>pb_action_hash = ah, pb_target_id = ti, pb_message_id = mi, pb_project = pr,
                pb_created_at = ca, pb_files = files, pb_kind = get_str py kvs ''kind'',
                pb_surface = get_str py kvs ''surface'', pb_channel_id = get_str py kvs ''channel_id'',
                pb_policy_version = pv\<rparr>)))))))
        | _ \<Rightarrow> Inl PendingRecordError)
    | _ \<Rightarrow> Inl TypeError)"

section \<open>The store\<close>

type_synonym pending_dir = "(ustr, file_read) dict"

definition pending_slug :: "ustr \<Rightarrow> ustr" where
  "pending_slug h = map (\<lambda>c. if c = 58 \<or> c = 47 then 95 else c) h"

definition record_name :: "ustr \<Rightarrow> ustr" where
  "record_name h = pending_slug h @ lit ''.json''"

definition store_put :: "pending_batch \<Rightarrow> pending_dir \<Rightarrow> pending_dir" where
  "store_put p d = dict_set d (record_name (pb_action_hash p)) (FileJson (sort_keys (pending_to_json p)))"

definition read_json :: "file_read \<Rightarrow> exn + json" where
  "read_json f = (case f of
      FileMissing \<Rightarrow> Inl OSError
    | FileOSError \<Rightarrow> Inl OSError
    | FileNotUtf8 \<Rightarrow> Inl UnicodeDecodeError
    | FileNotJson \<Rightarrow> Inl JSONDecodeError
    | FileJson v \<Rightarrow> Inr v)"

definition read_pending :: "py \<Rightarrow> file_read \<Rightarrow> exn + pending_batch" where
  "read_pending py f = bindE (read_json f) (pending_from_json py)"

text \<open>\<open>get\<close>: an unreadable file is None, and so is a record that lacks a key; a \<open>TypeError\<close> is not
  caught.\<close>

definition store_get :: "py \<Rightarrow> ustr \<Rightarrow> pending_dir \<Rightarrow> exn + pending_batch option" where
  "store_get py h d =
     (case read_json (case dict_get d (record_name h) of Some f \<Rightarrow> f | None \<Rightarrow> FileMissing) of
        Inl e \<Rightarrow> if e = OSError \<or> e = JSONDecodeError then Inr None else Inl e
      | Inr data \<Rightarrow> (case pending_from_json py data of
            Inl e \<Rightarrow> if e = KeyError \<or> e = PendingRecordError then Inr None else Inl e
          | Inr p \<Rightarrow> Inr (Some p)))"

text \<open>\<open>sorted(root.glob("*.json"))\<close>.\<close>

definition record_files :: "pending_dir \<Rightarrow> (ustr \<times> file_read) list" where
  "record_files d = sort_key fst (filter (\<lambda>(n, f). ends_with n (lit ''.json'')) d)"

fun all_loop :: "py \<Rightarrow> (ustr \<times> file_read) list \<Rightarrow> exn + pending_batch list" where
  "all_loop py [] = Inr []"
| "all_loop py ((n, f) # fs) =
     (case read_pending py f of
        Inl e \<Rightarrow> if e \<in> {OSError, JSONDecodeError, KeyError, PendingRecordError} then all_loop py fs else Inl e
      | Inr p \<Rightarrow> bindE (all_loop py fs) (\<lambda>ps. Inr (p # ps)))"

definition store_all :: "py \<Rightarrow> pending_dir \<Rightarrow> exn + pending_batch list" where
  "store_all py d = all_loop py (record_files d)"

fun strict_loop :: "py \<Rightarrow> (ustr \<times> file_read) list \<Rightarrow> exn + pending_batch list" where
  "strict_loop py [] = Inr []"
| "strict_loop py ((n, f) # fs) =
     (case read_pending py f of
        Inl e \<Rightarrow> Inl (if e \<in> {OSError, JSONDecodeError, KeyError, PendingRecordError, TypeError}
                     then ApprovalRecordsError else e)
      | Inr p \<Rightarrow> bindE (strict_loop py fs) (\<lambda>ps. Inr (p # ps)))"

definition all_strict :: "py \<Rightarrow> pending_dir \<Rightarrow> exn + pending_batch list" where
  "all_strict py d = strict_loop py (record_files d)"

definition triple :: "pending_batch \<Rightarrow> ustr \<times> ustr \<times> ustr" where
  "triple p = (pb_action_hash p, pb_message_id p, pb_project p)"

text \<open>\<open>drop\<close>: the first file whose record has the identity of the argument is removed.\<close>

fun drop_loop :: "py \<Rightarrow> ustr \<times> ustr \<times> ustr \<Rightarrow> (ustr \<times> file_read) list \<Rightarrow> exn + ustr option" where
  "drop_loop py expected [] = Inr None"
| "drop_loop py expected ((n, f) # fs) =
     (case read_pending py f of
        Inl e \<Rightarrow> if e \<in> {OSError, JSONDecodeError, KeyError, PendingRecordError, TypeError}
                 then drop_loop py expected fs else Inl e
      | Inr p \<Rightarrow> if triple p = expected then Inr (Some n) else drop_loop py expected fs)"

definition store_drop :: "py \<Rightarrow> pending_batch \<Rightarrow> pending_dir \<Rightarrow> exn + pending_dir" where
  "store_drop py p d =
     bindE (drop_loop py (triple p) (record_files d)) (\<lambda>n. case n of
       None \<Rightarrow> Inr d
     | Some n \<Rightarrow> Inr (dict_pop d n))"

definition store_remove :: "ustr \<Rightarrow> pending_dir \<Rightarrow> pending_dir" where
  "store_remove h d = dict_pop d (record_name h)"

section \<open>Round trips\<close>

lemma jget_sorted:
  "wf_dict kvs \<Longrightarrow> jget (sort_key fst (sort_keys_items kvs)) k = map_option sort_keys (jget kvs k)"
  by (simp add: jget_def sorted_items_get)

lemma entries_of_sorted:
  "entries_of py (sort_keys_list (map entry_json es)) = Inr es"
proof (induction es)
  case (Cons e es)
  have item: "sort_keys (entry_json e) = JObj (sort_key fst (sort_keys_items
      [(lit ''path'', JStr (fe_path e)), (lit ''sha256'', JStr (fe_sha256 e))]))"
    by (simp add: entry_json_def)
  have wf: "wf_dict [(lit ''path'', JStr (fe_path e)), (lit ''sha256'', JStr (fe_sha256 e))]"
    by (simp add: wf_dict_def)
  show ?case
    using Cons unfolding list.map sort_keys_list.simps item entries_of.simps
    by (simp add: need_str_def need_def jget_sorted [OF wf] del: sort_keys_items.simps)
qed simp

lemma pending_roundtrip: "pending_from_json py (sort_keys (pending_to_json p)) = Inr p"
proof -
  define kvs where "kvs = [(lit ''action_hash'', JStr (pb_action_hash p)),
      (lit ''target_id'', JStr (pb_target_id p)),
      (lit ''message_id'', JStr (pb_message_id p)),
      (lit ''project'', JStr (pb_project p)),
      (lit ''created_at'', JStr (pb_created_at p)),
      (lit ''files'', JArr (map entry_json (pb_files p))),
      (lit ''kind'', JStr (pb_kind p)),
      (lit ''surface'', JStr (pb_surface p)),
      (lit ''channel_id'', JStr (pb_channel_id p)),
      (lit ''policy_version'', JInt (pb_policy_version p))]"
  have wf: "wf_dict kvs" by (simp add: wf_dict_def kvs_def)
  have "sort_keys (pending_to_json p) = JObj (sort_key fst (sort_keys_items kvs))"
    by (simp add: pending_to_json_def kvs_def)
  moreover have "jget kvs ''files'' = Some (JArr (map entry_json (pb_files p)))"
    "jget kvs ''action_hash'' = Some (JStr (pb_action_hash p))"
    "jget kvs ''target_id'' = Some (JStr (pb_target_id p))"
    "jget kvs ''message_id'' = Some (JStr (pb_message_id p))"
    "jget kvs ''project'' = Some (JStr (pb_project p))"
    "jget kvs ''created_at'' = Some (JStr (pb_created_at p))"
    "jget kvs ''kind'' = Some (JStr (pb_kind p))"
    "jget kvs ''surface'' = Some (JStr (pb_surface p))"
    "jget kvs ''channel_id'' = Some (JStr (pb_channel_id p))"
    "jget kvs ''policy_version'' = Some (JInt (pb_policy_version p))"
    by (simp_all add: kvs_def)
  ultimately show ?thesis
    by (simp add: pending_from_json_def need_def need_str_def get_str_def jget_sorted [OF wf] entries_of_sorted)
qed

lemma read_pending_put [simp]: "read_pending py (FileJson (sort_keys (pending_to_json p))) = Inr p"
  by (simp add: read_pending_def read_json_def pending_roundtrip)

section \<open>The records of a directory\<close>

definition recs :: "py \<Rightarrow> (ustr \<times> file_read) list \<Rightarrow> pending_batch list" where
  "recs py fs = concat (map (\<lambda>(n, f). case read_pending py f of Inr p \<Rightarrow> [p] | Inl e \<Rightarrow> []) fs)"

definition records :: "py \<Rightarrow> pending_dir \<Rightarrow> pending_batch list" where
  "records py d = recs py (record_files d)"

text \<open>Every record lies in the file its action hash names: what \<open>put\<close> writes, and what the other
  operations keep.\<close>

definition stored :: "py \<Rightarrow> pending_dir \<Rightarrow> bool" where
  "stored py d \<longleftrightarrow> wf_dict d
     \<and> list_all (\<lambda>(n, f). case read_pending py f of Inr p \<Rightarrow> n = record_name (pb_action_hash p) | Inl e \<Rightarrow> True) d"

lemma storedD: "stored py d \<Longrightarrow> (n, f) \<in> set d \<Longrightarrow> read_pending py f = Inr p \<Longrightarrow> n = record_name (pb_action_hash p)"
  by (fastforce simp: stored_def list_all_iff)

lemma recs_Nil [simp]: "recs py [] = []"
  by (simp add: recs_def)

lemma recs_Cons [simp]:
  "recs py ((n, f) # fs) = (case read_pending py f of Inr p \<Rightarrow> p # recs py fs | Inl e \<Rightarrow> recs py fs)"
  by (simp add: recs_def split: sum.splits)

lemma set_recs: "set (recs py fs) = {p. \<exists>n f. (n, f) \<in> set fs \<and> read_pending py f = Inr p}"
proof (induction fs)
  case (Cons nf fs)
  then show ?case by (cases nf; cases "read_pending py (snd nf)") auto
qed simp

lemma strict_loop_recs: "strict_loop py fs = Inr ps \<Longrightarrow> ps = recs py fs"
  by (induction py fs arbitrary: ps rule: strict_loop.induct) (auto split: sum.splits)

lemma all_strict_records: "all_strict py d = Inr ps \<Longrightarrow> ps = records py d"
  by (simp add: all_strict_def records_def strict_loop_recs)

lemma all_loop_recs: "all_loop py fs = Inr ps \<Longrightarrow> ps = recs py fs"
  by (induction py fs arbitrary: ps rule: all_loop.induct) (auto split: sum.splits if_splits)

lemma set_record_files [simp]: "set (record_files d) = {(n, f) \<in> set d. ends_with n (lit ''.json'')}"
  by (auto simp: record_files_def)

lemma record_name_json [simp]: "ends_with (record_name h) (lit ''.json'')"
  by (simp add: record_name_def)

lemma set_records: "set (records py d) = {p. \<exists>n f. (n, f) \<in> set d \<and> ends_with n (lit ''.json'') \<and> read_pending py f = Inr p}"
  by (auto simp: records_def set_recs)

lemma distinct_recs:
  "distinct (map fst fs) \<Longrightarrow>
     (\<And>n f p. (n, f) \<in> set fs \<Longrightarrow> read_pending py f = Inr p \<Longrightarrow> n = record_name (pb_action_hash p)) \<Longrightarrow>
     distinct (map pb_action_hash (recs py fs))"
proof (induction fs)
  case (Cons nf fs)
  obtain n f where nf: "nf = (n, f)" by (cases nf)
  have IH: "distinct (map pb_action_hash (recs py fs))" using Cons by auto
  show ?case
  proof (cases "read_pending py f")
    case (Inr p)
    then have n: "n = record_name (pb_action_hash p)" using Cons.prems(2) [of n f p] nf by simp
    have "pb_action_hash q \<noteq> pb_action_hash p" if "q \<in> set (recs py fs)" for q
    proof
      assume "pb_action_hash q = pb_action_hash p"
      moreover from that obtain m g where "(m, g) \<in> set fs" "read_pending py g = Inr q" by (auto simp: set_recs)
      ultimately have "(n, g) \<in> set fs" using Cons.prems(2) [of m g q] n by simp
      with Cons.prems(1) nf show False by (auto simp: image_iff)
    qed
    then have "pb_action_hash p \<notin> set (map pb_action_hash (recs py fs))" by (metis imageE set_map)
    with IH Inr nf show ?thesis by simp
  qed (use IH nf in simp)
qed simp

lemma distinct_names: "wf_dict d \<Longrightarrow> distinct (map fst (record_files d))"
  by (auto simp: record_files_def wf_dict_def distinct_map inj_on_def)

lemma distinct_records: "stored py d \<Longrightarrow> distinct (map pb_action_hash (records py d))"
  unfolding records_def
  by (rule distinct_recs) (auto simp: stored_def intro: distinct_names dest: storedD [rotated])

lemma stored_Nil [simp]: "stored py []"
  by (simp add: stored_def)

lemma set_dict_set:
  "wf_dict d \<Longrightarrow> (n, f) \<in> set (dict_set d k v) \<longleftrightarrow> (if n = k then f = v else (n, f) \<in> set d)"
  by (metis dict_get_iff dict_get_set option.inject wf_dict_set)

lemma set_dict_pop: "(n, f) \<in> set (dict_pop d k) \<longleftrightarrow> n \<noteq> k \<and> (n, f) \<in> set d"
  by (auto simp: dict_pop_def AList.delete_eq)

lemma stored_iff: "stored py d \<longleftrightarrow> wf_dict d \<and>
    (\<forall>n f p. (n, f) \<in> set d \<longrightarrow> read_pending py f = Inr p \<longrightarrow> n = record_name (pb_action_hash p))"
  by (fastforce simp: stored_def list_all_iff split: sum.splits)

lemma stored_put: "stored py d \<Longrightarrow> stored py (store_put p d)"
  by (auto simp: stored_iff store_put_def set_dict_set)

lemma stored_pop: "stored py d \<Longrightarrow> stored py (dict_pop d n)"
  by (auto simp: stored_iff set_dict_pop)

lemma stored_remove: "stored py d \<Longrightarrow> stored py (store_remove h d)"
  by (simp add: store_remove_def stored_pop)

lemma drop_loop_Some:
  "drop_loop py t fs = Inr (Some n) \<Longrightarrow> \<exists>f p. (n, f) \<in> set fs \<and> read_pending py f = Inr p \<and> triple p = t"
  by (induction py t fs rule: drop_loop.induct) (auto split: sum.splits if_splits)

lemma drop_loop_None:
  "drop_loop py t fs = Inr None \<Longrightarrow> \<forall>p \<in> set (recs py fs). triple p \<noteq> t"
  by (induction py t fs rule: drop_loop.induct) (auto split: sum.splits if_splits)

lemma store_drop_cases:
  assumes "store_drop py p d = Inr d'" and "stored py d"
  shows "d' = d \<and> (\<forall>q \<in> set (records py d). triple q \<noteq> triple p)
    \<or> d' = store_remove (pb_action_hash p) d \<and> (\<exists>q \<in> set (records py d). triple q = triple p)"
proof -
  from assms(1) obtain n where n: "drop_loop py (triple p) (record_files d) = Inr n"
    and d': "d' = (case n of None \<Rightarrow> d | Some n \<Rightarrow> dict_pop d n)"
    by (auto simp: store_drop_def split: option.splits)
  show ?thesis
  proof (cases n)
    case None
    with n d' show ?thesis using drop_loop_None [of py "triple p" "record_files d"] by (auto simp: records_def)
  next
    case (Some m)
    with n obtain f q where "(m, f) \<in> set (record_files d)" and q: "read_pending py f = Inr q" "triple q = triple p"
      using drop_loop_Some by metis
    then have mf: "(m, f) \<in> set d" "ends_with m (lit ''.json'')" by auto
    from storedD [OF assms(2) mf(1) q(1)] q(2) have "m = record_name (pb_action_hash p)"
      by (simp add: triple_def)
    with Some d' have "d' = store_remove (pb_action_hash p) d" by (simp add: store_remove_def)
    moreover have "q \<in> set (records py d)" using mf q by (auto simp: set_records)
    ultimately show ?thesis using q by blast
  qed
qed

lemma stored_drop: "stored py d \<Longrightarrow> store_drop py p d = Inr d' \<Longrightarrow> stored py d'"
  using store_drop_cases [of py p d d'] by (auto simp: stored_remove)

text \<open>Removing a record takes exactly that record out of the list.\<close>

lemma recs_filter:
  "(\<And>n f p. (n, f) \<in> set fs \<Longrightarrow> read_pending py f = Inr p \<Longrightarrow> n = record_name (pb_action_hash p)) \<Longrightarrow>
     recs py (filter (\<lambda>(n, f). n \<noteq> m) fs) = filter (\<lambda>p. record_name (pb_action_hash p) \<noteq> m) (recs py fs)"
proof (induction fs)
  case (Cons nf fs)
  obtain n f where nf: "nf = (n, f)" by (cases nf)
  have IH: "recs py (filter (\<lambda>(n, f). n \<noteq> m) fs) = filter (\<lambda>p. record_name (pb_action_hash p) \<noteq> m) (recs py fs)"
    using Cons by auto
  show ?case using IH Cons.prems [of n f] nf by (auto split: sum.splits)
qed simp

lemma records_remove:
  assumes "stored py d"
  shows "records py (store_remove h d) = filter (\<lambda>p. record_name (pb_action_hash p) \<noteq> record_name h) (records py d)"
proof -
  have "record_files (dict_pop d m) = filter (\<lambda>(n, f). n \<noteq> m) (record_files d)" for m
    by (simp add: record_files_def dict_pop_def AList.delete_eq filter_sort case_prod_beta)
      (rule arg_cong [of _ _ "sort_key fst"], rule filter_cong, auto)
  moreover have "recs py (filter (\<lambda>(n, f). n \<noteq> m) (record_files d)) =
      filter (\<lambda>p. record_name (pb_action_hash p) \<noteq> m) (recs py (record_files d))" for m
  proof (rule recs_filter, goal_cases)
    case (1 n f p)
    then show ?case using storedD [OF assms, of n f p] by simp
  qed
  ultimately show ?thesis by (simp add: records_def store_remove_def)
qed

lemma same_name_same_record:
  assumes "stored py d" and "p \<in> set (records py d)" and "q \<in> set (records py d)"
    and "record_name (pb_action_hash p) = record_name (pb_action_hash q)"
  shows "p = q"
proof -
  from assms(2) obtain n f where f: "(n, f) \<in> set d" "read_pending py f = Inr p" by (auto simp: set_records)
  from assms(3) obtain m g where g: "(m, g) \<in> set d" "read_pending py g = Inr q" by (auto simp: set_records)
  have "n = m" using storedD [OF assms(1) f] storedD [OF assms(1) g] assms(4) by simp
  then have "f = g" using f(1) g(1) assms(1) by (metis dict_get_iff option.inject stored_def)
  with f g show ?thesis by simp
qed

lemma records_put:
  assumes "stored py d"
  shows "set (records py (store_put p d)) =
    insert p {q \<in> set (records py d). record_name (pb_action_hash q) \<noteq> record_name (pb_action_hash p)}"
    (is "_ = ?new")
proof (rule set_eqI)
  fix q
  have wf: "wf_dict d" using assms by (simp add: stored_def)
  show "q \<in> set (records py (store_put p d)) \<longleftrightarrow> q \<in> ?new"
  proof
    assume "q \<in> set (records py (store_put p d))"
    then obtain n f where nf: "(n, f) \<in> set (store_put p d)" "ends_with n (lit ''.json'')" "read_pending py f = Inr q"
      by (auto simp: set_records)
    show "q \<in> ?new"
    proof (cases "n = record_name (pb_action_hash p)")
      case True
      with nf wf show ?thesis by (simp add: store_put_def set_dict_set)
    next
      case False
      with nf wf have old: "(n, f) \<in> set d" by (simp add: store_put_def set_dict_set)
      then have "q \<in> set (records py d)" using nf by (auto simp: set_records)
      with storedD [OF assms old nf(3)] False show ?thesis by simp
    qed
  next
    assume "q \<in> ?new"
    then consider "q = p" | n f where "(n, f) \<in> set d" "ends_with n (lit ''.json'')" "read_pending py f = Inr q"
      "record_name (pb_action_hash q) \<noteq> record_name (pb_action_hash p)"
      by (auto simp: set_records)
    then show "q \<in> set (records py (store_put p d))"
    proof cases
      case 1
      have "(record_name (pb_action_hash p), FileJson (sort_keys (pending_to_json p))) \<in> set (store_put p d)"
        using wf by (simp add: store_put_def set_dict_set)
      with 1 show ?thesis unfolding set_records by (blast intro: record_name_json read_pending_put)
    next
      case 2
      with storedD [OF assms 2(1,3)] wf have "(n, f) \<in> set (store_put p d)"
        by (simp add: store_put_def set_dict_set)
      with 2 show ?thesis unfolding set_records by blast
    qed
  qed
qed

lemma drop_removes_records:
  assumes "stored py d" and "store_drop py p d = Inr d'"
  shows "records py d' = filter (\<lambda>q. triple q \<noteq> triple p) (records py d)"
  using store_drop_cases [OF assms(2,1)]
proof (elim disjE conjE)
  assume "d' = d" "\<forall>q \<in> set (records py d). triple q \<noteq> triple p"
  then show ?thesis by (simp add: filter_id_conv)
next
  assume d': "d' = store_remove (pb_action_hash p) d" and "\<exists>q \<in> set (records py d). triple q = triple p"
  then obtain q where q: "q \<in> set (records py d)" "triple q = triple p" by blast
  have "record_name (pb_action_hash r) \<noteq> record_name (pb_action_hash p) \<longleftrightarrow> triple r \<noteq> triple p"
    if "r \<in> set (records py d)" for r
    using same_name_same_record [OF assms(1) that q(1)] q(2) by (auto simp: triple_def)
  then show ?thesis unfolding d' records_remove [OF assms(1)] by (intro filter_cong) auto
qed

section \<open>Properties\<close>

text \<open>The pending store is a map from action hashes to records: a record that is put is read back
  as it was, whatever the directory held, a removed one is gone, and no other file is touched. The
  invariant that every record lies in the file its hash names is kept by put, drop and remove.\<close>

lemma pending_store_map:
  assumes "stored py d"
  shows "store_get py (pb_action_hash p) (store_put p d) = Inr (Some p)
    \<and> store_get py (pb_action_hash p) (store_remove (pb_action_hash p) d) = Inr None
    \<and> (record_name h \<noteq> record_name (pb_action_hash p) \<longrightarrow>
         store_get py h (store_put p d) = store_get py h d
         \<and> store_get py h (store_remove (pb_action_hash p) d) = store_get py h d)
    \<and> stored py (store_put p d) \<and> stored py (store_remove (pb_action_hash p) d)
    \<and> (\<forall>d'. store_drop py p d = Inr d' \<longrightarrow> stored py d')"
  using assms stored_put [OF assms] stored_remove [OF assms] stored_drop [OF assms]
  by (auto simp: store_get_def store_put_def store_remove_def read_json_def pending_roundtrip)

definition sample_py :: py where
  "sample_py = \<lparr>py_repr = (\<lambda>_. []), py_parse_int = (\<lambda>_. None)\<rparr>"

definition sample_batch :: "string \<Rightarrow> string \<Rightarrow> pending_batch" where
  "sample_batch h pr = \<lparr>pb_action_hash = lit h, pb_target_id = lit ''t'', pb_message_id = lit ''m'',
     pb_project = lit pr, pb_created_at = lit ''2026-01-01T00:00:00Z'', pb_files = [], pb_kind = [],
     pb_surface = [], pb_channel_id = [], pb_policy_version = 0\<rparr>"

lemma pending_store_map_witness:
  "store_get sample_py (lit ''a'') (store_put (sample_batch ''a'' ''p'') (store_put (sample_batch ''b'' ''q'') []))
     = Inr (Some (sample_batch ''a'' ''p''))"
proof -
  have "stored sample_py (store_put (sample_batch ''b'' ''q'') [])" by (simp add: stored_put)
  from pending_store_map [OF this, of "sample_batch ''a'' ''p''" "lit ''b''"] show ?thesis
    by (simp add: sample_batch_def)
qed

text \<open>Dropping a record removes the record with its hash, message and project and leaves the list
  of the others, in order, as it was; when no stored record has that identity nothing changes.\<close>

lemma drop_removes_only_its_record:
  assumes "stored py d" and "store_drop py p d = Inr d'"
  shows "records py d' = filter (\<lambda>q. triple q \<noteq> triple p) (records py d)"
  using assms by (rule drop_removes_records)

lemma drop_removes_only_its_record_witness:
  "\<exists>d'. store_drop sample_py (sample_batch ''a'' ''p'') (store_put (sample_batch ''a'' ''p'') []) = Inr d'
      \<and> records sample_py d' = []"
proof -
  have st: "stored sample_py (store_put (sample_batch ''a'' ''p'') [])" by (simp add: stored_put)
  have recs: "set (records sample_py (store_put (sample_batch ''a'' ''p'') [])) = {sample_batch ''a'' ''p''}"
    by (simp add: records_put) (simp add: set_records)
  have "\<exists>d'. store_drop sample_py (sample_batch ''a'' ''p'') (store_put (sample_batch ''a'' ''p'') []) = Inr d'"
    by (simp add: store_drop_def store_put_def record_files_def dict_set_def)
  then obtain d' where d': "store_drop sample_py (sample_batch ''a'' ''p'') (store_put (sample_batch ''a'' ''p'') []) = Inr d'"
    by blast
  from drop_removes_only_its_record [OF st d'] recs have "records sample_py d' = []"
    by (simp add: filter_empty_conv)
  with d' show ?thesis by blast
qed

text \<open>One file of the directory that is valid JSON but not an object makes \<open>all\<close> raise \<open>TypeError\<close>,
  whatever other records there are, as long as none of the other files raises something else; the
  strict reading of the same directory reports \<open>ApprovalRecordsError\<close> when the other files are fine.\<close>

lemma non_object_record_blocks_all:
  assumes "(n, FileJson (JArr vs)) \<in> set d" and "ends_with n (lit ''.json'')"
    and "\<forall>(m, f) \<in> set d. m \<noteq> n \<longrightarrow> is_Inr (read_pending py f)"
    and "wf_dict d"
  shows "store_all py d = Inl TypeError \<and> all_strict py d = Inl ApprovalRecordsError"
proof -
  have bad: "read_pending py (FileJson (JArr vs)) = Inl TypeError"
    by (simp add: read_pending_def read_json_def pending_from_json_def)
  have *: "all_loop py fs = Inl TypeError \<and> strict_loop py fs = Inl ApprovalRecordsError"
    if "(n, FileJson (JArr vs)) \<in> set fs" "distinct (map fst fs)" "set fs \<subseteq> set d" for fs
    using that
  proof (induction fs)
    case (Cons mf fs)
    obtain m f where mf: "mf = (m, f)" by (cases mf)
    show ?case
    proof (cases "m = n")
      case True
      with Cons.prems mf have "f = FileJson (JArr vs)" by (auto simp: image_iff)
      with True mf bad show ?thesis by simp
    next
      case False
      with Cons.prems mf assms(3) obtain p where "read_pending py f = Inr p"
        by (cases "read_pending py f") (auto simp: is_Inr_def)
      with False Cons mf show ?thesis by auto
    qed
  qed simp
  show ?thesis
    unfolding store_all_def all_strict_def using assms(1,2) distinct_names [OF assms(4)] by (intro *) auto
qed

lemma non_object_record_blocks_all_witness:
  "store_all sample_py (dict_set (store_put (sample_batch ''a'' ''p'') []) (lit ''z.json'') (FileJson (JArr []))) = Inl TypeError"
proof -
  let ?d = "dict_set (store_put (sample_batch ''a'' ''p'') []) (lit ''z.json'') (FileJson (JArr []))"
  have wf: "wf_dict ?d" by (simp add: store_put_def)
  have mem: "(lit ''z.json'', FileJson (JArr [])) \<in> set ?d"
    by (simp add: set_dict_set store_put_def)
  have js: "ends_with (lit ''z.json'') (lit ''.json'')" by (simp add: ends_with_def lit_def)
  have fine: "\<forall>(m, f) \<in> set ?d. m \<noteq> lit ''z.json'' \<longrightarrow> is_Inr (read_pending sample_py f)"
  proof clarify
    fix m f assume "(m, f) \<in> set ?d" "m \<noteq> lit ''z.json''"
    then have "(m, f) \<in> set (store_put (sample_batch ''a'' ''p'') [])" by (simp add: set_dict_set store_put_def)
    then have "f = FileJson (sort_keys (pending_to_json (sample_batch ''a'' ''p'')))"
      by (simp add: store_put_def dict_set_def)
    then show "is_Inr (read_pending sample_py f)" by (simp add: is_Inr_def)
  qed
  from non_object_record_blocks_all [OF mem js fine wf] show ?thesis ..
qed

end
