(* ===== verification/ApprovalSurface.thy ===== *)
theory ApprovalSurface
  imports Json
begin

text \<open>
  \<open>automation/interop/approval_surface.py\<close>: the versioned policy that says on which surface an
  approval of each kind lives, the bindings that requests store, and their validation against the
  channel directory. The directory is the caller's object, so its three operations are arguments. The module's own \<open>ApprovalSurfaceError\<close> is \<open>SurfacePolicyError\<close> here.
\<close>

section \<open>The ledger\<close>

datatype approval_kind =
    Kind_MAIL_REPLY
  | Kind_MAIL_COMPOSE
  | Kind_BUDGET_MAIL
  | Kind_DRIVE_ARCHIVE
  | Kind_PATENT_EXPORT
  | Kind_REPAIR
  | Kind_CALENDAR
  | Kind_COORDINATION
  | Kind_WIKI
  | Kind_SKILL_DEPLOY
  | Kind_SKILL_ATTEST
  | Kind_SKILL_PUBLISH
  | Kind_MANAGED_ACTIVATE
  | Kind_OBSIDIAN_WRITE

datatype surface = Surface_OWNER_DM | Surface_SKILL_APPROVALS

fun kind_value :: "approval_kind \<Rightarrow> ustr" where
  "kind_value Kind_MAIL_REPLY = lit ''mail-reply''"
| "kind_value Kind_MAIL_COMPOSE = lit ''mail-compose''"
| "kind_value Kind_BUDGET_MAIL = lit ''budget-mail''"
| "kind_value Kind_DRIVE_ARCHIVE = lit ''drive-archive''"
| "kind_value Kind_PATENT_EXPORT = lit ''patent-export''"
| "kind_value Kind_REPAIR = lit ''repair''"
| "kind_value Kind_CALENDAR = lit ''calendar''"
| "kind_value Kind_COORDINATION = lit ''coordination''"
| "kind_value Kind_WIKI = lit ''wiki''"
| "kind_value Kind_SKILL_DEPLOY = lit ''skill-deploy''"
| "kind_value Kind_SKILL_ATTEST = lit ''skill-attest''"
| "kind_value Kind_SKILL_PUBLISH = lit ''skill-publish''"
| "kind_value Kind_MANAGED_ACTIVATE = lit ''managed-activate''"
| "kind_value Kind_OBSIDIAN_WRITE = lit ''obsidian-write''"

fun surface_value :: "surface \<Rightarrow> ustr" where
  "surface_value Surface_OWNER_DM = lit ''owner-dm''"
| "surface_value Surface_SKILL_APPROVALS = lit ''skill-approvals''"

definition POLICY_VERSION :: int where
  "POLICY_VERSION = 6"

type_synonym transition_ledger = "approval_kind \<Rightarrow> (int \<times> surface) list option"

definition TRANSITIONS :: transition_ledger where
  "TRANSITIONS kind = Some (case kind of
      Kind_MAIL_REPLY \<Rightarrow> [(0, Surface_SKILL_APPROVALS), (2, Surface_OWNER_DM)]
    | Kind_MAIL_COMPOSE \<Rightarrow> [(0, Surface_OWNER_DM)]
    | Kind_BUDGET_MAIL \<Rightarrow> [(0, Surface_SKILL_APPROVALS), (3, Surface_OWNER_DM)]
    | Kind_DRIVE_ARCHIVE \<Rightarrow> [(0, Surface_SKILL_APPROVALS), (6, Surface_OWNER_DM)]
    | Kind_PATENT_EXPORT \<Rightarrow> [(0, Surface_SKILL_APPROVALS), (4, Surface_OWNER_DM)]
    | Kind_REPAIR \<Rightarrow> [(0, Surface_SKILL_APPROVALS), (5, Surface_OWNER_DM)]
    | Kind_CALENDAR \<Rightarrow> [(0, Surface_OWNER_DM)]
    | Kind_COORDINATION \<Rightarrow> [(0, Surface_OWNER_DM)]
    | Kind_WIKI \<Rightarrow> [(0, Surface_OWNER_DM)]
    | Kind_SKILL_DEPLOY \<Rightarrow> [(0, Surface_SKILL_APPROVALS)]
    | Kind_SKILL_ATTEST \<Rightarrow> [(0, Surface_SKILL_APPROVALS)]
    | Kind_SKILL_PUBLISH \<Rightarrow> [(0, Surface_SKILL_APPROVALS)]
    | Kind_MANAGED_ACTIVATE \<Rightarrow> [(0, Surface_SKILL_APPROVALS)]
    | Kind_OBSIDIAN_WRITE \<Rightarrow> [(0, Surface_OWNER_DM)])"

text \<open>The loop of \<open>surface_at_policy\<close>: the last row before the first one that is too new.\<close>

fun select_surface :: "int \<Rightarrow> surface option \<Rightarrow> (int \<times> surface) list \<Rightarrow> surface option" where
  "select_surface pv selected [] = selected"
| "select_surface pv selected ((from_version, s) # rows) =
     (if from_version > pv then selected else select_surface pv (Some s) rows)"

definition surface_at_policy :: "transition_ledger \<Rightarrow> approval_kind \<Rightarrow> int \<Rightarrow> exn + surface" where
  "surface_at_policy transitions kind pv =
     (case transitions kind of
        None \<Rightarrow> Inl SurfacePolicyError
      | Some rows \<Rightarrow> (case select_surface pv None rows of
            None \<Rightarrow> Inl SurfacePolicyError
          | Some s \<Rightarrow> Inr s))"

definition required_surface :: "approval_kind \<Rightarrow> exn + surface" where
  "required_surface kind = surface_at_policy TRANSITIONS kind POLICY_VERSION"

section \<open>Bindings\<close>

text \<open>The code points of \<open>str.isdigit\<close>, as ranges of the Unicode table.\<close>

definition digit_ranges :: "(nat \<times> nat) list" where
  "digit_ranges = [
    (48, 57), (178, 179), (185, 185), (1632, 1641), (1776, 1785), (1984, 1993), (2406, 2415),
    (2534, 2543), (2662, 2671), (2790, 2799), (2918, 2927), (3046, 3055), (3174, 3183),
    (3302, 3311), (3430, 3439), (3558, 3567), (3664, 3673), (3792, 3801), (3872, 3881),
    (4160, 4169), (4240, 4249), (4969, 4977), (6112, 6121), (6160, 6169), (6470, 6479),
    (6608, 6618), (6784, 6793), (6800, 6809), (6992, 7001), (7088, 7097), (7232, 7241),
    (7248, 7257), (8304, 8304), (8308, 8313), (8320, 8329), (9312, 9320), (9332, 9340),
    (9352, 9360), (9450, 9450), (9461, 9469), (9471, 9471), (10102, 10110), (10112, 10120),
    (10122, 10130), (42528, 42537), (43216, 43225), (43264, 43273), (43472, 43481),
    (43504, 43513), (43600, 43609), (44016, 44025), (65296, 65305), (66720, 66729),
    (68160, 68163), (68912, 68921), (69216, 69224), (69714, 69722), (69734, 69743),
    (69872, 69881), (69942, 69951), (70096, 70105), (70384, 70393), (70736, 70745),
    (70864, 70873), (71248, 71257), (71360, 71369), (71472, 71481), (71904, 71913),
    (72016, 72025), (72784, 72793), (73040, 73049), (73120, 73129), (92768, 92777),
    (92864, 92873), (93008, 93017), (120782, 120831), (123200, 123209), (123632, 123641),
    (125264, 125273), (127232, 127242), (130032, 130041)]"

definition isdigit :: "ustr \<Rightarrow> bool" where
  "isdigit s \<longleftrightarrow> s \<noteq> [] \<and> list_all (\<lambda>c. list_ex (\<lambda>(a, b). a \<le> c \<and> c \<le> b) digit_ranges) s"

record binding =
  bi_kind :: approval_kind
  bi_surface :: surface
  bi_channel_id :: ustr
  bi_policy_version :: int

text \<open>\<open>ApprovalBinding(...)\<close> with its \<open>__post_init__\<close>.\<close>

definition make_binding :: "approval_kind \<Rightarrow> surface \<Rightarrow> ustr \<Rightarrow> int \<Rightarrow> exn + binding" where
  "make_binding kind s channel_id pv =
     (if channel_id = [] \<or> channel_id \<in> {lit ''dm'', lit ''approvals''} \<or> \<not> isdigit channel_id
      then Inl SurfacePolicyError
      else Inr \<lparr>bi_kind = kind, bi_surface = s, bi_channel_id = channel_id, bi_policy_version = pv\<rparr>)"

record channel_facts =
  cf_channel_type :: int
  cf_name :: ustr
  cf_recipient_ids :: "ustr list"

record 'w directory =
  di_owner_dm :: "('w, exn, ustr) eff"
  di_skill_approvals :: "('w, exn, ustr) eff"
  di_describe :: "ustr \<Rightarrow> ('w, exn, channel_facts) eff"

text \<open>\<open>except Exception as error: raise ApprovalSurfaceError\<close>.\<close>

definition fail_closed :: "('w, exn, 'a) eff \<Rightarrow> ('w, exn, 'a) eff" where
  "fail_closed m = catchM m (\<lambda>e. Some (raise_exn SurfacePolicyError))"

definition resolved_channel_id ::
    "surface \<Rightarrow> 'w directory \<Rightarrow> ustr option \<Rightarrow> ('w, exn, ustr) eff" where
  "resolved_channel_id s directory skill_channel_id =
     fail_closed (case s of
        Surface_OWNER_DM \<Rightarrow> di_owner_dm directory
      | Surface_SKILL_APPROVALS \<Rightarrow> (case skill_channel_id of
            Some c \<Rightarrow> ret c
          | None \<Rightarrow> di_skill_approvals directory))"

definition facts_match :: "surface \<Rightarrow> channel_facts \<Rightarrow> ustr \<Rightarrow> bool" where
  "facts_match s facts owner_id = (case s of
      Surface_OWNER_DM \<Rightarrow> cf_channel_type facts = 1 \<and> owner_id \<in> set (cf_recipient_ids facts)
    | Surface_SKILL_APPROVALS \<Rightarrow> cf_channel_type facts = 0 \<and> cf_name facts = lit ''approvals'')"

definition validate_channel :: "binding \<Rightarrow> 'w directory \<Rightarrow> ustr \<Rightarrow> ('w, exn, binding) eff" where
  "validate_channel b directory owner_id =
     bindM (fail_closed (di_describe directory (bi_channel_id b))) (\<lambda>facts.
       if facts_match (bi_surface b) facts owner_id then ret b else raise_exn SurfacePolicyError)"

definition resolve_new_binding ::
    "approval_kind \<Rightarrow> 'w directory \<Rightarrow> ustr \<Rightarrow> ustr option \<Rightarrow> ('w, exn, binding) eff" where
  "resolve_new_binding kind directory owner_id skill_channel_id =
     bindM (liftE (required_surface kind)) (\<lambda>s.
     bindM (resolved_channel_id s directory skill_channel_id) (\<lambda>channel_id.
     bindM (liftE (make_binding kind s channel_id POLICY_VERSION)) (\<lambda>b.
       validate_channel b directory owner_id)))"

definition validate_stored_binding ::
    "transition_ledger \<Rightarrow> binding \<Rightarrow> 'w directory \<Rightarrow> ustr \<Rightarrow> ('w, exn, binding) eff" where
  "validate_stored_binding transitions b directory owner_id =
     bindM (liftE (surface_at_policy transitions (bi_kind b) (bi_policy_version b))) (\<lambda>stamped.
       if bi_surface b \<noteq> stamped then raise_exn SurfacePolicyError
       else validate_channel b directory owner_id)"

definition legacy_binding ::
    "approval_kind \<Rightarrow> ustr option \<Rightarrow> 'w directory \<Rightarrow> ustr \<Rightarrow> ('w, exn, binding) eff" where
  "legacy_binding kind raw directory owner_id =
     bindM
       (if raw = None \<or> raw = Some [] then
          bindM (liftE (surface_at_policy TRANSITIONS kind 0)) (\<lambda>s.
          bindM (resolved_channel_id s directory None) (\<lambda>c. ret (s, c)))
        else if raw = Some (lit ''dm'') then
          bindM (resolved_channel_id Surface_OWNER_DM directory None) (\<lambda>c. ret (Surface_OWNER_DM, c))
        else if raw = Some (lit ''approvals'') then
          bindM (resolved_channel_id Surface_SKILL_APPROVALS directory None)
            (\<lambda>c. ret (Surface_SKILL_APPROVALS, c))
        else bindM (liftE (surface_at_policy TRANSITIONS kind 0)) (\<lambda>s. ret (s, the raw)))
       (\<lambda>(s, channel_id).
          bindM (liftE (make_binding kind s channel_id 0)) (\<lambda>b. validate_channel b directory owner_id))"

text \<open>The Korean reaction line is its code points; the ASCII parts are literals.\<close>

definition reaction_instruction :: "approval_kind \<Rightarrow> surface \<Rightarrow> bool \<Rightarrow> ustr" where
  "reaction_instruction kind s name_surface =
     (let instruction = [51060, 32, 47700, 49884, 51648, 50640, 32, 9989, 32, 49892, 54665, 32, 47, 32, 9940, 32, 52712, 49548] in
      if \<not> name_surface then instruction
      else instruction @ lit '' ('' @ (case s of
          Surface_OWNER_DM \<Rightarrow> [49548, 50976, 51088, 32, 68, 77]
        | Surface_SKILL_APPROVALS \<Rightarrow> [44060, 51064, 32, 49436, 48260, 32, 35, 97, 112, 112, 114, 111, 118, 97, 108, 115]) @ lit '')'')"

section \<open>Lemmas\<close>

lemma fail_closed_Inr:
  "fail_closed m w = (Inr x, w') \<longleftrightarrow> m w = (Inr x, w')"
  by (auto simp: fail_closed_def catchM_def eff_simps split: prod.splits sum.splits)

lemma fail_closed_Inl: "fail_closed m w = (Inl e, w') \<Longrightarrow> e = SurfacePolicyError"
  by (auto simp: fail_closed_def catchM_def eff_simps split: prod.splits sum.splits)

lemma fail_closed_fst: "fst (m w) = Inr x \<Longrightarrow> fst (fail_closed m w) = Inr x"
  by (auto simp: fail_closed_def catchM_def split: prod.splits sum.splits)

lemma make_binding_Inr:
  "make_binding kind s c pv = Inr b \<Longrightarrow>
     b = \<lparr>bi_kind = kind, bi_surface = s, bi_channel_id = c, bi_policy_version = pv\<rparr> \<and> isdigit c"
  by (auto simp: make_binding_def split: if_splits)

lemma make_binding_Inl: "make_binding kind s c pv = Inl e \<Longrightarrow> e = SurfacePolicyError"
  by (auto simp: make_binding_def split: if_splits)

lemma surface_at_policy_Inl: "surface_at_policy t kind pv = Inl e \<Longrightarrow> e = SurfacePolicyError"
  by (auto simp: surface_at_policy_def split: option.splits)

lemma validate_channel_Inr:
  "validate_channel b d owner w = (Inr b', w') \<Longrightarrow>
     b' = b \<and> (\<exists>facts. di_describe d (bi_channel_id b) w = (Inr facts, w') \<and> facts_match (bi_surface b) facts owner)"
  by (auto simp: validate_channel_def fail_closed_Inr run_simps split: if_splits)

lemma validate_channel_Inl: "validate_channel b d owner w = (Inl e, w') \<Longrightarrow> e = SurfacePolicyError"
  by (auto simp: validate_channel_def run_simps split: if_splits dest: fail_closed_Inl)

lemma validate_channel_fst:
  assumes "fst (di_describe d (bi_channel_id b) w) = Inr facts" and "facts_match (bi_surface b) facts owner"
  shows "fst (validate_channel b d owner w) = Inr b"
  using fail_closed_fst [of "di_describe d (bi_channel_id b)", OF assms(1)] assms(2)
  by (auto simp: validate_channel_def bindM_def eff_simps split: prod.splits sum.splits)

lemma resolve_new_binding_Inr:
  assumes "resolve_new_binding kind d owner skill w = (Inr b, w')"
  shows "bi_kind b = kind \<and> required_surface kind = Inr (bi_surface b) \<and> bi_policy_version b = POLICY_VERSION
    \<and> isdigit (bi_channel_id b)
    \<and> (\<exists>facts w1. di_describe d (bi_channel_id b) w1 = (Inr facts, w') \<and> facts_match (bi_surface b) facts owner)"
  using assms
  by (fastforce simp: resolve_new_binding_def run_simps dest!: make_binding_Inr validate_channel_Inr)

lemma select_surface_append:
  "(\<forall>(v, s) \<in> set newer. pv < v) \<Longrightarrow> select_surface pv sel (rows @ newer) = select_surface pv sel rows"
proof (induction pv sel rows rule: select_surface.induct)
  case (1 pv selected)
  then show ?case by (cases newer) auto
qed auto

section \<open>Properties\<close>

text \<open>A new binding carries the kind, the surface the current policy asks for, the current
  policy version and a concrete numeric channel whose facts match the surface, and replaying it
  later succeeds with the same binding, as long as the directory describes the channel as it did.\<close>

lemma new_binding_replays:
  assumes "\<And>c w. fst (di_describe d c w) = Inr (facts c)"
    and "resolve_new_binding kind d owner skill w = (Inr b, w')"
  shows "required_surface kind = Inr (bi_surface b) \<and> isdigit (bi_channel_id b)
    \<and> facts_match (bi_surface b) (facts (bi_channel_id b)) owner
    \<and> fst (validate_stored_binding TRANSITIONS b d owner w'') = Inr b"
proof -
  from resolve_new_binding_Inr [OF assms(2)] obtain fs w1 where b: "bi_kind b = kind"
    "required_surface kind = Inr (bi_surface b)" "bi_policy_version b = POLICY_VERSION"
    "isdigit (bi_channel_id b)" and fs: "di_describe d (bi_channel_id b) w1 = (Inr fs, w')"
    "facts_match (bi_surface b) fs owner"
    by blast
  with assms(1) [of "bi_channel_id b" w1] have "fs = facts (bi_channel_id b)" by simp
  moreover from b(1-3) have "surface_at_policy TRANSITIONS (bi_kind b) (bi_policy_version b) = Inr (bi_surface b)"
    by (simp add: required_surface_def)
  ultimately show ?thesis
    using b fs validate_channel_fst [OF assms(1)]
    by (auto simp: validate_stored_binding_def liftE_def eff_simps)
qed

definition sample_directory :: "unit directory" where
  "sample_directory = \<lparr>di_owner_dm = ret (lit ''42''), di_skill_approvals = raise_exn OSError,
     di_describe = (\<lambda>_. ret \<lparr>cf_channel_type = 1, cf_name = [], cf_recipient_ids = [lit ''7'']\<rparr>)\<rparr>"

lemma new_binding_replays_witness:
  "fst (validate_stored_binding TRANSITIONS
     \<lparr>bi_kind = Kind_DRIVE_ARCHIVE, bi_surface = Surface_OWNER_DM, bi_channel_id = lit ''42'',
      bi_policy_version = 6\<rparr> sample_directory (lit ''7'') ()) =
     Inr \<lparr>bi_kind = Kind_DRIVE_ARCHIVE, bi_surface = Surface_OWNER_DM, bi_channel_id = lit ''42'',
      bi_policy_version = 6\<rparr>"
  using new_binding_replays
    [of sample_directory "\<lambda>_. \<lparr>cf_channel_type = 1, cf_name = [], cf_recipient_ids = [lit ''7'']\<rparr>"
      Kind_DRIVE_ARCHIVE "lit ''7''" None "()"
      "\<lparr>bi_kind = Kind_DRIVE_ARCHIVE, bi_surface = Surface_OWNER_DM, bi_channel_id = lit ''42'',
      bi_policy_version = 6\<rparr>" "()" "()"]
  by (simp add: sample_directory_def eff_simps resolve_new_binding_def required_surface_def
      surface_at_policy_def TRANSITIONS_def POLICY_VERSION_def liftE_def resolved_channel_id_def
      make_binding_def validate_channel_def fail_closed_def catchM_def facts_match_def isdigit_def
      digit_ranges_def lit_def bindM_def)

text \<open>The ledger is append-only in effect: rows added for later policy versions never change the
  surface of a binding stamped with an earlier version, so its validation is unchanged too.\<close>

lemma ledger_append_stable:
  assumes "transitions (bi_kind b) = Some rows" and "\<forall>(v, s) \<in> set newer. bi_policy_version b < v"
  shows "validate_stored_binding (transitions(bi_kind b \<mapsto> rows @ newer)) b d owner w
    = validate_stored_binding transitions b d owner w"
  using assms by (simp add: validate_stored_binding_def surface_at_policy_def select_surface_append)

lemma ledger_append_stable_witness:
  "let b = \<lparr>bi_kind = Kind_REPAIR, bi_surface = Surface_SKILL_APPROVALS, bi_channel_id = lit ''42'',
      bi_policy_version = 4\<rparr>
   in validate_stored_binding
        (TRANSITIONS(Kind_REPAIR \<mapsto> [(0, Surface_SKILL_APPROVALS), (5, Surface_OWNER_DM), (9, Surface_SKILL_APPROVALS)]))
        b sample_directory (lit ''7'') () = validate_stored_binding TRANSITIONS b sample_directory (lit ''7'') ()"
  using ledger_append_stable [of TRANSITIONS "\<lparr>bi_kind = Kind_REPAIR, bi_surface = Surface_SKILL_APPROVALS,
      bi_channel_id = lit ''42'', bi_policy_version = 4\<rparr>" "[(0, Surface_SKILL_APPROVALS), (5, Surface_OWNER_DM)]"
      "[(9, Surface_SKILL_APPROVALS)]" sample_directory "lit ''7''" "()"]
  by (simp add: TRANSITIONS_def)

text \<open>Resolution fails closed: whatever the directory does, resolving a new binding or replaying
  a stored one either fails with \<open>SurfacePolicyError\<close> or ends right after a description of the
  binding's own channel whose facts match the binding's surface; no other surface is tried.\<close>

lemma resolution_fails_closed:
  "(case resolve_new_binding kind d owner skill w of
      (Inl e, w') \<Rightarrow> e = SurfacePolicyError
    | (Inr b, w') \<Rightarrow> required_surface kind = Inr (bi_surface b)
        \<and> (\<exists>facts w1. di_describe d (bi_channel_id b) w1 = (Inr facts, w') \<and> facts_match (bi_surface b) facts owner))
   \<and> (case validate_stored_binding t sb d owner w of
      (Inl e, w') \<Rightarrow> e = SurfacePolicyError
    | (Inr b, w') \<Rightarrow> b = sb \<and> surface_at_policy t (bi_kind sb) (bi_policy_version sb) = Inr (bi_surface sb)
        \<and> (\<exists>facts. di_describe d (bi_channel_id b) w = (Inr facts, w') \<and> facts_match (bi_surface b) facts owner))"
proof (rule conjI, goal_cases)
  case 1
  have "e = SurfacePolicyError" if "resolve_new_binding kind d owner skill w = (Inl e, w')" for e w'
    using that
    by (auto simp: resolve_new_binding_def required_surface_def resolved_channel_id_def run_simps
        dest: surface_at_policy_Inl fail_closed_Inl make_binding_Inl validate_channel_Inl)
  then show ?case
    by (fastforce split: prod.splits sum.splits dest: resolve_new_binding_Inr)
next
  case 2
  show ?case
    by (auto simp: validate_stored_binding_def run_simps split: prod.splits sum.splits if_splits
        dest: surface_at_policy_Inl validate_channel_Inl validate_channel_Inr)
qed

end
