(* ===== verification/DriveDigest.thy ===== *)
theory DriveDigest
  imports DrivePending ApprovalSurface
begin

text \<open>
  \<open>automation/drive_archive/routing.py\<close> and \<open>digest.py\<close>: the routing table of the archive and the
  rendering of the message the owner reacts to, with the proofs that the message names the approved
  hash and fits the message limit. Text outside ASCII is written as its code points.
\<close>

section \<open>Routing\<close>

text \<open>\<open>str.split("/")\<close>, and the parts of a \<open>PurePosixPath\<close>: empty and dot components vanish, a
  leading slash (exactly two stay two) is a part of its own.\<close>

fun split_slash_aux :: "ustr \<Rightarrow> ustr \<Rightarrow> ustr list" where
  "split_slash_aux cur [] = [rev cur]"
| "split_slash_aux cur (c # cs) =
     (if c = 47 then rev cur # split_slash_aux [] cs else split_slash_aux (c # cur) cs)"

definition posix_parts :: "ustr \<Rightarrow> ustr list" where
  "posix_parts rel =
     (let anchor = (if starts_with rel (lit ''//'') \<and> \<not> starts_with rel (lit ''///'') then [lit ''//'']
                    else if starts_with rel (lit ''/'') then [lit ''/''] else []) in
      anchor @ filter (\<lambda>p. p \<noteq> [] \<and> p \<noteq> lit ''.'') (split_slash_aux [] rel))"

definition ARCHIVE_CLASSES :: "ustr list" where
  "ARCHIVE_CLASSES = [lit ''plans'', lit ''notepads'', lit ''features'', lit ''qa'', lit ''patch'', lit ''misc'']"

definition route :: "ustr \<Rightarrow> ustr \<times> ustr list" where
  "route rel =
     (let parts = posix_parts rel in
      if take 2 parts = [lit ''.omo'', lit ''plans''] then (lit ''plans'', butlast (drop 2 parts))
      else if take 2 parts = [lit ''.omo'', lit ''notepads''] then (lit ''notepads'', butlast (drop 2 parts))
      else if rel = lit ''docs/features.md'' then (lit ''features'', [])
      else if take 2 parts = [lit ''docs'', lit ''qa''] then (lit ''qa'', butlast (drop 2 parts))
      else if take 2 parts = [lit ''docs'', lit ''patch''] then (lit ''patch'', [])
      else (lit ''misc'', butlast parts))"

definition classify :: "ustr \<Rightarrow> ustr" where
  "classify rel = fst (route rel)"

definition route_parts :: "ustr \<Rightarrow> ustr \<Rightarrow> ustr list" where
  "route_parts root_name rel = root_name # fst (route rel) # snd (route rel)"

lemma classify_archive_class: "classify rel \<in> set ARCHIVE_CLASSES"
  by (simp add: classify_def route_def ARCHIVE_CLASSES_def Let_def)

section \<open>The digest\<close>

definition MAX_CONTENT :: nat where "MAX_CONTENT = 1900"

definition LIST_LIMIT :: nat where "LIST_LIMIT = 12"

definition MAX_LABEL :: nat where "MAX_LABEL = 80"

record digest_request =
  dg_manifest :: batch_manifest
  dg_action_hash :: ustr
  dg_root_name :: ustr
  dg_tracked :: "ustr set"

definition label :: "ustr \<Rightarrow> ustr" where
  "label value = (if length value \<le> MAX_LABEL then value else take (MAX_LABEL - 1) value @ [8230])"

definition class_count :: "file_entry list \<Rightarrow> ustr \<Rightarrow> nat" where
  "class_count entries name = length (filter (\<lambda>e. classify (fe_path e) = name) entries)"

text \<open>\<open>_class_counts\<close>: the table starts with every class at 0 in table order, and the sort is stable,
  so ties keep that order.\<close>

definition class_counts :: "file_entry list \<Rightarrow> (ustr \<times> nat) list" where
  "class_counts entries =
     sort_key (\<lambda>(name, count). - int count)
       (filter (\<lambda>(name, count). count \<noteq> 0) (map (\<lambda>name. (name, class_count entries name)) ARCHIVE_CLASSES))"

definition entry_line :: "file_entry \<Rightarrow> ustr" where
  "entry_line e = lit ''- '' @ [96] @ fe_path e @ [96] @ lit '' '' @ [8594] @ lit '' '' @ [96] @ classify (fe_path e)
     @ lit ''/'' @ [96] @ lit ''  ('' @ take 12 (fe_sha256 e) @ lit '')''"

definition more_line :: "nat \<Rightarrow> ustr" where
  "more_line n = lit ''- '' @ [8230, 50808] @ lit '' '' @ dec_nat n @ [44148]"

text \<open>The loop of \<open>_paths_body\<close>: the lines so far and the room they used.\<close>

fun paths_loop :: "int \<Rightarrow> nat \<Rightarrow> ustr list \<Rightarrow> nat \<Rightarrow> file_entry list \<Rightarrow> ustr list" where
  "paths_loop budget count body used [] = body"
| "paths_loop budget count body used (e # es) =
     (let line = entry_line e; overflow = 10 # more_line (count - length body) in
      if int (used + length line + 1 + length overflow) > budget then body
      else paths_loop budget count (body @ [line]) (used + length line + 1) es)"

definition paths_body :: "file_entry list \<Rightarrow> int \<Rightarrow> ustr list" where
  "paths_body entries budget =
     (let body = paths_loop budget (length entries) [] 0 entries in
      if length body < length entries then body @ [more_line (length entries - length body)] else body)"

definition count_line :: "ustr \<times> nat \<Rightarrow> ustr" where
  "count_line nc = lit ''- '' @ [96] @ fst nc @ lit ''/'' @ [96] @ lit '' '' @ dec_nat (snd nc) @ [44148]"

definition classes_body :: "file_entry list \<Rightarrow> ustr list" where
  "classes_body entries =
     [[48516, 47448, 48324] @ lit '' '' @ [51665, 44228]] @ map count_line (class_counts entries) @
     [[], [51204, 52404] @ lit '' '' @ [47785, 47197] @ lit '': '' @ [96] @ lit ''python3 -m automation.drive_archive.sync_cli plan'' @ [96]]"

text \<open>\<open>required_surface\<close> of the drive kind cannot fail, and the instruction does not depend on it.\<close>

definition header_lines :: "digest_request \<Rightarrow> nat \<Rightarrow> nat \<Rightarrow> ustr list" where
  "header_lines r n added =
     [[128229] @ lit '' Drive '' @ [50500, 52852, 51060, 48652] @ lit '' '' @ [46041, 44592, 54868] @ lit '' '' @ [50836, 52397] @ lit '' '' @ [8212] @ lit '' '' @ [54532, 47196, 51229, 53944] @ lit '' '' @ [96] @ label (bm_project (dg_manifest r)) @ [96],
      [45824, 49345] @ lit '' '' @ [54028, 51068] @ lit '' '' @ dec_nat n @ [44148] @ lit '' '' @ [183] @ lit '' '' @ [49888, 44508] @ lit '' '' @ dec_nat added @ lit '' '' @ [183] @ lit '' '' @ [48320, 44221] @ lit '' ''
        @ dec_nat (n - added) @ lit '' '' @ [183] @ lit '' action_hash '' @ [96] @ dg_action_hash r @ [96],
      [45824, 49345] @ lit '' '' @ [54260, 45908] @ lit '' '' @ [96] @ label (dg_root_name r) @ [96] @ lit '' ('' @ [45236] @ lit '' Drive '' @ [183] @ lit '' '' @ [48516, 47448, 48324] @ lit '' '' @ [54616, 50948, 54260, 45908] @ lit '' '' @ [51088, 46041] @ lit '' '' @ [49373, 49457] @ lit '')'',
      []]"

definition footer_lines :: "digest_request \<Rightarrow> nat \<Rightarrow> ustr list" where
  "footer_lines r n =
     [[], reaction_instruction Kind_DRIVE_ARCHIVE Surface_OWNER_DM False
        @ lit ''  ('' @ [9989] @ lit '' = '' @ dec_nat n @ [44148] @ lit '' '' @ [51204, 52404] @ lit '' '' @ [50629, 47196, 46300] @ lit '' '' @ [183] @ lit '' hash '' @ [96] @ dg_action_hash r @ [96] @ lit '')'']"

definition render :: "digest_request \<Rightarrow> ustr" where
  "render r =
     (let ordered = sort_key fe_path (bm_files (dg_manifest r));
          n = length ordered;
          added = length (filter (\<lambda>e. fe_path e \<notin> dg_tracked r) ordered);
          header = header_lines r n added;
          footer = footer_lines r n;
          fixed = length (join [10] (header @ footer));
          body = (if n \<le> LIST_LIMIT then paths_body ordered (int MAX_CONTENT - int fixed) else classes_body ordered) in
      join [10] (header @ body @ footer))"

section \<open>Lemmas\<close>

definition room :: "ustr list \<Rightarrow> nat" where
  "room ls = sum_list (map (\<lambda>l. length l + 1) ls)"

lemma room_simps [simp]: "room [] = 0" "room (l # ls) = length l + 1 + room ls" "room (ls @ ms) = room ls + room ms"
  by (simp_all add: room_def)

lemma length_join: "ls \<noteq> [] \<Longrightarrow> length (join [c] ls) + 1 = room ls"
  by (induction "[c]" ls rule: join.induct) auto

lemma length_dec_nat: "0 < k \<Longrightarrow> n < 10 ^ k \<Longrightarrow> length (dec_nat n) \<le> k"
proof (induction n arbitrary: k rule: dec_nat.induct)
  case (1 n)
  show ?case
  proof (cases "n < 10")
    case False
    from 1(2) obtain j where j: "k = Suc j" by (cases k) auto
    with 1(3) False have k: "k = Suc j" "0 < j" by (auto intro: gr0I)
    then have "n div 10 < 10 ^ j" using 1(3) by (simp add: less_mult_imp_div_less)
    from 1(1) [OF False k(2) this] False k show ?thesis by (simp add: dec_nat.simps [of n])
  qed (use 1(2) in \<open>simp add: dec_nat.simps [of n]\<close>)
qed

lemma length_dec_nat_mono: "m \<le> n \<Longrightarrow> length (dec_nat m) \<le> length (dec_nat n)"
proof (induction n arbitrary: m rule: dec_nat.induct)
  case (1 n)
  show ?case
  proof (cases "n < 10")
    case False
    with 1(1) [OF False, of "m div 10"] 1(2) show ?thesis
      by (simp add: dec_nat.simps [of n] dec_nat.simps [of m] div_le_mono)
  qed (use 1(2) in \<open>simp add: dec_nat.simps [of n] dec_nat.simps [of m]\<close>)
qed

lemma length_label: "length (label s) \<le> 80"
  by (simp add: label_def MAX_LABEL_def)

lemma length_more_line: "length (more_line n) = 6 + length (dec_nat n)"
  by (simp add: more_line_def)

text \<open>The lines that are taken leave room for the line that counts the rest.\<close>

lemma paths_loop_room:
  assumes "int (used + 1 + length (more_line (count - length body))) \<le> b" and "budget \<le> b" and "used = room body"
    and "paths_loop budget count body used es = out"
  shows "int (room out + 1 + length (more_line (count - length out))) \<le> b"
  using assms
proof (induction budget count body used es rule: paths_loop.induct)
  case (2 budget count body used e es)
  show ?case
  proof (cases "int (used + length (entry_line e) + 1 + length (10 # more_line (count - length body))) > budget")
    case True
    with 2 show ?thesis by (simp add: Let_def)
  next
    case False
    have "length (more_line (count - length (body @ [entry_line e]))) \<le> length (more_line (count - length body))"
      using length_dec_nat_mono [of "count - length (body @ [entry_line e])" "count - length body"]
      by (simp add: length_more_line)
    with False 2 show ?thesis by (simp add: Let_def)
  qed
qed simp

lemma paths_body_room:
  assumes "budget \<le> b" and "int (1 + length (more_line (length es))) \<le> b"
  shows "int (room (paths_body es budget)) \<le> b"
proof -
  have "int (room (paths_loop budget (length es) [] 0 es) + 1
      + length (more_line (length es - length (paths_loop budget (length es) [] 0 es)))) \<le> b"
    by (rule paths_loop_room [OF _ assms(1) _ refl]) (use assms(2) in simp_all)
  then show ?thesis by (simp add: paths_body_def Let_def)
qed

lemma class_count_le: "class_count es name \<le> length es"
  by (simp add: class_count_def)

lemma archive_class_length: "name \<in> set ARCHIVE_CLASSES \<Longrightarrow> length name \<le> 8"
  by (auto simp: ARCHIVE_CLASSES_def)

lemma length_count_line:
  "nc \<in> set (class_counts es) \<Longrightarrow> length (count_line nc) \<le> 15 + length (dec_nat (length es))"
proof -
  assume "nc \<in> set (class_counts es)"
  then obtain name where "name \<in> set ARCHIVE_CLASSES" "nc = (name, class_count es name)"
    by (auto simp: class_counts_def)
  with length_dec_nat_mono [OF class_count_le [of es name]] archive_class_length [of name] show ?thesis
    by (simp add: count_line_def)
qed

lemma length_class_counts: "length (class_counts es) \<le> 6"
proof -
  have "length (class_counts es) \<le> length ARCHIVE_CLASSES"
    by (simp add: class_counts_def)
  then show ?thesis by (simp add: ARCHIVE_CLASSES_def)
qed

lemma room_le: "(\<And>l. l \<in> set ls \<Longrightarrow> length l \<le> k) \<Longrightarrow> room ls \<le> length ls * (k + 1)"
  by (induction ls) (auto, fastforce)

lemma classes_body_room: "room (classes_body es) \<le> 170 + 6 * length (dec_nat (length es))"
proof -
  have "room (map count_line (class_counts es)) \<le> length (map count_line (class_counts es)) * (15 + length (dec_nat (length es)) + 1)"
    by (rule room_le) (use length_count_line in auto)
  also have "\<dots> \<le> 6 * (15 + length (dec_nat (length es)) + 1)"
    unfolding length_map by (rule mult_le_mono1 [OF length_class_counts])
  finally show ?thesis by (simp add: classes_body_def)
qed

lemma header_room:
  "room (header_lines r n added) \<le> 264 + length (dec_nat n) + length (dec_nat added) + length (dec_nat (n - added))
     + length (dg_action_hash r)"
  using length_label [of "bm_project (dg_manifest r)"] length_label [of "dg_root_name r"]
  by (simp add: header_lines_def)

lemma footer_room: "room (footer_lines r n) \<le> 60 + length (dec_nat n) + length (dg_action_hash r)"
  by (simp add: footer_lines_def reaction_instruction_def Let_def)

section \<open>Properties\<close>

text \<open>The digest fits the message limit: for a hash of the length the gate makes and fewer than a
  million files, the rendered text has at most 1900 characters, however long the names are.\<close>

lemma digest_fits_limit:
  assumes "length (dg_action_hash r) \<le> 71" and "length (bm_files (dg_manifest r)) < 1000000"
  shows "length (render r) \<le> MAX_CONTENT"
proof -
  define ordered where "ordered = sort_key fe_path (bm_files (dg_manifest r))"
  define n where "n = length ordered"
  define added where "added = length (filter (\<lambda>e. fe_path e \<notin> dg_tracked r) ordered)"
  let ?fixed = "length (join [10] (header_lines r n added @ footer_lines r n))"
  define body where "body = (if n \<le> LIST_LIMIT then paths_body ordered (int MAX_CONTENT - int ?fixed) else classes_body ordered)"
  have n6: "n < 1000000" using assms(2) by (simp add: n_def ordered_def)
  have dig: "length (dec_nat m) \<le> 6" if "m \<le> n" for m
    using length_dec_nat [of 6 m] that n6 by simp
  have "added \<le> n" by (simp add: added_def n_def)
  then have "room (header_lines r n added @ footer_lines r n) \<le> 490"
    using header_room [of r n added] footer_room [of r n] assms(1) dig [of n] dig [of added] dig [of "n - added"]
    by simp
  moreover have fixed: "?fixed + 1 = room (header_lines r n added @ footer_lines r n)"
    by (rule length_join) (simp add: header_lines_def)
  ultimately have "?fixed \<le> 489" by simp
  have "room body \<le> MAX_CONTENT - ?fixed"
  proof (cases "n \<le> LIST_LIMIT")
    case True
    have "int (room (paths_body ordered (int MAX_CONTENT - int ?fixed))) \<le> int MAX_CONTENT - int ?fixed"
      by (rule paths_body_room) (use \<open>?fixed \<le> 489\<close> dig [of n] in \<open>simp_all add: MAX_CONTENT_def length_more_line n_def\<close>)
    with True show ?thesis by (simp add: body_def)
  next
    case False
    with classes_body_room [of ordered] dig [of n] \<open>?fixed \<le> 489\<close> show ?thesis
      by (simp add: body_def MAX_CONTENT_def n_def)
  qed
  moreover have "length (join [10] (header_lines r n added @ body @ footer_lines r n)) + 1
      = room (header_lines r n added @ body @ footer_lines r n)"
    by (rule length_join) (simp add: header_lines_def)
  ultimately have "length (join [10] (header_lines r n added @ body @ footer_lines r n)) \<le> MAX_CONTENT"
    using fixed \<open>?fixed \<le> 489\<close> by (simp add: MAX_CONTENT_def)
  moreover have "render r = join [10] (header_lines r n added @ body @ footer_lines r n)"
    unfolding render_def Let_def body_def n_def added_def ordered_def by (rule refl)
  ultimately show ?thesis by simp
qed

definition sample_digest :: digest_request where
  "sample_digest = \<lparr>dg_manifest = \<lparr>bm_project = lit ''p'', bm_files = [\<lparr>fe_path = lit ''a.md'', fe_sha256 = lit ''ff''\<rparr>]\<rparr>,
     dg_action_hash = lit ''sha256:0'', dg_root_name = lit ''root'', dg_tracked = {}\<rparr>"

lemma digest_fits_limit_witness: "length (render sample_digest) \<le> 1900"
  using digest_fits_limit [of sample_digest] by (simp add: sample_digest_def MAX_CONTENT_def)

text \<open>The digest names the hash it asks to approve: the hash occurs literally in the rendered text,
  so the content check of the probe does not refuse a message that was just posted.\<close>

lemma digest_names_hash: "contains (render r) (dg_action_hash r)"
proof -
  define f where f: "f = footer_lines r (length (bm_files (dg_manifest r)))"
  have "\<exists>h b. render r = join [10] ((h @ b) @ f) \<and> h \<noteq> []"
    unfolding render_def Let_def f length_sort append.assoc
    by (intro exI conjI, rule refl) (simp add: header_lines_def)
  then obtain h b where "render r = join [10] ((h @ b) @ f)" and ne: "h \<noteq> []" by blast
  then have r: "render r = join [10] (h @ b) @ [10] @ join [10] f"
    using join_append [of "h @ b" f "[10]"] by (simp add: f footer_lines_def)
  have "\<exists>pre post. join [10] f = pre @ dg_action_hash r @ post"
    unfolding f footer_lines_def join.simps by (metis append.assoc)
  then obtain pre post where "join [10] f = pre @ dg_action_hash r @ post" by blast
  with r have "render r = (join [10] (h @ b) @ [10] @ pre) @ dg_action_hash r @ post" by simp
  then show ?thesis by (metis contains_append)
qed

end
