(* ===== verification/Lines.thy ===== *)
theory Lines
  imports Json
begin

text \<open>
  Texts and their lines: \<open>str.splitlines\<close>, its relation to \<open>"\n".join\<close>, and what \<open>str.strip\<close> does to
  the lines of a text.
\<close>

section \<open>Splitting\<close>

text \<open>\<open>str.splitlines\<close>: every Unicode line boundary ends a line, \<open>\r\n\<close> as one.\<close>

definition line_break :: "nat \<Rightarrow> bool" where
  "line_break c \<longleftrightarrow> c \<in> {10, 11, 12, 13, 28, 29, 30, 133, 8232, 8233}"

fun splitlines_aux :: "ustr \<Rightarrow> ustr \<Rightarrow> ustr list" where
  "splitlines_aux cur [] = (if cur = [] then [] else [rev cur])"
| "splitlines_aux cur [c] = (if line_break c then [rev cur] else [rev (c # cur)])"
| "splitlines_aux cur (c # d # cs) =
     (if c = 13 \<and> d = 10 then rev cur # splitlines_aux [] cs
      else if line_break c then rev cur # splitlines_aux [] (d # cs)
      else splitlines_aux (c # cur) (d # cs))"

definition splitlines :: "ustr \<Rightarrow> ustr list" where
  "splitlines s = splitlines_aux [] s"

abbreviation break_free :: "ustr \<Rightarrow> bool" where
  "break_free l \<equiv> \<not> list_ex line_break l"

lemma splitlines_aux_line:
  "\<not> list_ex line_break l \<Longrightarrow> splitlines_aux cur (l @ 10 # rest) = (rev cur @ l) # splitlines_aux [] rest"
proof (induction l arbitrary: cur)
  case Nil
  then show ?case by (cases rest) (auto simp: line_break_def)
next
  case (Cons c l)
  then have "c \<noteq> 13" "\<not> line_break c" by (auto simp: line_break_def)
  moreover have "splitlines_aux cur ((c # l) @ 10 # rest) = splitlines_aux (c # cur) (l @ 10 # rest)"
    using \<open>c \<noteq> 13\<close> \<open>\<not> line_break c\<close> by (cases "l @ 10 # rest") auto
  ultimately show ?case using Cons by simp
qed

lemma splitlines_lines:
  "\<not> list_ex (list_ex line_break) ls \<Longrightarrow> splitlines (concat (map (\<lambda>l. l @ [10]) ls)) = ls"
  unfolding splitlines_def by (induction ls) (auto simp: splitlines_aux_line)

lemma splitlines_Cons_line: "break_free l \<Longrightarrow> splitlines (l @ 10 # rest) = l # splitlines rest"
  unfolding splitlines_def by (simp add: splitlines_aux_line)

lemma splitlines_aux_single: "break_free l \<Longrightarrow> cur \<noteq> [] \<or> l \<noteq> [] \<Longrightarrow> splitlines_aux cur l = [rev cur @ l]"
proof (induction cur l rule: splitlines_aux.induct)
  case (3 cur c d cs)
  then have "c \<noteq> 13" by (auto simp: line_break_def)
  with 3 show ?case by simp
qed auto

lemma splitlines_single: "break_free l \<Longrightarrow> l \<noteq> [] \<Longrightarrow> splitlines l = [l]"
  unfolding splitlines_def by (simp add: splitlines_aux_single)

lemma splitlines_join:
  assumes "list_all break_free ls" and "ls \<noteq> []" and "last ls \<noteq> []"
  shows "splitlines (join [10] ls) = ls"
  using assms
proof (induction "[10 :: nat]" ls rule: join.induct)
  case (2 x)
  then show ?case by (simp add: splitlines_single)
next
  case (3 x y ys)
  then show ?case by (simp add: splitlines_Cons_line)
qed simp

lemma splitlines_join_append:
  "list_all break_free ls \<Longrightarrow> ls \<noteq> [] \<Longrightarrow> splitlines (join [10] ls @ 10 # rest) = ls @ splitlines rest"
proof (induction "[10 :: nat]" ls rule: join.induct)
  case (2 x)
  then show ?case by (simp add: splitlines_Cons_line)
next
  case (3 x y ys)
  then show ?case by (simp add: splitlines_Cons_line)
qed simp

lemma splitlines_aux_break_free: "break_free cur \<Longrightarrow> list_all break_free (splitlines_aux cur s)"
proof (induction cur s rule: splitlines_aux.induct)
  case (3 cur c d cs)
  then show ?case by (cases "c = 13 \<and> d = 10") (auto simp: list_ex_rev)
qed (simp_all add: list_ex_rev)

lemma splitlines_break_free: "list_all break_free (splitlines s)"
  unfolding splitlines_def by (rule splitlines_aux_break_free) simp

section \<open>Lines ended by a line feed\<close>

fun nl_lines :: "ustr \<Rightarrow> ustr list" where
  "nl_lines [] = [[]]"
| "nl_lines (c # cs) = (if c = 10 then [] # nl_lines cs else (c # hd (nl_lines cs)) # tl (nl_lines cs))"

lemma nl_lines_ne [simp]: "nl_lines s \<noteq> []"
  by (cases s) auto

lemma join_Cons_head: "join [10] ((c # h) # t) = c # join [10] (h # t)"
  by (cases t) auto

lemma join_nl_lines: "join [10] (nl_lines s) = s"
proof (induction s)
  case (Cons c cs)
  obtain h t where ht: "nl_lines cs = h # t" by (meson neq_Nil_conv nl_lines_ne)
  with Cons show ?case by (auto simp: join_Cons_head)
qed simp

lemma nl_lines_line: "10 \<notin> set l \<Longrightarrow> nl_lines (l @ 10 # rest) = l # nl_lines rest"
  by (induction l) auto

lemma nl_lines_single: "10 \<notin> set l \<Longrightarrow> nl_lines l = [l]"
  by (induction l) auto

lemma nl_lines_join: "list_all (\<lambda>l. 10 \<notin> set l) ls \<Longrightarrow> ls \<noteq> [] \<Longrightarrow> nl_lines (join [10] ls) = ls"
proof (induction "[10 :: nat]" ls rule: join.induct)
  case (2 x)
  then show ?case by (simp add: nl_lines_single)
next
  case (3 x y ys)
  then show ?case by (simp add: nl_lines_line)
qed simp

lemma nl_lines_no_nl: "l \<in> set (nl_lines s) \<Longrightarrow> 10 \<notin> set l"
proof (induction s arbitrary: l)
  case (Cons c cs)
  obtain h t where ht: "nl_lines cs = h # t" by (meson neq_Nil_conv nl_lines_ne)
  with Cons show ?case by (auto split: if_splits)
qed simp

lemma last_nl_lines: "s \<noteq> [] \<Longrightarrow> last s \<noteq> 10 \<Longrightarrow> last (nl_lines s) \<noteq> []"
proof (induction s)
  case (Cons c cs)
  obtain h t where ht: "nl_lines cs = h # t" by (meson neq_Nil_conv nl_lines_ne)
  with Cons show ?case by (cases cs) (auto split: if_splits)
qed simp

lemma set_nl_lines: "l \<in> set (nl_lines s) \<Longrightarrow> set l \<subseteq> set s"
proof (induction s arbitrary: l)
  case (Cons c cs)
  obtain h t where ht: "nl_lines cs = h # t" by (meson neq_Nil_conv nl_lines_ne)
  with Cons show ?case by (fastforce split: if_splits)
qed simp

text \<open>A text whose only line boundaries are line feeds, and that does not end with one, has the
  same lines either way.\<close>

definition only_nl :: "ustr \<Rightarrow> bool" where
  "only_nl s \<longleftrightarrow> (\<forall>c \<in> set s. line_break c \<longrightarrow> c = 10)"

lemma nl_lines_break_free: "only_nl s \<Longrightarrow> list_all break_free (nl_lines s)"
  using set_nl_lines nl_lines_no_nl by (fastforce simp: only_nl_def list_all_iff list_ex_iff)

lemma only_nl_join: "list_all break_free ls \<Longrightarrow> only_nl (join [10] ls)"
  by (induction "[10 :: nat]" ls rule: join.induct) (auto simp: only_nl_def list_ex_iff)

section \<open>Stripping\<close>

lemma strip_decomp: "\<exists>a b. s = a @ strip s @ b \<and> list_all is_space a \<and> list_all is_space b"
proof -
  have l: "s = takeWhile is_space s @ lstrip s" by (simp add: lstrip_def)
  have "rev (lstrip s) = takeWhile is_space (rev (lstrip s)) @ rev (strip s)"
    by (simp add: strip_def rstrip_def)
  then have "rev (rev (lstrip s)) = rev (takeWhile is_space (rev (lstrip s)) @ rev (strip s))" by (rule arg_cong)
  then have r: "lstrip s = strip s @ rev (takeWhile is_space (rev (lstrip s)))"
    unfolding rev_append rev_rev_ident .
  have "s = takeWhile is_space s @ strip s @ rev (takeWhile is_space (rev (lstrip s)))"
    using l r by metis
  moreover have "list_all is_space (takeWhile is_space s)"
    "list_all is_space (rev (takeWhile is_space (rev (lstrip s))))"
    by (auto simp: list_all_iff dest: set_takeWhileD)
  ultimately show ?thesis by blast
qed

lemma strip_id: "s = [] \<or> \<not> is_space (hd s) \<and> \<not> is_space (last s) \<Longrightarrow> strip s = s"
proof -
  assume s: "s = [] \<or> \<not> is_space (hd s) \<and> \<not> is_space (last s)"
  have "dropWhile is_space s = s" using s by (cases s) auto
  moreover have "dropWhile is_space (rev s) = rev s" using s by (cases s rule: rev_cases) auto
  ultimately show ?thesis by (simp add: strip_def lstrip_def rstrip_def)
qed

lemma strip_ends:
  assumes "strip s \<noteq> []"
  shows "\<not> is_space (hd (strip s)) \<and> \<not> is_space (last (strip s))"
proof -
  let ?l = "lstrip s"
  have "dropWhile is_space (rev ?l) \<noteq> []" using assms by (simp add: strip_def rstrip_def)
  then have "\<not> is_space (hd (dropWhile is_space (rev ?l)))" by (simp add: hd_dropWhile)
  then have last: "\<not> is_space (last (strip s))" by (simp add: strip_def rstrip_def last_rev)
  obtain b where b: "?l = strip s @ b"
  proof -
    have "rev ?l = takeWhile is_space (rev ?l) @ rev (strip s)" by (simp add: strip_def rstrip_def)
    then have "?l = strip s @ rev (takeWhile is_space (rev ?l))" by (metis rev_append rev_rev_ident)
    then show thesis by (rule that)
  qed
  then have "?l \<noteq> []" "hd ?l = hd (strip s)" using assms by auto
  moreover have "\<not> is_space (hd ?l)" using \<open>?l \<noteq> []\<close> unfolding lstrip_def by (rule hd_dropWhile)
  ultimately show ?thesis using last by simp
qed

lemma strip_strip [simp]: "strip (strip s) = strip s"
  using strip_id strip_ends by blast

lemma set_strip: "set (strip s) \<subseteq> set s"
  using strip_decomp [of s] by (metis Un_upper1 Un_upper2 le_supI2 set_append subset_trans)

text \<open>The characters of a line that are not white space: stripping a text removes lines that have
  none and changes no other line's.\<close>

definition dense :: "ustr \<Rightarrow> ustr" where
  "dense l = filter (\<lambda>c. \<not> is_space c) l"

lemma dense_Cons_head: "is_space c \<Longrightarrow> dense (c # l) = dense l"
  by (simp add: dense_def)

lemma dense_before: "list_all is_space b \<Longrightarrow> \<exists>ks. map dense (nl_lines (b @ a)) = ks @ map dense (nl_lines a)"
proof (induction b)
  case (Cons c b)
  then obtain ks where ks: "map dense (nl_lines (b @ a)) = ks @ map dense (nl_lines a)" by auto
  obtain h t where ht: "nl_lines (b @ a) = h # t" by (meson neq_Nil_conv nl_lines_ne)
  show ?case
  proof (cases "c = 10")
    case True
    with ks have "map dense (nl_lines ((c # b) @ a)) = (dense [] # ks) @ map dense (nl_lines a)" by simp
    then show ?thesis by blast
  next
    case False
    with ks ht Cons.prems have "map dense (nl_lines ((c # b) @ a)) = ks @ map dense (nl_lines a)"
      by (simp add: dense_Cons_head)
    then show ?thesis by blast
  qed
qed simp

lemma dense_after: "list_all is_space b \<Longrightarrow> \<exists>ks. map dense (nl_lines (a @ b)) = map dense (nl_lines a) @ ks"
proof (induction a)
  case Nil
  obtain h t where ht: "nl_lines b = h # t" by (meson neq_Nil_conv nl_lines_ne)
  have "dense h = []" using Nil set_nl_lines [of h b] ht by (auto simp: dense_def list_all_iff filter_empty_conv)
  with ht show ?case by (auto simp: dense_def)
next
  case (Cons c a)
  then obtain ks where ks: "map dense (nl_lines (a @ b)) = map dense (nl_lines a) @ ks" by auto
  obtain h t where ht: "nl_lines a = h # t" by (meson neq_Nil_conv nl_lines_ne)
  obtain h' t' where ht': "nl_lines (a @ b) = h' # t'" by (meson neq_Nil_conv nl_lines_ne)
  from ks ht ht' have "dense h' = dense h" "map dense t' = map dense t @ ks" by auto
  then have "map dense (nl_lines ((c # a) @ b)) = map dense (nl_lines (c # a)) @ ks"
    using ks ht ht' by (simp add: dense_def)
  then show ?case by blast
qed

lemma strip_lines: "dense ` set (nl_lines (strip s)) \<subseteq> dense ` set (nl_lines s)"
proof -
  obtain a b where ab: "s = a @ strip s @ b" "list_all is_space a" "list_all is_space b"
    using strip_decomp by blast
  obtain ks where "map dense (nl_lines (a @ strip s @ b)) = ks @ map dense (nl_lines (strip s @ b))"
    using dense_before [OF ab(2)] by blast
  moreover obtain ls where "map dense (nl_lines (strip s @ b)) = map dense (nl_lines (strip s)) @ ls"
    using dense_after [OF ab(3)] by blast
  ultimately have "map dense (nl_lines s) = ks @ map dense (nl_lines (strip s)) @ ls" using ab(1) by metis
  then have "set (map dense (nl_lines (strip s))) \<subseteq> set (map dense (nl_lines s))" by auto
  then show ?thesis unfolding set_map .
qed

end
