(* ===== verification/ExternalEffectGate.thy ===== *)
theory ExternalEffectGate
  imports CanonicalJson Lines
begin

text \<open>
  \<open>automation/interop/external_effect_gate.py\<close> and \<open>injection_adapter.py\<close>: the denylist and its
  loader, the approval hash of a tool call, the search of the approval log, and the signed end-to-end
  path. SHA-256, HMAC and the regular expression engine are arguments of the definitions that use
  them; the approval log is its lines, each the JSON value it holds or None when it is not JSON.
\<close>

section \<open>The denylist\<close>

record rule =
  ru_rule_id :: ustr
  ru_tool_name_pattern :: ustr
  ru_arguments_pattern :: ustr

datatype config_error = DenylistConfigurationError

text \<open>\<open>line.split(":", 1)\<close> of a line that has a colon.\<close>

definition split_colon :: "ustr \<Rightarrow> ustr \<times> ustr" where
  "split_colon line = (takeWhile (\<lambda>c. c \<noteq> 58) line, tl (dropWhile (\<lambda>c. c \<noteq> 58) line))"

type_synonym yaml_row = "(ustr, ustr) dict"

definition yaml_fields :: "ustr set" where
  "yaml_fields = {lit ''id'', lit ''tool_name_regex'', lit ''arguments_regex''}"

text \<open>One line of \<open>_yaml_rows\<close>. The list \<open>rows\<close> ends with \<open>current\<close>, which is its last element, so
  \<open>current is None\<close> is that the list is empty.\<close>

definition yaml_step :: "yaml_row list \<Rightarrow> ustr \<Rightarrow> config_error + yaml_row list" where
  "yaml_step rows source_line =
     (let line = strip source_line in
      if line = [] \<or> starts_with line (lit ''#'') \<or> line = lit ''rules:'' then Inr rows
      else
        let fresh = starts_with line (lit ''- '');
            rows' = (if fresh then rows @ [[]] else rows);
            line' = (if fresh then drop 2 line else line) in
        if rows' = [] \<or> 58 \<notin> set line' then Inl DenylistConfigurationError
        else let (key, value) = split_colon line' in
          if key \<notin> yaml_fields \<or> strip value = [] then Inl DenylistConfigurationError
          else Inr (butlast rows' @ [dict_set (last rows') key (strip value)]))"

fun yaml_loop :: "yaml_row list \<Rightarrow> ustr list \<Rightarrow> config_error + yaml_row list" where
  "yaml_loop rows [] = Inr rows"
| "yaml_loop rows (line # lines) = bindE (yaml_step rows line) (\<lambda>rows'. yaml_loop rows' lines)"

text \<open>The denylist file: None when it cannot be read.\<close>

definition yaml_rows :: "ustr option \<Rightarrow> config_error + yaml_row list" where
  "yaml_rows file = (case file of
      None \<Rightarrow> Inl DenylistConfigurationError
    | Some text \<Rightarrow> yaml_loop [] (splitlines text))"

definition rule_of_row :: "(ustr \<Rightarrow> bool) \<Rightarrow> yaml_row \<Rightarrow> config_error + rule" where
  "rule_of_row compiles row =
     (case (dict_get row (lit ''id''), dict_get row (lit ''tool_name_regex''), dict_get row (lit ''arguments_regex'')) of
        (Some rule_id, Some tool_name_regex, Some arguments_regex) \<Rightarrow>
          if compiles tool_name_regex \<and> compiles arguments_regex
          then Inr \<lparr>ru_rule_id = rule_id, ru_tool_name_pattern = tool_name_regex,
                 ru_arguments_pattern = arguments_regex\<rparr>
          else Inl DenylistConfigurationError
      | _ \<Rightarrow> Inl DenylistConfigurationError)"

definition load_denylist :: "(ustr \<Rightarrow> bool) \<Rightarrow> ustr option \<Rightarrow> config_error + rule list" where
  "load_denylist compiles file =
     bindE (yaml_rows file) (\<lambda>rows.
     bindE (mapE (rule_of_row compiles) rows) (\<lambda>rules.
       if rules = [] then Inl DenylistConfigurationError else Inr rules))"

section \<open>The gate\<close>

record tool_call =
  tc_tool_name :: ustr
  tc_arguments :: "(ustr, json) dict"

type_synonym log_line = "json option"

datatype approval_log = LogMissing | LogUnreadable exn | LogLines "log_line list"

record approval_context =
  ac_approval_log :: "approval_log option"
  ac_owner_id :: ustr
  ac_e2e_test_mode :: bool

record decision =
  de_external_effect :: bool
  de_allowed :: bool
  de_reason :: "ustr option"
  de_action_hash :: ustr
  de_target_id :: ustr

record tools =
  search :: "ustr \<Rightarrow> ustr \<Rightarrow> bool"
  sha256 :: "ustr \<Rightarrow> ustr"
  float_repr :: "rat \<Rightarrow> ustr"

definition matching_rule :: "tools \<Rightarrow> tool_call \<Rightarrow> rule list \<Rightarrow> rule option" where
  "matching_rule tk call rules =
     (let arguments = canonical (float_repr tk) (JObj (tc_arguments call)) in
      find (\<lambda>r. search tk (ru_tool_name_pattern r) (tc_tool_name call)
              \<and> search tk (ru_arguments_pattern r) arguments) rules)"

definition hash_payload :: "tool_call \<Rightarrow> ustr \<Rightarrow> json" where
  "hash_payload call target_id = JObj
     [(lit ''action'', JStr (lit ''external_effect.tool_call'')),
      (lit ''arguments'', JObj (tc_arguments call)),
      (lit ''target_id'', JStr target_id),
      (lit ''tool_name'', JStr (tc_tool_name call))]"

definition action_hash :: "tools \<Rightarrow> tool_call \<Rightarrow> ustr \<Rightarrow> ustr" where
  "action_hash tk call target_id =
     lit ''sha256:'' @ sha256 tk (canonical (float_repr tk) (hash_payload call target_id))"

definition target_of :: "rule \<Rightarrow> tool_call \<Rightarrow> ustr" where
  "target_of r call = lit ''tool:'' @ ru_rule_id r @ lit '':'' @ tc_tool_name call"

text \<open>One line of the log. \<open>record.get(k) == v\<close> is a comparison of JSON values; \<open>{"status": "approved"}\<close>
  has one key, so dictionary equality is list equality here.\<close>

definition valid_record :: "ustr \<Rightarrow> ustr \<Rightarrow> ustr \<Rightarrow> bool \<Rightarrow> log_line \<Rightarrow> bool" where
  "valid_record ah target_id owner_id e2e line =
     (case line of
        Some (JObj rec) \<Rightarrow>
          (case jget rec ''approval'' of
             Some (JObj approval) \<Rightarrow>
               (jget approval ''method'' = Some (JStr (lit ''signed_injection_e2e'')) \<and> e2e
                  \<or> jget approval ''method'' = Some (JStr (lit ''manual_reaction'')))
               \<and> jget rec ''action'' = Some (JStr (lit ''external_effect.approval''))
               \<and> jget rec ''hash'' = Some (JStr ah)
               \<and> jget rec ''target_id'' = Some (JStr target_id)
               \<and> jget rec ''result'' = Some (JObj [(lit ''status'', JStr (lit ''approved''))])
               \<and> jget approval ''channel'' = Some (JStr (lit ''approvals''))
               \<and> jget approval ''owner_id'' = Some (JStr owner_id)
           | _ \<Rightarrow> False)
      | _ \<Rightarrow> False)"

definition has_valid_approval :: "approval_log \<Rightarrow> ustr \<Rightarrow> ustr \<Rightarrow> ustr \<Rightarrow> bool \<Rightarrow> exn + bool" where
  "has_valid_approval alog ah target_id owner_id e2e =
     (case alog of
        LogMissing \<Rightarrow> Inr False
      | LogUnreadable e \<Rightarrow> Inl e
      | LogLines lines \<Rightarrow> Inr (list_ex (valid_record ah target_id owner_id e2e) lines))"

definition evaluate_tool_call :: "tools \<Rightarrow> tool_call \<Rightarrow> rule list \<Rightarrow> approval_context \<Rightarrow> exn + decision" where
  "evaluate_tool_call tk call rules context =
     (case matching_rule tk call rules of
        None \<Rightarrow> Inr \<lparr>de_external_effect = False, de_allowed = True, de_reason = None,
                   de_action_hash = [], de_target_id = []\<rparr>
      | Some r \<Rightarrow>
          let target_id = target_of r call; ah = action_hash tk call target_id in
          bindE (case ac_approval_log context of
                   None \<Rightarrow> Inr False
                 | Some alog \<Rightarrow> has_valid_approval alog ah target_id (ac_owner_id context) (ac_e2e_test_mode context))
            (\<lambda>approved. Inr \<lparr>de_external_effect = True, de_allowed = approved,
               de_reason = Some (if approved then lit ''approved'' else lit ''approval_required''),
               de_action_hash = ah, de_target_id = target_id\<rparr>))"

section \<open>The signed path\<close>

record inbound_event =
  ie_event_id :: ustr
  ie_user_id :: ustr
  ie_channel_id :: ustr
  ie_text :: ustr

definition canonical_event :: "inbound_event \<Rightarrow> ustr" where
  "canonical_event e = canonical (\<lambda>_. []) (JObj
     [(lit ''event_id'', JStr (ie_event_id e)), (lit ''user_id'', JStr (ie_user_id e)),
      (lit ''channel_id'', JStr (ie_channel_id e)), (lit ''text'', JStr (ie_text e))])"

definition sign_event :: "(ustr \<Rightarrow> ustr \<Rightarrow> ustr) \<Rightarrow> inbound_event \<Rightarrow> ustr \<Rightarrow> ustr" where
  "sign_event hmac e secret = hmac secret (canonical_event e)"

definition verify_signed_event :: "(ustr \<Rightarrow> ustr \<Rightarrow> ustr) \<Rightarrow> inbound_event \<Rightarrow> ustr \<Rightarrow> ustr \<Rightarrow> bool" where
  "verify_signed_event hmac e signature secret \<longleftrightarrow> sign_event hmac e secret = signature"

definition accept_test_event :: "(ustr \<Rightarrow> ustr \<Rightarrow> ustr) \<Rightarrow> inbound_event \<Rightarrow> ustr \<Rightarrow> ustr \<Rightarrow> bool \<Rightarrow> bool" where
  "accept_test_event hmac e signature secret e2e \<longleftrightarrow> e2e \<and> verify_signed_event hmac e signature secret"

definition approval_challenge :: "ustr \<Rightarrow> ustr \<Rightarrow> ustr" where
  "approval_challenge ah target_id =
     lit ''APPROVE external-effect '' @ ah @ lit '' target:'' @ target_id"

definition approval_record :: "ustr \<Rightarrow> ustr \<Rightarrow> ustr \<Rightarrow> ustr \<Rightarrow> ustr \<Rightarrow> ustr \<Rightarrow> json" where
  "approval_record method message_id owner_id ah target_id timestamp = JObj
     [(lit ''action'', JStr (lit ''external_effect.approval'')),
      (lit ''approval'', JObj
         [(lit ''channel'', JStr (lit ''approvals'')), (lit ''message_id'', JStr message_id),
          (lit ''method'', JStr method), (lit ''owner_id'', JStr owner_id)]),
      (lit ''hash'', JStr ah),
      (lit ''result'', JObj [(lit ''status'', JStr (lit ''approved''))]),
      (lit ''target_id'', JStr target_id),
      (lit ''timestamp'', JStr timestamp)]"

text \<open>Appending opens the file again: what made it unreadable raises, unless it is only that the text in
  it is no UTF-8.\<close>

fun append_log :: "approval_log \<Rightarrow> json \<Rightarrow> exn + approval_log" where
  "append_log LogMissing r = Inr (LogLines [Some r])"
| "append_log (LogUnreadable e) r = (if e = UnicodeDecodeError then Inr (LogUnreadable e) else Inl e)"
| "append_log (LogLines lines) r = Inr (LogLines (lines @ [Some r]))"

text \<open>\<open>record_signed_e2e_approval\<close>: the answer, and the log afterwards.\<close>

definition record_signed_e2e_approval ::
    "(ustr \<Rightarrow> ustr \<Rightarrow> ustr) \<Rightarrow> approval_context \<Rightarrow> ustr \<times> ustr \<Rightarrow> inbound_event \<Rightarrow> ustr \<Rightarrow> ustr \<Rightarrow> ustr
      \<Rightarrow> exn + bool \<times> approval_log option" where
  "record_signed_e2e_approval hmac context binding event signature secret timestamp =
     (case ac_approval_log context of
        None \<Rightarrow> Inr (False, None)
      | Some alog \<Rightarrow>
          if \<not> accept_test_event hmac event signature secret (ac_e2e_test_mode context) then Inr (False, Some alog)
          else if ie_user_id event \<noteq> ac_owner_id context \<or> ie_channel_id event \<noteq> lit ''approvals''
          then Inr (False, Some alog)
          else if ie_text event \<noteq> approval_challenge (fst binding) (snd binding) then Inr (False, Some alog)
          else bindE (append_log alog (approval_record (lit ''signed_injection_e2e'') (ie_event_id event)
                 (ac_owner_id context) (fst binding) (snd binding) timestamp))
               (\<lambda>alog'. Inr (True, Some alog')))"

section \<open>Lemmas\<close>

lemma valid_manual_record:
  "valid_record ah t owner e2e (Some (approval_record (lit ''manual_reaction'') m o' ah' t' ts)) \<longleftrightarrow>
     ah' = ah \<and> t' = t \<and> o' = owner"
  by (auto simp: valid_record_def approval_record_def)

lemma valid_signed_record:
  "valid_record ah t owner e2e (Some (approval_record (lit ''signed_injection_e2e'') m o' ah' t' ts)) \<longleftrightarrow>
     e2e \<and> ah' = ah \<and> t' = t \<and> o' = owner"
  by (auto simp: valid_record_def approval_record_def)

lemma valid_recordD:
  assumes "valid_record ah t owner e2e line"
  shows "\<exists>rec. line = Some (JObj rec) \<and> jget rec ''hash'' = Some (JStr ah)"
proof -
  from assms obtain v where v: "line = Some v" by (cases line) (auto simp: valid_record_def)
  with assms obtain rec where r: "v = JObj rec" by (cases v) (auto simp: valid_record_def)
  with v assms obtain a where a: "jget rec ''approval'' = Some a"
    by (cases "jget rec ''approval''") (auto simp: valid_record_def)
  with v r assms show ?thesis by (cases a) (auto simp: valid_record_def)
qed

lemma has_valid_approval_append:
  "append_log alog r = Inr alog' \<Longrightarrow> has_valid_approval alog ah t owner e2e = Inr b \<Longrightarrow>
     has_valid_approval alog' ah t owner e2e = Inr (b \<or> valid_record ah t owner e2e (Some r))"
  by (cases alog) (auto simp: has_valid_approval_def)

lemma find_Some_set: "find P xs = Some x \<Longrightarrow> x \<in> set xs \<and> P x"
  by (induction xs) (auto split: if_splits)

definition float_free_call :: "tool_call \<Rightarrow> bool" where
  "float_free_call call \<longleftrightarrow> list_all (\<lambda>kv. float_free (snd kv)) (tc_arguments call)"

lemma sort_key_four:
  "sort_keys (hash_payload call t) = JObj
     [(lit ''action'', JStr (lit ''external_effect.tool_call'')),
      (lit ''arguments'', sort_keys (JObj (tc_arguments call))),
      (lit ''target_id'', JStr t), (lit ''tool_name'', JStr (tc_tool_name call))]"
  by (simp add: hash_payload_def) (simp add: lit_def)

lemma action_hash_inject:
  assumes "inj (sha256 tk)" and "float_free_call a" and "float_free_call b"
    and "action_hash tk a t = action_hash tk b u"
  shows "t = u \<and> tc_tool_name a = tc_tool_name b
    \<and> sort_keys (JObj (tc_arguments a)) = sort_keys (JObj (tc_arguments b))"
proof -
  have "float_free (hash_payload a t)" "float_free (hash_payload b u)"
    using assms(2,3) by (simp_all add: hash_payload_def float_free_call_def)
  moreover have "canonical (float_repr tk) (hash_payload a t) = canonical (float_repr tk) (hash_payload b u)"
    using assms(1,4) by (auto simp: action_hash_def dest: injD)
  ultimately have "sort_keys (hash_payload a t) = sort_keys (hash_payload b u)"
    by (simp add: canonical_inject)
  then show ?thesis by (simp only: sort_key_four json.inject list.inject prod.inject)
qed

lemma evaluate_external:
  assumes "evaluate_tool_call tk call rules context = Inr d" and "de_external_effect d"
  shows "\<exists>r. matching_rule tk call rules = Some r \<and> de_target_id d = target_of r call
    \<and> de_action_hash d = action_hash tk call (target_of r call)
    \<and> (de_allowed d \<longleftrightarrow> (\<exists>lines. ac_approval_log context = Some (LogLines lines) \<and>
         list_ex (valid_record (de_action_hash d) (de_target_id d) (ac_owner_id context)
           (ac_e2e_test_mode context)) lines))"
  using assms
  by (auto simp: evaluate_tool_call_def Let_def has_valid_approval_def
      split: option.splits approval_log.splits)

section \<open>The loader\<close>

definition row_ok :: "yaml_row \<Rightarrow> bool" where
  "row_ok row \<longleftrightarrow> list_all (\<lambda>(k, v). k \<in> yaml_fields \<and> v \<noteq> []) row"

lemma row_ok_set: "row_ok row \<Longrightarrow> k \<in> yaml_fields \<Longrightarrow> v \<noteq> [] \<Longrightarrow> row_ok (dict_set row k v)"
  unfolding row_ok_def dict_set_def by (induction row) (auto split: if_splits)

lemma yaml_step_ok:
  assumes "yaml_step rows line = Inr rows'" and "list_all row_ok rows"
  shows "list_all row_ok rows'"
proof -
  have "list_all row_ok (butlast rs @ [dict_set (last rs) k v])"
    if "list_all row_ok rs" "rs \<noteq> []" "k \<in> yaml_fields" "v \<noteq> []" for rs k v
    using that by (cases rs rule: rev_cases) (auto simp: row_ok_set)
  moreover have "list_all row_ok (rows @ [[]])" using assms(2) by (simp add: row_ok_def)
  ultimately show ?thesis
    using assms by (auto simp: yaml_step_def Let_def intro: row_ok_set split: if_splits prod.splits)
qed

lemma yaml_loop_ok: "yaml_loop rows lines = Inr out \<Longrightarrow> list_all row_ok rows \<Longrightarrow> list_all row_ok out"
  by (induction rows lines rule: yaml_loop.induct) (auto dest: yaml_step_ok)

lemma rule_of_row_ok:
  assumes "rule_of_row compiles row = Inr r" and "row_ok row"
  shows "compiles (ru_tool_name_pattern r) \<and> compiles (ru_arguments_pattern r) \<and> ru_rule_id r \<noteq> []
    \<and> ru_tool_name_pattern r \<noteq> [] \<and> ru_arguments_pattern r \<noteq> []"
proof -
  have "v \<noteq> []" if "dict_get row k = Some v" for k v
    using dict_get_in [OF that] assms(2) by (auto simp: row_ok_def list_all_iff)
  with assms(1) show ?thesis by (auto simp: rule_of_row_def split: option.splits if_splits)
qed

text \<open>A denylist file as it is written by hand.\<close>

definition render_rule :: "rule \<Rightarrow> ustr list" where
  "render_rule r = [lit ''  - id: '' @ ru_rule_id r,
     lit ''    tool_name_regex: '' @ ru_tool_name_pattern r,
     lit ''    arguments_regex: '' @ ru_arguments_pattern r]"

definition render_denylist :: "rule list \<Rightarrow> ustr" where
  "render_denylist rules =
     concat (map (\<lambda>l. l @ [10]) (lit ''rules:'' # concat (map render_rule rules)))"

definition field_ok :: "ustr \<Rightarrow> bool" where
  "field_ok f \<longleftrightarrow> f \<noteq> [] \<and> \<not> is_space (hd f) \<and> \<not> is_space (last f) \<and> \<not> list_ex line_break f"

definition rule_ok :: "(ustr \<Rightarrow> bool) \<Rightarrow> rule \<Rightarrow> bool" where
  "rule_ok compiles r \<longleftrightarrow> field_ok (ru_rule_id r) \<and> field_ok (ru_tool_name_pattern r)
     \<and> field_ok (ru_arguments_pattern r) \<and> compiles (ru_tool_name_pattern r) \<and> compiles (ru_arguments_pattern r)"

lemma strip_field:
  assumes "field_ok f" and "list_all is_space pre" and "body = [] \<or> \<not> is_space (hd body)"
  shows "strip (pre @ body @ f) = body @ f"
proof -
  have "dropWhile is_space (body @ f) = body @ f"
    using assms(1,3) by (cases body; cases f) (auto simp: field_ok_def)
  moreover have "dropWhile is_space (pre @ body @ f) = dropWhile is_space (body @ f)"
    using assms(2) by (simp add: list_all_iff dropWhile_append2)
  moreover have "dropWhile is_space (rev (body @ f)) = rev (body @ f)"
    using assms(1) by (cases f rule: rev_cases) (auto simp: field_ok_def)
  ultimately show ?thesis by (simp add: strip_def lstrip_def rstrip_def)
qed

lemma yaml_fields_lit [simp]: "lit s \<in> yaml_fields \<longleftrightarrow> s \<in> {''id'', ''tool_name_regex'', ''arguments_regex''}"
  by (simp add: yaml_fields_def)

lemma strip_value: "field_ok f \<Longrightarrow> strip (32 # f) = f"
  using strip_field [of f "[32]" "[]"] by (simp add: is_space_def)

lemma yaml_step_id:
  assumes "field_ok f"
  shows "yaml_step rows (lit ''  - id: '' @ f) = Inr (rows @ [[(lit ''id'', f)]])"
  using strip_field [OF assms, of "[32, 32]" "lit ''- id: ''"] strip_value [OF assms] assms
  by (simp add: yaml_step_def is_space_def lit_def starts_with_def split_colon_def yaml_fields_def field_ok_def
      dict_set_def)

lemma yaml_step_tool:
  assumes "field_ok f"
  shows "yaml_step (rows @ [row]) (lit ''    tool_name_regex: '' @ f) =
    Inr (rows @ [dict_set row (lit ''tool_name_regex'') f])"
  using strip_field [OF assms, of "[32, 32, 32, 32]" "lit ''tool_name_regex: ''"] strip_value [OF assms] assms
  by (simp add: yaml_step_def is_space_def lit_def starts_with_def split_colon_def yaml_fields_def field_ok_def)

lemma yaml_step_arguments:
  assumes "field_ok f"
  shows "yaml_step (rows @ [row]) (lit ''    arguments_regex: '' @ f) =
    Inr (rows @ [dict_set row (lit ''arguments_regex'') f])"
  using strip_field [OF assms, of "[32, 32, 32, 32]" "lit ''arguments_regex: ''"] strip_value [OF assms] assms
  by (simp add: yaml_step_def is_space_def lit_def starts_with_def split_colon_def yaml_fields_def field_ok_def)

definition row_of_rule :: "rule \<Rightarrow> yaml_row" where
  "row_of_rule r = [(lit ''id'', ru_rule_id r), (lit ''tool_name_regex'', ru_tool_name_pattern r),
     (lit ''arguments_regex'', ru_arguments_pattern r)]"

lemma yaml_loop_rules:
  "list_all (rule_ok compiles) rules \<Longrightarrow>
     yaml_loop rows (concat (map render_rule rules)) = Inr (rows @ map row_of_rule rules)"
proof (induction rules arbitrary: rows)
  case (Cons r rules)
  have row: "dict_set (dict_set [(lit ''id'', ru_rule_id r)] (lit ''tool_name_regex'') (ru_tool_name_pattern r))
      (lit ''arguments_regex'') (ru_arguments_pattern r) = row_of_rule r"
    by (simp add: dict_set_def row_of_rule_def)
  from Cons.prems have "field_ok (ru_rule_id r)" "field_ok (ru_tool_name_pattern r)"
    "field_ok (ru_arguments_pattern r)" by (simp_all add: rule_ok_def)
  then have "yaml_loop rows (concat (map render_rule (r # rules))) =
      yaml_loop (rows @ [row_of_rule r]) (concat (map render_rule rules))"
    by (simp add: render_rule_def yaml_step_id yaml_step_tool yaml_step_arguments row)
  with Cons show ?case by simp
qed simp

lemma rule_of_row_of_rule: "rule_ok compiles r \<Longrightarrow> rule_of_row compiles (row_of_rule r) = Inr r"
  by (simp add: rule_of_row_def row_of_rule_def dict_get_Cons rule_ok_def)

section \<open>Sample data\<close>

definition sample_tools :: tools where
  "sample_tools = \<lparr>search = (\<lambda>p s. p = s \<or> p = lit ''.*''), sha256 = (\<lambda>s. s), float_repr = (\<lambda>_. [])\<rparr>"

definition sample_call :: tool_call where
  "sample_call = \<lparr>tc_tool_name = lit ''mail'', tc_arguments = [(lit ''to'', JStr (lit ''x''))]\<rparr>"

definition sample_rules :: "rule list" where
  "sample_rules = [\<lparr>ru_rule_id = lit ''r'', ru_tool_name_pattern = lit ''mail'', ru_arguments_pattern = lit ''.*''\<rparr>]"

section \<open>Properties of the loader\<close>

text \<open>A denylist that is written out in the documented form loads as the rules it was written
  from, for identifiers and patterns that have no line break and no space at their ends.\<close>

lemma denylist_roundtrip:
  assumes "rules \<noteq> []" and "list_all (rule_ok compiles) rules"
  shows "load_denylist compiles (Some (render_denylist rules)) = Inr rules"
proof -
  have nb: "\<not> list_ex line_break (lit ''rules:'')"
    by (simp add: lit_def line_break_def)
  have "\<not> list_ex (list_ex line_break) (render_rule r)" if "rule_ok compiles r" for r
    using that by (simp add: render_rule_def rule_ok_def field_ok_def lit_def line_break_def)
  then have "\<not> list_ex (list_ex line_break) (lit ''rules:'' # concat (map render_rule rules))"
    using assms(2) nb by (auto simp: list_all_iff list_ex_iff)
  then have lines: "splitlines (render_denylist rules) = lit ''rules:'' # concat (map render_rule rules)"
    unfolding render_denylist_def by (rule splitlines_lines)
  have "strip (lit ''rules:'') = lit ''rules:''"
    by (simp add: lit_def strip_def lstrip_def rstrip_def is_space_def)
  then have "yaml_step [] (lit ''rules:'') = Inr []" by (simp add: yaml_step_def)
  then have "yaml_rows (Some (render_denylist rules)) = Inr (map row_of_rule rules)"
    using yaml_loop_rules [OF assms(2), of "[]"] by (simp add: yaml_rows_def lines)
  moreover have "mapE (rule_of_row compiles) (map row_of_rule rules) = Inr (map (\<lambda>r. r) rules)"
    using assms(2) by (intro mapE_map_Inr) (auto simp: list_all_iff rule_of_row_of_rule)
  ultimately show ?thesis using assms(1) by (simp add: load_denylist_def)
qed

lemma denylist_roundtrip_witness:
  "load_denylist (\<lambda>_. True) (Some (render_denylist [\<lparr>ru_rule_id = lit ''r'',
      ru_tool_name_pattern = lit ''mail: x'', ru_arguments_pattern = lit ''.*''\<rparr>]))
    = Inr [\<lparr>ru_rule_id = lit ''r'', ru_tool_name_pattern = lit ''mail: x'', ru_arguments_pattern = lit ''.*''\<rparr>]"
  by (rule denylist_roundtrip) (simp_all add: rule_ok_def field_ok_def lit_def is_space_def line_break_def)

text \<open>The loader fails closed: what it loads has at least one rule, and every rule has an
  identifier and two patterns that are not empty and that the regular expression engine accepts.\<close>

lemma denylist_loads_fail_closed:
  assumes "load_denylist compiles file = Inr rules"
  shows "rules \<noteq> [] \<and> list_all (\<lambda>r. compiles (ru_tool_name_pattern r) \<and> compiles (ru_arguments_pattern r)
    \<and> ru_rule_id r \<noteq> [] \<and> ru_tool_name_pattern r \<noteq> [] \<and> ru_arguments_pattern r \<noteq> []) rules"
proof -
  from assms obtain rows where rows: "yaml_rows file = Inr rows" "mapE (rule_of_row compiles) rows = Inr rules"
    and ne: "rules \<noteq> []"
    by (auto simp: load_denylist_def split: if_splits)
  from rows(1) have "list_all row_ok rows"
    by (auto simp: yaml_rows_def split: option.splits dest!: yaml_loop_ok)
  moreover from rows(2) have "list_all2 (\<lambda>row r. rule_of_row compiles row = Inr r) rows rules"
    by (simp add: mapE_Inr_iff)
  ultimately show ?thesis
    using ne rule_of_row_ok by (fastforce simp: list_all2_conv_all_nth list_all_length)
qed

definition sample_denylist :: ustr where
  "sample_denylist = lit ''- id: a'' @ [13, 10] @ lit ''tool_name_regex: b'' @ [10] @ lit ''arguments_regex:c''"

lemma sample_denylist_rules:
  "load_denylist (\<lambda>_. True) (Some sample_denylist) = Inr [\<lparr>ru_rule_id = lit ''a'',
      ru_tool_name_pattern = lit ''b'', ru_arguments_pattern = lit ''c''\<rparr>]"
  by (simp add: load_denylist_def yaml_rows_def sample_denylist_def lit_def splitlines_def line_break_def
      yaml_step_def strip_def lstrip_def rstrip_def is_space_def starts_with_def split_colon_def
      yaml_fields_def dict_set_def rule_of_row_def dict_get_def)

lemma denylist_loads_fail_closed_witness:
  "\<exists>rules. load_denylist (\<lambda>_. True) (Some sample_denylist) = Inr rules \<and> rules \<noteq> []"
  using denylist_loads_fail_closed [OF sample_denylist_rules] sample_denylist_rules by blast

section \<open>Properties of the gate\<close>

text \<open>A call that a denylist rule matches is allowed exactly when the approval log has a record of
  its own hash and target by the owner; a call that no rule matches is allowed without one.\<close>

lemma gate_allows_iff_recorded:
  "evaluate_tool_call tk call rules context = Inr d \<Longrightarrow>
     (case matching_rule tk call rules of
        None \<Rightarrow> \<not> de_external_effect d \<and> de_allowed d
      | Some r \<Rightarrow> de_external_effect d \<and> r \<in> set rules
          \<and> (de_allowed d \<longleftrightarrow> (\<exists>lines. ac_approval_log context = Some (LogLines lines) \<and>
               list_ex (valid_record (action_hash tk call (target_of r call)) (target_of r call)
                 (ac_owner_id context) (ac_e2e_test_mode context)) lines)))"
  by (auto simp: evaluate_tool_call_def Let_def has_valid_approval_def matching_rule_def
      split: option.splits approval_log.splits dest!: find_Some_set)

lemma sample_matches: "tc_tool_name call = lit ''mail'' \<Longrightarrow> matching_rule sample_tools call sample_rules = Some (hd sample_rules)"
  by (simp add: matching_rule_def sample_rules_def sample_tools_def)

lemma gate_allows_iff_recorded_witness:
  "\<exists>d. evaluate_tool_call sample_tools sample_call sample_rules
        \<lparr>ac_approval_log = Some LogMissing, ac_owner_id = [], ac_e2e_test_mode = False\<rparr> = Inr d
      \<and> de_external_effect d \<and> \<not> de_allowed d"
  using gate_allows_iff_recorded [of sample_tools sample_call sample_rules
      "\<lparr>ac_approval_log = Some LogMissing, ac_owner_id = [], ac_e2e_test_mode = False\<rparr>"]
  by (auto simp: evaluate_tool_call_def matching_rule_def sample_rules_def sample_tools_def sample_call_def
      has_valid_approval_def Let_def)

text \<open>C6. One approval authorizes one action. If every record of the log carries the hash of a call,
  then any call the gate allows as an external effect is that call: the same tool, the same target
  and the same arguments up to the order of keys. SHA-256 is assumed to have no collision.\<close>

theorem approval_binds_one_call:
  assumes "inj (sha256 tk)" and "float_free_call a" and "float_free_call b"
    and "\<forall>line \<in> set lines. \<forall>rec. line = Some (JObj rec) \<longrightarrow> jget rec ''hash'' = Some (JStr (action_hash tk a t))"
    and "evaluate_tool_call tk b rules \<lparr>ac_approval_log = Some (LogLines lines), ac_owner_id = owner, ac_e2e_test_mode = e2e\<rparr> = Inr d"
    and "de_external_effect d" and "de_allowed d"
  shows "tc_tool_name b = tc_tool_name a \<and> de_target_id d = t
    \<and> sort_keys (JObj (tc_arguments b)) = sort_keys (JObj (tc_arguments a))"
proof -
  from evaluate_external [OF assms(5,6)] assms(7) obtain line r where
    d: "de_target_id d = target_of r b" "de_action_hash d = action_hash tk b (target_of r b)" and
    line: "line \<in> set lines" "valid_record (de_action_hash d) (de_target_id d) owner e2e line"
    by (auto simp: list_ex_iff)
  from line(2) obtain rec where "line = Some (JObj rec)" "jget rec ''hash'' = Some (JStr (de_action_hash d))"
    using valid_recordD by blast
  with assms(4) line(1) d have "action_hash tk b (target_of r b) = action_hash tk a t" by auto
  with action_hash_inject [OF assms(1,3,2)] d show ?thesis by auto
qed

theorem approval_binds_one_call_witness:
  "let ah = action_hash sample_tools sample_call (lit ''tool:r:mail'');
       rec = approval_record (lit ''manual_reaction'') [] (lit ''o'') ah (lit ''tool:r:mail'') [];
       call = sample_call\<lparr>tc_arguments := [(lit ''to'', JStr (lit ''y''))]\<rparr>
   in \<exists>d. evaluate_tool_call sample_tools call sample_rules
        \<lparr>ac_approval_log = Some (LogLines [Some rec]), ac_owner_id = lit ''o'', ac_e2e_test_mode = False\<rparr> = Inr d
        \<and> de_external_effect d \<and> \<not> de_allowed d"
proof -
  let ?ah = "action_hash sample_tools sample_call (lit ''tool:r:mail'')"
  let ?rec = "approval_record (lit ''manual_reaction'') [] (lit ''o'') ?ah (lit ''tool:r:mail'') []"
  let ?call = "sample_call\<lparr>tc_arguments := [(lit ''to'', JStr (lit ''y''))]\<rparr>"
  let ?ctx = "\<lparr>ac_approval_log = Some (LogLines [Some ?rec]), ac_owner_id = lit ''o'', ac_e2e_test_mode = False\<rparr>"
  obtain d where d: "evaluate_tool_call sample_tools ?call sample_rules ?ctx = Inr d" "de_external_effect d"
    using sample_matches [of ?call]
    by (simp add: evaluate_tool_call_def has_valid_approval_def Let_def sample_call_def)
  have inj: "inj (sha256 sample_tools)" by (simp add: sample_tools_def)
  have free: "float_free_call sample_call" "float_free_call ?call"
    by (simp_all add: sample_call_def float_free_call_def)
  have recorded: "\<forall>line \<in> set [Some ?rec]. \<forall>rec. line = Some (JObj rec) \<longrightarrow> jget rec ''hash'' = Some (JStr ?ah)"
    by (simp add: approval_record_def)
  have "sort_keys (JObj (tc_arguments ?call)) \<noteq> sort_keys (JObj (tc_arguments sample_call))"
    by (simp add: sample_call_def)
  then have "\<not> de_allowed d"
    using approval_binds_one_call [OF inj free recorded d] by blast
  with d show ?thesis by (auto simp: Let_def)
qed

text \<open>The signed end-to-end path writes a record only in test mode, for an authentic event of the
  owner on the approvals channel that states the challenge of this very action; the record then
  approves the action in test mode and changes no verdict outside it.\<close>

lemma signed_record_only_in_test_mode:
  assumes "ac_approval_log context = Some alog"
    and "record_signed_e2e_approval hmac context (ah, t) event signature secret ts = Inr (ok, Some alog')"
  shows "(ok \<longrightarrow> ac_e2e_test_mode context \<and> hmac secret (canonical_event event) = signature
      \<and> ie_user_id event = ac_owner_id context \<and> ie_text event = approval_challenge ah t)
    \<and> (\<not> ok \<longrightarrow> alog' = alog)
    \<and> has_valid_approval alog' ah' t' owner False = has_valid_approval alog ah' t' owner False
    \<and> (ok \<longrightarrow> is_Inr (has_valid_approval alog ah t (ac_owner_id context) True) \<longrightarrow>
          has_valid_approval alog' ah t (ac_owner_id context) True = Inr True)"
proof (cases ok)
  case False
  then show ?thesis using assms by (auto simp: record_signed_e2e_approval_def split: if_splits)
next
  case True
  with assms have app: "append_log alog (approval_record (lit ''signed_injection_e2e'') (ie_event_id event)
                 (ac_owner_id context) ah t ts) = Inr alog'"
    and acc: "accept_test_event hmac event signature secret (ac_e2e_test_mode context)"
    "ie_user_id event = ac_owner_id context" "ie_text event = approval_challenge ah t"
    by (auto simp: record_signed_e2e_approval_def split: if_splits)
  have "has_valid_approval alog' ah' t' owner False = has_valid_approval alog ah' t' owner False"
    using app by (cases alog) (auto simp: has_valid_approval_def valid_signed_record split: if_splits)
  with True acc has_valid_approval_append [OF app] show ?thesis
    by (auto simp: is_Inr_def split: sum.splits simp: accept_test_event_def verify_signed_event_def sign_event_def valid_signed_record)
qed

lemma signed_record_only_in_test_mode_witness:
  "let ev = \<lparr>ie_event_id = lit ''e'', ie_user_id = lit ''o'', ie_channel_id = lit ''approvals'',
             ie_text = approval_challenge (lit ''h'') (lit ''t'')\<rparr>;
       ctx = \<lparr>ac_approval_log = Some LogMissing, ac_owner_id = lit ''o'', ac_e2e_test_mode = True\<rparr>
   in \<exists>alog'. record_signed_e2e_approval (\<lambda>s m. m) ctx (lit ''h'', lit ''t'') ev (canonical_event ev) [] []
          = Inr (True, Some alog')
        \<and> has_valid_approval alog' (lit ''h'') (lit ''t'') (lit ''o'') True = Inr True
        \<and> has_valid_approval alog' (lit ''h'') (lit ''t'') (lit ''o'') False = Inr False"
proof -
  let ?ev = "\<lparr>ie_event_id = lit ''e'', ie_user_id = lit ''o'', ie_channel_id = lit ''approvals'',
             ie_text = approval_challenge (lit ''h'') (lit ''t'')\<rparr>"
  let ?ctx = "\<lparr>ac_approval_log = Some LogMissing, ac_owner_id = lit ''o'', ac_e2e_test_mode = True\<rparr>"
  obtain alog' where l: "record_signed_e2e_approval (\<lambda>s m. m) ?ctx (lit ''h'', lit ''t'') ?ev (canonical_event ?ev) [] []
          = Inr (True, Some alog')"
    by (auto simp: record_signed_e2e_approval_def accept_test_event_def verify_signed_event_def sign_event_def)
  have "has_valid_approval LogMissing h t u e = Inr False" for h t u e by (simp add: has_valid_approval_def)
  with signed_record_only_in_test_mode [OF _ l, of LogMissing "lit ''h''" "lit ''t''" "lit ''o''"] l
  show ?thesis by (simp add: Let_def is_Inr_def)
qed

end
