(* ===== verification/ApprovalStore.thy ===== *)
theory ApprovalStore
  imports ApprovalLifecycle
begin

text \<open>
  The contract between the facade and the store behind a gate, as a locale: what the outstanding
  requests of a key are, and how each call of the gate, the lease and the journal changes them. The
  facade's effect on the store is proved once against the contract; each gate of the repository
  that is modelled interprets it.
\<close>

definition keeps :: "('w \<Rightarrow> bool) \<Rightarrow> ('w \<Rightarrow> 'v) \<Rightarrow> ('w, exn, 'a) eff \<Rightarrow> bool" where
  "keeps ok view m \<longleftrightarrow> (\<forall>v w. ok w \<longrightarrow> view w = v \<longrightarrow>
     wp m (\<lambda>_ w'. ok w' \<and> view w' = v) (\<lambda>_ w'. ok w' \<and> view w' = v) w)"

lemma keepsI:
  "(\<And>w r w'. ok w \<Longrightarrow> m w = (r, w') \<Longrightarrow> ok w' \<and> view w' = view w) \<Longrightarrow> keeps ok view m"
  unfolding keeps_def by (blast intro: wp_I)

lemma keepsD:
  assumes "keeps ok view m" and "ok w" and "m w = (r, w')"
  shows "ok w' \<and> view w' = view w"
proof -
  have "wp m (\<lambda>_ w'. ok w' \<and> view w' = view w) (\<lambda>_ w'. ok w' \<and> view w' = view w) w"
    using assms(1,2) by (simp add: keeps_def)
  from wp_D1 [OF this] wp_D2 [OF this] assms(3) show ?thesis by (cases r) blast+
qed

lemma keeps_ret [intro]: "keeps ok view (ret x)"
  by (simp add: keeps_def)

lemma keeps_raise [intro]: "keeps ok view (raise_exn e)"
  by (simp add: keeps_def)

lemma keeps_bindM [intro]:
  "keeps ok view m \<Longrightarrow> (\<And>x. keeps ok view (f x)) \<Longrightarrow> keeps ok view (bindM m f)"
  unfolding keeps_def wp_bindM by (blast intro: wp_mono)

lemma keeps_catchM:
  assumes "keeps ok view m" and "\<And>e. case h e of None \<Rightarrow> True | Some m' \<Rightarrow> keeps ok view m'"
  shows "keeps ok view (catchM m h)"
  unfolding keeps_def wp_catchM
proof (intro allI impI)
  fix v w assume w: "ok w" "view w = v"
  show "wp m (\<lambda>_ w'. ok w' \<and> view w' = v)
     (\<lambda>e. case h e of None \<Rightarrow> \<lambda>w'. ok w' \<and> view w' = v
       | Some m' \<Rightarrow> wp m' (\<lambda>_ w'. ok w' \<and> view w' = v) (\<lambda>_ w'. ok w' \<and> view w' = v)) w"
  proof (rule wp_mono)
    show "wp m (\<lambda>_ w'. ok w' \<and> view w' = v) (\<lambda>_ w'. ok w' \<and> view w' = v) w"
      using assms(1) w unfolding keeps_def by blast
    fix e w' assume "ok w' \<and> view w' = v"
    with assms(2) [of e] show "(case h e of None \<Rightarrow> \<lambda>w'. ok w' \<and> view w' = v
       | Some m' \<Rightarrow> wp m' (\<lambda>_ w'. ok w' \<and> view w' = v) (\<lambda>_ w'. ok w' \<and> view w' = v)) w'"
      by (auto simp: keeps_def split: option.splits)
  qed
qed

lemma keeps_mapM [intro]: "(\<And>x. keeps ok view (f x)) \<Longrightarrow> keeps ok view (mapM f xs)"
  by (induction xs) auto

lemma wp_keeps:
  assumes "keeps ok view m" and "ok w"
    and "\<And>x w'. ok w' \<Longrightarrow> view w' = view w \<Longrightarrow> Q x w'" and "\<And>e w'. ok w' \<Longrightarrow> view w' = view w \<Longrightarrow> E e w'"
  shows "wp m Q E w"
  using assms by (intro wp_I) (auto dest: keepsD)

locale approval_store =
  fixes g :: "'w gate" and l :: "'w lease" and j :: "'w journal" and good :: "intent \<Rightarrow> bool"
    and ok :: "'w \<Rightarrow> bool" and view :: "'w \<Rightarrow> ustr \<Rightarrow> request list" and postable :: "posted \<Rightarrow> bool"
  assumes outstanding_keeps: "keeps ok view (g_outstanding g k)"
    and outstanding_view: "ok w \<Longrightarrow> g_outstanding g k w = (Inr rs, w') \<Longrightarrow> rs = view w k"
    and probe_keeps: "keeps ok view (g_probe g q)"
    and delete_keeps: "keeps ok view (g_delete g q)"
    and post_keeps: "keeps ok view (g_post g i)"
    and post_postable: "ok w \<Longrightarrow> g_post g i w = (Inr p, w') \<Longrightarrow> postable p"
    and view_key: "ok w \<Longrightarrow> q \<in> set (view w k) \<Longrightarrow> rq_key q = k"
    and view_distinct: "ok w \<Longrightarrow> distinct (view w k)"
    and drop_view: "ok w \<Longrightarrow> g_drop g q w = (Inr u, w') \<Longrightarrow> q \<in> set (view w (rq_key q)) \<Longrightarrow>
      ok w' \<and> view w' (rq_key q) = filter (\<lambda>r. r \<noteq> q) (view w (rq_key q))"
    and commit_view: "ok w \<Longrightarrow> good i \<Longrightarrow> postable p \<Longrightarrow> g_commit g i p c w = (Inr u, w') \<Longrightarrow> view w (in_key i) = [] \<Longrightarrow>
      ok w' \<and> (\<exists>q. view w' (in_key i) = [q] \<and> rq_action_hash q = in_action_hash i
        \<and> rq_message_id q = po_message_id p)"
    and enter_keeps: "keeps ok view (l_enter l k)"
    and exit_keeps: "ok w \<Longrightarrow> ok (l_exit l b k w) \<and> view (l_exit l b k w) = view w"
    and reservation_keeps: "keeps ok view (j_outstanding j k)"
    and reserve_keeps: "keeps ok view (j_reserve j k a c)"
    and clear_keeps: "keeps ok view (j_clear j k)"
begin

lemma safe_probe_keeps: "keeps ok view (safe_probe g q)"
  unfolding safe_probe_def by (auto intro!: keeps_catchM probe_keeps)

lemma snapshot_keeps: "keeps ok view (snapshot_of g rs)"
  unfolding snapshot_of_def by (auto intro!: safe_probe_keeps)

text \<open>The postcondition of the steps that drop: what is left of the key's requests.\<close>

definition leaves :: "ustr \<Rightarrow> request list \<Rightarrow> 'w \<Rightarrow> 'w \<Rightarrow> bool" where
  "leaves k gone w w' \<longleftrightarrow> ok w' \<and> view w' k = filter (\<lambda>r. r \<notin> set gone) (view w k)"

lemma wp_drop:
  assumes "ok w" and "q \<in> set (view w k)"
    and "\<And>w'. ok w' \<Longrightarrow> view w' k = filter (\<lambda>r. r \<noteq> q) (view w k) \<Longrightarrow> Q () w'"
  shows "wp (g_drop g q) Q (\<lambda>_ _. True) w"
  using assms drop_view [OF assms(1)] view_key [OF assms(1,2)] by (intro wp_I) auto

lemma wp_drops_leave:
  assumes "ok w" and "set rs \<subseteq> set (view w k)" and "distinct rs"
  shows "wp (iterM (g_drop g) rs) (\<lambda>_. leaves k rs w) (\<lambda>_ _. True) w"
  using assms
proof (induction rs arbitrary: w)
  case Nil
  then show ?case by (simp add: leaves_def)
next
  case (Cons q rs)
  show ?case
    unfolding iterM.simps wp_bindM
  proof (rule wp_drop [OF Cons.prems(1), of _ k])
    show "q \<in> set (view w k)" using Cons.prems(2) by simp
    fix w' assume w': "ok w'" "view w' k = filter (\<lambda>r. r \<noteq> q) (view w k)"
    show "wp (iterM (g_drop g) rs) (\<lambda>_. leaves k (q # rs) w) (\<lambda>_ _. True) w'"
      by (rule wp_mono [OF Cons.IH [OF w'(1)]])
        (use Cons.prems w' in \<open>auto simp: leaves_def conj_commute intro!: filter_cong\<close>)
  qed
qed

text \<open>The postcondition of \<open>destroy\<close>: it removed every request, or halted with a verdict.\<close>

definition destroyed :: "ustr \<Rightarrow> request list \<Rightarrow> 'w \<Rightarrow> verdict option \<times> cleared list \<Rightarrow> 'w \<Rightarrow> bool" where
  "destroyed k rs w hc w' \<longleftrightarrow> ok w' \<and> set (view w' k) \<subseteq> set (view w k) \<and>
     (case fst hc of None \<Rightarrow> leaves k rs w w' | Some v \<Rightarrow> v_outcome v \<in> {Outcome_DEFERRED, Outcome_REFUSED})"

lemma destroyed_step:
  assumes "view w' k = filter (\<lambda>r. r \<noteq> q) (view w k)" and "destroyed k rs w' hc w''"
  shows "destroyed k (q # rs) w hc w''"
  using assms by (auto simp: destroyed_def leaves_def conj_commute split: option.splits intro!: filter_cong)

lemma st_destroy:
  assumes "ok w" and "set rs \<subseteq> set (view w k)" and "distinct rs"
  shows "wp (destroy g rsn rs cl) (destroyed k rs w) (\<lambda>_ _. True) w"
  using assms
proof (induction rs arbitrary: w cl)
  case Nil
  then show ?case by (simp add: destroyed_def leaves_def)
next
  case (Cons q rs)
  have halt: "destroyed k (q # rs) w (Some v, cl') w1"
    if "ok w1" "view w1 = view w" "v_outcome v \<in> {Outcome_DEFERRED, Outcome_REFUSED}" for v cl' w1
    using that by (simp add: destroyed_def)
  have drop: "wp (g_drop g q) (\<lambda>_. wp (destroy g rsn rs cl') (destroyed k (q # rs) w) (\<lambda>_ _. True))
      (\<lambda>_ _. True) w1"
    if "ok w1" "view w1 = view w" for w1 cl'
  proof (rule wp_drop [OF that(1), of _ k])
    show "q \<in> set (view w1 k)" using Cons.prems(2) that(2) by simp
    fix w' assume w': "ok w'" "view w' k = filter (\<lambda>r. r \<noteq> q) (view w1 k)"
    show "wp (destroy g rsn rs cl') (destroyed k (q # rs) w) (\<lambda>_ _. True) w'"
      by (rule wp_mono [OF Cons.IH [OF w'(1)]])
        (use Cons.prems(2,3) w'(2) that(2) in \<open>auto intro: destroyed_step\<close>)
  qed
  let ?delete = "catchM (bindM (g_delete g q) (\<lambda>_. ret True))
        (\<lambda>e. if surface_failure e then Some (ret False) else None)"
  have del: "keeps ok view ?delete"
    by (auto intro!: keeps_catchM delete_keeps)
  show ?case
    unfolding destroy.simps wp_bindM [of "safe_probe g q"]
  proof (rule wp_keeps [OF safe_probe_keeps Cons.prems(1)], goal_cases)
    case (1 p w1)
    note w1 = this
    show ?case
    proof (cases p)
      case Probe_BOUND_PENDING
      show ?thesis
        unfolding Probe_BOUND_PENDING probe.case wp_bindM [of ?delete]
        by (rule wp_keeps [OF del w1(1)]) (use drop halt w1(2) in \<open>auto simp: verdict0_def\<close>)
    next
      case Probe_MISSING
      with drop [OF w1] show ?thesis by simp
    qed (use halt w1 in \<open>auto simp: verdict0_def\<close>)
  qed simp
qed

text \<open>What a verdict says about the key's outstanding requests when it is returned.\<close>

definition settled :: "intent \<Rightarrow> 'w \<Rightarrow> verdict \<Rightarrow> 'w \<Rightarrow> bool" where
  "settled i w v w' \<longleftrightarrow> ok w' \<and> (case v_outcome v of
      Outcome_POSTED \<Rightarrow> \<exists>p q. v_posted v = Some p \<and> view w' (in_key i) = [q] \<and>
        rq_action_hash q = in_action_hash i \<and> rq_message_id q = po_message_id p
    | Outcome_PENDING \<Rightarrow> \<exists>q. v_live v = Some q \<and> q \<in> set (view w (in_key i)) \<and>
        filter (\<lambda>r. rq_action_hash r = in_action_hash i) (view w' (in_key i)) = [q]
    | _ \<Rightarrow> set (view w' (in_key i)) \<subseteq> set (view w (in_key i)))"

lemma settledI_halt:
  "destroyed (in_key i) rs w1 (Some v, cl) w' \<Longrightarrow> set (view w1 (in_key i)) \<subseteq> set (view w (in_key i)) \<Longrightarrow>
     settled i w v w'"
  by (auto simp: destroyed_def settled_def)

lemma st_post_new:
  assumes "ok w1" and "good i" and "view w1 (in_key i) = []"
  shows "wp (post_new g j now i cl) (settled i w) (\<lambda>_ _. True) w1"
proof -
  have commit: "wp (g_commit g i p c) (\<lambda>_. wp (bindM (j_clear j (in_key i)) (\<lambda>_.
       ret ((verdict0 Outcome_POSTED None)\<lparr>v_posted := Some p, v_cleared := cl\<rparr>)))
       (settled i w) (\<lambda>_ _. True)) (\<lambda>_ _. True) w2"
    if w2: "ok w2" "view w2 = view w1" "postable p" for w2 p c
  proof (rule wp_I, goal_cases)
    case (1 u w3)
    from commit_view [OF w2(1) assms(2) w2(3) 1] w2(2) assms(3) obtain q where q: "ok w3"
      "view w3 (in_key i) = [q]" "rq_action_hash q = in_action_hash i" "rq_message_id q = po_message_id p"
      by auto
    show ?case
      unfolding wp_bindM
      by (rule wp_keeps [OF clear_keeps q(1)]) (use q in \<open>auto simp: settled_def verdict0_def\<close>)
  qed simp
  define m where "m = (\<lambda>c. bindM (j_reserve j (in_key i) (in_action_hash i) c) (\<lambda>_.
     bindM (g_post g i) (\<lambda>p. bindM (g_commit g i p c) (\<lambda>_. bindM (j_clear j (in_key i)) (\<lambda>_.
       ret ((verdict0 Outcome_POSTED None)\<lparr>v_posted := Some p, v_cleared := cl\<rparr>))))))"
  have "wp (m c) (settled i w) (\<lambda>_ _. True) w1" for c
    unfolding m_def wp_bindM [of "j_reserve j x y z" for x y z]
  proof (rule wp_keeps [OF reserve_keeps assms(1)], goal_cases)
    case (1 u w2)
    note w2 = this
    show ?case
      unfolding wp_bindM [of "g_post g i"]
    proof (rule wp_I, goal_cases)
      case (1 p w3)
      with w2 keepsD [OF post_keeps w2(1)] post_postable [OF w2(1)] show ?case
        unfolding wp_bindM [of "g_commit g i p c"] by (intro commit) auto
    qed simp
  qed simp
  moreover have "post_new g j now i cl w1 = m (now w1) w1"
    by (simp add: post_new_def m_def Let_def)
  ultimately show ?thesis by (simp add: wp_def)
qed

lemma st_snapshot:
  assumes "ok w"
  shows "wp (snapshot_of g rs) (\<lambda>sn w'. ok w' \<and> view w' = view w \<and> map fst sn = rs) (\<lambda>_ _. True) w"
  using assms unfolding snapshot_of_def
proof (induction rs arbitrary: w)
  case Nil
  then show ?case by simp
next
  case (Cons r rs)
  show ?case
    unfolding mapM.simps bindM_assoc bindM_ret wp_bindM [of "safe_probe g r"]
  proof (rule wp_keeps [OF safe_probe_keeps Cons.prems], goal_cases)
    case (1 p w1)
    show ?case
      unfolding wp_bindM by (rule wp_mono [OF Cons.IH [OF 1(1)]]) (use 1 in auto)
  qed simp
qed

text \<open>How a snapshot of live and missing requests splits.\<close>

lemma snapshot_split:
  assumes "\<forall>(r, p) \<in> set sn. p \<in> {Probe_BOUND_PENDING, Probe_MISSING}" and "distinct (map fst sn)"
  shows "set (map fst sn) = set (probed [Probe_MISSING] sn) \<union> set (same_requests i sn) \<union> set (other_requests i sn)"
    and "distinct (probed [Probe_MISSING] sn)" and "distinct (same_requests i sn)" and "distinct (other_requests i sn)"
    and "set (probed [Probe_MISSING] sn) \<inter> (set (same_requests i sn) \<union> set (other_requests i sn)) = {}"
proof -
  show "set (map fst sn) = set (probed [Probe_MISSING] sn) \<union> set (same_requests i sn) \<union> set (other_requests i sn)"
    using assms(1) by (force simp: same_requests_def other_requests_def set_probed)
  have "distinct (probed ps sn)" for ps
    using assms(2) unfolding probed_def by (simp add: distinct_map_filter)
  then show "distinct (probed [Probe_MISSING] sn)" "distinct (same_requests i sn)" "distinct (other_requests i sn)"
    by (simp_all add: same_requests_def other_requests_def)
  have "p = p'" if "(r, p) \<in> set sn" "(r, p') \<in> set sn" for r p p'
    using that assms(2) by (metis eq_key_imp_eq_value)
  then show "set (probed [Probe_MISSING] sn) \<inter> (set (same_requests i sn) \<union> set (other_requests i sn)) = {}"
    by (auto simp: same_requests_def other_requests_def set_probed)
qed

lemma same_hash: "r \<in> set (same_requests i sn) \<Longrightarrow> rq_action_hash r = in_action_hash i"
  by (simp add: same_requests_def)

lemma st_settle:
  assumes "ok w" and "good i" and sn: "map fst sn = view w (in_key i)"
    and live: "\<forall>(r, p) \<in> set sn. p \<in> {Probe_BOUND_PENDING, Probe_MISSING}"
  shows "wp (settle g j now i sn) (settled i w) (\<lambda>_ _. True) w"
proof -
  let ?k = "in_key i" and ?gone = "probed [Probe_MISSING] sn"
  let ?same = "same_requests i sn" and ?others = "other_requests i sn"
  let ?cl = "map (\<lambda>r. cleared_of r Reason_MESSAGE_MISSING) ?gone"
  have dis: "distinct (map fst sn)" using view_distinct [OF assms(1)] sn by simp
  note split = snapshot_split(1) [OF live dis, of i] snapshot_split(2) [OF live dis]
    snapshot_split(3,4,5) [OF live dis, of i]
  have rest: "wp (case ?same of
        canonical # duplicates \<Rightarrow>
          bindM (destroy g Reason_DUPLICATE_COLLAPSED duplicates ?cl) (\<lambda>(halted, cl).
          case halted of
            Some v \<Rightarrow> ret v
          | None \<Rightarrow> ret ((verdict0 Outcome_PENDING
                (if duplicates = [] then None else Some Reason_DUPLICATE_COLLAPSED))
              \<lparr>v_live := Some canonical, v_cleared := cl\<rparr>))
      | [] \<Rightarrow>
          bindM (destroy g Reason_CONTENT_CHANGED ?others ?cl) (\<lambda>(halted, cl).
          case halted of
            Some v \<Rightarrow> ret v
          | None \<Rightarrow> post_new g j now i cl)) (settled i w) (\<lambda>_ _. True) w1"
    if w1: "leaves ?k ?gone w w1" for w1
  proof (cases ?same)
    case Nil
    have "wp (destroy g Reason_CONTENT_CHANGED ?others ?cl) (destroyed ?k ?others w1) (\<lambda>_ _. True) w1"
      using w1 split sn by (intro st_destroy) (auto simp: leaves_def disjoint_iff)
    then show ?thesis
      unfolding Nil list.case wp_bindM
    proof (rule wp_mono, goal_cases)
      case (1 hc w2)
      obtain h cl where hc: "hc = (h, cl)" by (cases hc)
      show ?case
      proof (cases h)
        case None
        with 1 hc w1 have "ok w2" "view w2 ?k = filter (\<lambda>r. r \<notin> set ?others) (view w1 ?k)"
          by (auto simp: destroyed_def leaves_def)
        moreover have "filter (\<lambda>r. r \<notin> set ?others) (view w1 ?k) = []"
          using w1 split(1) Nil sn by (auto simp: leaves_def filter_empty_conv)
        ultimately show ?thesis using None hc st_post_new [OF _ assms(2)] by simp
      next
        case (Some v)
        with 1 hc w1 show ?thesis by (auto simp: leaves_def intro!: settledI_halt)
      qed
    qed
  next
    case (Cons c ds)
    have "wp (destroy g Reason_DUPLICATE_COLLAPSED ds ?cl) (destroyed ?k ds w1) (\<lambda>_ _. True) w1"
      using w1 split sn Cons by (intro st_destroy) (auto simp: leaves_def disjoint_iff)
    then show ?thesis
      unfolding Cons list.case wp_bindM
    proof (rule wp_mono, goal_cases)
      case (1 hc w2)
      obtain h cl where hc: "hc = (h, cl)" by (cases hc)
      show ?case
      proof (cases h)
        case None
        let ?V = "filter (\<lambda>r. rq_action_hash r = in_action_hash i) (view w2 ?k)"
        from 1 hc w1 None have w2: "ok w2"
          "view w2 ?k = filter (\<lambda>r. r \<notin> set ds) (filter (\<lambda>r. r \<notin> set ?gone) (map fst sn))"
          by (auto simp: destroyed_def leaves_def sn)
        have "set ?V = {c}"
          using w2(2) split Cons same_hash [of _ i sn]
          by (auto simp: other_requests_def)
        moreover have "distinct ?V" using w2(2) dis by simp
        ultimately have "?V = [c]" by (rule distinct_single [rotated])
        moreover have "c \<in> set (view w ?k)" using split(1) Cons sn by auto
        ultimately show ?thesis using hc None w2(1) by (simp add: settled_def verdict0_def)
      next
        case (Some v)
        with 1 hc w1 show ?thesis by (auto simp: leaves_def intro!: settledI_halt)
      qed
    qed
  qed
  have "wp (iterM (g_drop g) ?gone) (\<lambda>_. leaves ?k ?gone w) (\<lambda>_ _. True) w"
    using split(1,2) sn by (intro wp_drops_leave [OF assms(1)]) auto
  then show ?thesis
    unfolding settle_def Let_def wp_bindM [of "iterM f xs" for f xs]
    by (rule wp_mono) (use rest in auto)
qed

lemma settled_stuck:
  "ok w' \<Longrightarrow> view w' = view w \<Longrightarrow> v_outcome v \<in> {Outcome_DEFERRED, Outcome_REFUSED} \<Longrightarrow> settled i w v w'"
  by (auto simp: settled_def)

lemma only_live:
  assumes "probed [Probe_APPROVED, Probe_CANCELLED, Probe_UNVERIFIABLE, Probe_BINDING_MISMATCH] sn = []"
  shows "\<forall>(r, p) \<in> set sn. p \<in> {Probe_BOUND_PENDING, Probe_MISSING}"
proof clarify
  fix r p assume "(r, p) \<in> set sn" "p \<noteq> Probe_BOUND_PENDING"
  with assms show "p = Probe_MISSING"
    by (cases p) (auto simp: probed_def filter_empty_conv)
qed

lemma no_probed: "probed ps sn = [] \<Longrightarrow> set qs \<subseteq> set ps \<Longrightarrow> probed qs sn = []"
  by (auto simp: probed_def filter_empty_conv)

lemma st_decide_snapshot:
  assumes "ok w" and "good i" and "map fst sn = view w (in_key i)"
  shows "wp (decide_snapshot g j now i sn) (settled i w) (\<lambda>_ _. True) w"
proof (cases "probed [Probe_APPROVED, Probe_CANCELLED, Probe_UNVERIFIABLE, Probe_BINDING_MISMATCH] sn = []")
  case True
  note no_probed = no_probed [OF this]
  from True have live: "\<forall>(r, p) \<in> set sn. p \<in> {Probe_BOUND_PENDING, Probe_MISSING}"
    by (rule only_live)
  then have "decide_snapshot g j now i sn = settle g j now i sn"
    using no_probed by (simp add: decide_snapshot_def Let_def)
  with st_settle [OF assms live] show ?thesis by simp
next
  case False
  then have "probed [Probe_APPROVED, Probe_CANCELLED] sn \<noteq> [] \<or> probed [Probe_UNVERIFIABLE] sn \<noteq> []
      \<or> probed [Probe_BINDING_MISMATCH] sn \<noteq> []"
    by (auto simp: probed_def filter_empty_conv)
  then show ?thesis
    using settled_stuck [OF assms(1) refl] by (auto simp: decide_snapshot_def verdict0_def Let_def)
qed

lemma settled_shift:
  assumes "settled i w1 v w'" and "view w1 = view w" and "ok w' \<Longrightarrow> ok w'' \<and> view w'' = view w'"
  shows "settled i w v w''"
  using assms by (cases "v_outcome v") (simp_all add: settled_def)

lemma st_owned_request:
  assumes "ok w" and "good i"
  shows "wp (owned_request g j now i owned) (settled i w) (\<lambda>_ _. True) w"
proof (cases owned)
  case False
  then show ?thesis using settled_stuck [OF assms(1) refl] by (simp add: owned_request_def verdict0_def)
next
  case True
  let ?read = "catchM (bindM (g_outstanding g (in_key i)) (\<lambda>rs. ret (Some rs)))
                     (\<lambda>e. if e = ApprovalRecordsError then Some (ret None) else None)"
  have read: "wp ?read (\<lambda>out w'. ok w' \<and> view w' = view w \<and>
       (case out of None \<Rightarrow> True | Some rs \<Rightarrow> rs = view w (in_key i))) (\<lambda>_ _. True) w1"
    if w1: "ok w1" "view w1 = view w" for w1
  proof -
    have "wp (g_outstanding g (in_key i)) (\<lambda>rs w'. ok w' \<and> view w' = view w \<and> rs = view w (in_key i))
        (\<lambda>_ w'. ok w' \<and> view w' = view w) w1"
      using w1 outstanding_view [OF w1(1)] keepsD [OF outstanding_keeps w1(1)] by (intro wp_I) auto
    then show ?thesis
      unfolding wp_catchM wp_bindM by (rule wp_mono) auto
  qed
  show ?thesis
    unfolding owned_request_def if_not_P [OF not_not [THEN iffD2, OF True]] wp_bindM [of "j_outstanding j k" for k]
  proof (rule wp_keeps [OF reservation_keeps assms(1)], goal_cases)
    case (1 res w1)
    note w1 = this
    show ?case
    proof (cases "res = None")
      case False
      then show ?thesis using settled_stuck [OF w1] by (simp add: verdict0_def)
    next
      case True
      have "wp (bindM ?read (\<lambda>out. case out of
            None \<Rightarrow> ret (verdict0 Outcome_REFUSED (Some Reason_STORE_UNREADABLE))
          | Some rs \<Rightarrow> bindM (snapshot_of g rs) (decide_snapshot g j now i))) (settled i w) (\<lambda>_ _. True) w1"
        unfolding wp_bindM [of ?read]
      proof (rule wp_mono [OF read [OF w1]], goal_cases)
        case (1 out w2)
        show ?case
        proof (cases out)
          case None
          with 1 show ?thesis using settled_stuck [of w2 w] by (simp add: verdict0_def)
        next
          case (Some rs)
          with 1 have w2: "ok w2" "view w2 = view w" "rs = view w2 (in_key i)" by auto
          show ?thesis
            unfolding Some option.case wp_bindM
          proof (rule wp_mono [OF st_snapshot [OF w2(1)]], goal_cases)
            case (1 sn w3)
            with w2 show ?case
              by (intro wp_mono [OF st_decide_snapshot [OF _ assms(2)]]) (auto elim!: settled_shift)
          qed simp
        qed
      qed simp
      with True show ?thesis by simp
    qed
  qed simp
qed

lemma wp_request:
  assumes "ok w" and "good i"
  shows "wp (request_owner_approval g l j now i) (settled i w) (\<lambda>_ _. True) w"
  unfolding request_owner_approval_def with_lease_def wp_bindM [of "l_enter l k" for k] wp_finallyM
proof (rule wp_keeps [OF enter_keeps assms(1)], goal_cases)
  case (1 owned w1)
  show ?case
    by (rule wp_mono [OF st_owned_request [OF 1(1) assms(2)]])
      (use 1 exit_keeps in \<open>auto elim!: settled_shift\<close>)
qed simp

lemma request_settles:
  "ok w \<Longrightarrow> good i \<Longrightarrow> request_owner_approval g l j now i w = (Inr v, w') \<Longrightarrow> settled i w v w'"
  by (rule wp_D1 [OF wp_request])

end

end
