(* ===== verification/DriveArchive.thy ===== *)
theory DriveArchive
  imports DriveDigest ExternalEffectGate ApprovalStore
begin

text \<open>
  The drive archive: \<open>approval_adapter.py\<close> (the gate behind the facade), \<open>confirm.py\<close>,
  \<open>approval.py\<close>, \<open>confirm_reaction_watch.py\<close> (the watcher), \<open>gate_binding.py\<close>, \<open>uploader.py\<close> and the
  upload and request commands of \<open>sync_cli.py\<close>. The world is the host of the leases and journals, the
  pending directory, the upload cursor, the receipts, the approval log and what lies outside the
  machine, on which the Discord transport and the Drive client act; both are arguments.
\<close>

section \<open>The world\<close>

record 'm drive_world =
  dr_host :: host
  dr_pending :: pending_dir
  dr_cursor :: file_read
  dr_receipts :: "json list"
  dr_log :: approval_log
  dr_outside :: 'm

definition outside :: "('m, exn, 'a) eff \<Rightarrow> ('m drive_world, exn, 'a) eff" where
  "outside m w = (case m (dr_outside w) of (r, o') \<Rightarrow> (r, w\<lparr>dr_outside := o'\<rparr>))"

definition on_pending :: "(pending_dir \<Rightarrow> exn + pending_dir) \<Rightarrow> ('m drive_world, exn, unit) eff" where
  "on_pending f w = (case f (dr_pending w) of
      Inl e \<Rightarrow> (Inl e, w)
    | Inr d \<Rightarrow> (Inr (), w\<lparr>dr_pending := d\<rparr>))"

definition read_pending_dir :: "(pending_dir \<Rightarrow> exn + 'a) \<Rightarrow> ('m drive_world, exn, 'a) eff" where
  "read_pending_dir f w = (f (dr_pending w), w)"

section \<open>Transport and reactions\<close>

record 'm transport =
  tr_content :: "ustr \<Rightarrow> ('m, exn, ustr) eff"
  tr_reaction_users :: "ustr \<Rightarrow> ustr \<Rightarrow> ('m, exn, (ustr \<times> bool) list) eff"
  tr_post :: "ustr \<Rightarrow> ('m, exn, ustr) eff"
  tr_add_reaction :: "ustr \<Rightarrow> ustr \<Rightarrow> ('m, exn, unit) eff"
  tr_delete :: "ustr \<Rightarrow> ('m, exn, unit) eff"
  tr_dm :: "ustr \<Rightarrow> ustr \<Rightarrow> ('m, exn, ustr) eff"

definition APPROVE_EMOJI :: ustr where "APPROVE_EMOJI = [9989]"

definition CANCEL_EMOJI :: ustr where "CANCEL_EMOJI = [9940]"

definition owner_reacted :: "(ustr \<times> bool) list \<Rightarrow> ustr \<Rightarrow> bool" where
  "owner_reacted users owner_id \<longleftrightarrow> list_ex (\<lambda>(user_id, bot). user_id = owner_id \<and> \<not> bot) users"

datatype reaction_verdict = Decision_PENDING | Decision_APPROVED | Decision_CANCELLED | Decision_INVALID

definition reaction_decision ::
    "pending_batch \<Rightarrow> ustr \<Rightarrow> 'm transport \<Rightarrow> ('m, exn, reaction_verdict) eff" where
  "reaction_decision pending owner_id tr =
     bindM (tr_content tr (pb_message_id pending)) (\<lambda>content.
       if \<not> contains content (pb_action_hash pending) then ret Decision_INVALID
       else bindM (tr_reaction_users tr (pb_message_id pending) CANCEL_EMOJI) (\<lambda>cancelled.
         if owner_reacted cancelled owner_id then ret Decision_CANCELLED
         else bindM (tr_reaction_users tr (pb_message_id pending) APPROVE_EMOJI) (\<lambda>approved.
           if owner_reacted approved owner_id then ret Decision_APPROVED else ret Decision_PENDING)))"

section \<open>The approval gate\<close>

definition transport_error :: "exn \<Rightarrow> bool" where
  "transport_error e \<longleftrightarrow> e \<in> {DiscordError, OSError, JSONDecodeError, KeyError, TypeError}"

definition surface_errors :: "('m, exn, 'a) eff \<Rightarrow> ('m, exn, 'a) eff" where
  "surface_errors m = catchM m (\<lambda>e. if transport_error e then Some (raise_exn ApprovalSurfaceError) else None)"

record drive_payload =
  dp_batch :: batch_manifest
  dp_target_id :: ustr
  dp_root_name :: ustr
  dp_tracked :: "ustr set"

record 'm drive_gate =
  ga_py :: py
  ga_transport :: "'m transport"
  ga_owner_id :: ustr
  ga_channel_id :: ustr
  ga_payload :: drive_payload

definition approval_key :: "ustr \<Rightarrow> ustr" where
  "approval_key project = lit ''drive:'' @ project"

definition removeprefix :: "ustr \<Rightarrow> ustr \<Rightarrow> ustr" where
  "removeprefix s p = (if starts_with s p then drop (length p) s else s)"

definition request_of :: "ustr \<Rightarrow> ustr \<Rightarrow> pending_batch \<Rightarrow> request" where
  "request_of key channel_id p = \<lparr>rq_key = key, rq_action_hash = pb_action_hash p,
     rq_message_id = pb_message_id p, rq_channel_id = channel_id, rq_created_at = pb_created_at p\<rparr>"

definition drive_outstanding :: "'m drive_gate \<Rightarrow> ustr \<Rightarrow> ('m drive_world, exn, request list) eff" where
  "drive_outstanding ga key =
     (if \<not> starts_with key (lit ''drive:'') then raise_exn ApprovalRecordsError
      else let project = removeprefix key (lit ''drive:'') in
        bindM (read_pending_dir (all_strict (ga_py ga))) (\<lambda>ps.
          ret (map (request_of key (ga_channel_id ga)) (filter (\<lambda>p. pb_project p = project) ps))))"

definition drive_probe :: "'m drive_gate \<Rightarrow> request \<Rightarrow> ('m, exn, probe) eff" where
  "drive_probe ga r =
     bindM (surface_errors (
       bindM (tr_content (ga_transport ga) (rq_message_id r)) (\<lambda>content.
         if content = [] then ret (Inl Probe_MISSING)
         else if \<not> contains content (rq_action_hash r) then ret (Inl Probe_BINDING_MISMATCH)
         else bindM (tr_reaction_users (ga_transport ga) (rq_message_id r) CANCEL_EMOJI) (\<lambda>cancelled.
           bindM (tr_reaction_users (ga_transport ga) (rq_message_id r) APPROVE_EMOJI) (\<lambda>approved.
             ret (Inr (cancelled, approved)))))))
       (\<lambda>out. case out of
          Inl p \<Rightarrow> ret p
        | Inr (cancelled, approved) \<Rightarrow>
            if owner_reacted cancelled (ga_owner_id ga) then ret Probe_CANCELLED
            else if owner_reacted approved (ga_owner_id ga) then ret Probe_APPROVED
            else ret Probe_BOUND_PENDING)"

definition drive_delete :: "'m drive_gate \<Rightarrow> request \<Rightarrow> ('m, exn, unit) eff" where
  "drive_delete ga r = surface_errors (tr_delete (ga_transport ga) (rq_message_id r))"

fun first_triple :: "ustr \<times> ustr \<times> ustr \<Rightarrow> pending_batch list \<Rightarrow> pending_batch option" where
  "first_triple expected [] = None"
| "first_triple expected (p # ps) = (if triple p = expected then Some p else first_triple expected ps)"

definition drive_drop :: "'m drive_gate \<Rightarrow> request \<Rightarrow> ('m drive_world, exn, unit) eff" where
  "drive_drop ga r =
     (let expected = (rq_action_hash r, rq_message_id r, removeprefix (rq_key r) (lit ''drive:'')) in
      bindM (read_pending_dir (all_strict (ga_py ga))) (\<lambda>ps.
        case first_triple expected ps of
          None \<Rightarrow> ret ()
        | Some p \<Rightarrow> on_pending (store_drop (ga_py ga) p)))"

definition drive_post :: "'m drive_gate \<Rightarrow> intent \<Rightarrow> ('m, exn, posted) eff" where
  "drive_post ga i =
     (let text = render \<lparr>dg_manifest = dp_batch (ga_payload ga), dg_action_hash = in_action_hash i,
            dg_root_name = dp_root_name (ga_payload ga), dg_tracked = dp_tracked (ga_payload ga)\<rparr> in
      bindM (surface_errors (
        bindM (tr_post (ga_transport ga) text) (\<lambda>message_id.
        bindM (tr_add_reaction (ga_transport ga) message_id APPROVE_EMOJI) (\<lambda>_.
        bindM (tr_add_reaction (ga_transport ga) message_id CANCEL_EMOJI) (\<lambda>_. ret message_id)))))
      (\<lambda>message_id. ret \<lparr>po_message_id = message_id, po_channel_id = in_channel_id i\<rparr>))"

definition committed :: "'m drive_gate \<Rightarrow> intent \<Rightarrow> posted \<Rightarrow> ustr \<Rightarrow> exn + pending_batch" where
  "committed ga i po created_at =
     bindE (required_surface Kind_DRIVE_ARCHIVE) (\<lambda>s.
       Inr \<lparr>pb_action_hash = in_action_hash i, pb_target_id = dp_target_id (ga_payload ga),
         pb_message_id = po_message_id po, pb_project = bm_project (dp_batch (ga_payload ga)),
         pb_created_at = created_at, pb_files = bm_files (dp_batch (ga_payload ga)),
         pb_kind = kind_value Kind_DRIVE_ARCHIVE, pb_surface = surface_value s,
         pb_channel_id = po_channel_id po, pb_policy_version = POLICY_VERSION\<rparr>)"

definition drive_commit :: "'m drive_gate \<Rightarrow> intent \<Rightarrow> posted \<Rightarrow> ustr \<Rightarrow> ('m drive_world, exn, unit) eff" where
  "drive_commit ga i po created_at =
     bindM (liftE (committed ga i po created_at)) (\<lambda>p. on_pending (\<lambda>d. Inr (store_put p d)))"

definition drive_gate_ops :: "'m drive_gate \<Rightarrow> 'm drive_world gate" where
  "drive_gate_ops ga = \<lparr>
     g_outstanding = drive_outstanding ga,
     g_probe = (\<lambda>r. outside (drive_probe ga r)),
     g_delete = (\<lambda>r. outside (drive_delete ga r)),
     g_drop = drive_drop ga,
     g_post = (\<lambda>i. outside (drive_post ga i)),
     g_commit = drive_commit ga\<rparr>"

text \<open>\<open>FileKeyLease\<close> and \<open>PostingJournal\<close> on the host of the world.\<close>

definition on_host :: "(host \<Rightarrow> 'a \<times> host) \<Rightarrow> ('m drive_world, exn, 'a) eff" where
  "on_host f w = (case f (dr_host w) of (x, h) \<Rightarrow> (Inr x, w\<lparr>dr_host := h\<rparr>))"

definition drive_lease :: "'m drive_world lease" where
  "drive_lease = \<lparr>l_enter = (\<lambda>k. on_host (lease_enter k)),
     l_exit = (\<lambda>owned k w. w\<lparr>dr_host := lease_exit owned k (dr_host w)\<rparr>)\<rparr>"

definition drive_journal :: "py \<Rightarrow> 'm drive_world journal" where
  "drive_journal py = \<lparr>
     j_outstanding = (\<lambda>k w. (journal_outstanding (py_str py) k (dr_host w), w)),
     j_reserve = (\<lambda>k ah c. on_host (\<lambda>h. ((), journal_reserve k ah c h))),
     j_clear = (\<lambda>k. on_host (\<lambda>h. ((), journal_clear k h)))\<rparr>"

section \<open>The gate provides the store contract\<close>

definition drive_view :: "'m drive_gate \<Rightarrow> 'm drive_world \<Rightarrow> ustr \<Rightarrow> request list" where
  "drive_view ga w key =
     (if starts_with key (lit ''drive:'')
      then map (request_of key (ga_channel_id ga))
             (filter (\<lambda>p. pb_project p = removeprefix key (lit ''drive:'')) (records (ga_py ga) (dr_pending w)))
      else [])"

definition drive_ok :: "'m drive_gate \<Rightarrow> 'm drive_world \<Rightarrow> bool" where
  "drive_ok ga w \<longleftrightarrow> stored (ga_py ga) (dr_pending w)"

definition own_intent :: "'m drive_gate \<Rightarrow> intent \<Rightarrow> bool" where
  "own_intent ga i \<longleftrightarrow> in_key i = approval_key (bm_project (dp_batch (ga_payload ga)))"

lemma drive_view_cong: "dr_pending w' = dr_pending w \<Longrightarrow> drive_view ga w' = drive_view ga w"
  by (rule ext) (simp add: drive_view_def)

lemma keeps_pending:
  "(\<And>w r w'. m w = (r, w') \<Longrightarrow> dr_pending w' = dr_pending w) \<Longrightarrow> keeps (drive_ok ga) (drive_view ga) m"
  unfolding drive_ok_def by (rule keepsI) (metis drive_view_cong)

lemma outside_pending: "outside m w = (r, w') \<Longrightarrow> dr_pending w' = dr_pending w"
  by (auto simp: outside_def split: prod.splits)

lemma on_host_pending: "on_host f w = (r, w') \<Longrightarrow> dr_pending w' = dr_pending w"
  by (auto simp: on_host_def split: prod.splits)

lemma removeprefix_key [simp]: "removeprefix (approval_key p) (lit ''drive:'') = p"
  by (simp add: removeprefix_def approval_key_def starts_with_def)

lemma starts_key [simp]: "starts_with (approval_key p) (lit ''drive:'')"
  by (simp add: approval_key_def starts_with_def)

lemma first_triple_Some: "first_triple t ps = Some p \<Longrightarrow> p \<in> set ps \<and> triple p = t"
  by (induction t ps rule: first_triple.induct) (auto split: if_splits)

lemma first_triple_None: "first_triple t ps = None \<Longrightarrow> \<forall>p \<in> set ps. triple p \<noteq> t"
  by (induction t ps rule: first_triple.induct) (auto split: if_splits)

lemma drive_view_in:
  "q \<in> set (drive_view ga w k) \<Longrightarrow> starts_with k (lit ''drive:'') \<and> (\<exists>p \<in> set (records (ga_py ga) (dr_pending w)).
     q = request_of k (ga_channel_id ga) p \<and> pb_project p = removeprefix k (lit ''drive:''))"
  by (auto simp: drive_view_def split: if_splits)

lemma distinct_view:
  assumes "drive_ok ga w"
  shows "distinct (drive_view ga w k)"
proof -
  have "inj_on (request_of k (ga_channel_id ga)) (set (records (ga_py ga) (dr_pending w)))"
  proof (rule inj_onI)
    fix p q
    assume *: "p \<in> set (records (ga_py ga) (dr_pending w))" "q \<in> set (records (ga_py ga) (dr_pending w))"
      "request_of k (ga_channel_id ga) p = request_of k (ga_channel_id ga) q"
    from *(3) have "pb_action_hash p = pb_action_hash q" by (simp add: request_of_def)
    with distinct_records [OF assms [unfolded drive_ok_def]] *(1,2) show "p = q"
      by (simp add: distinct_map inj_on_def)
  qed
  then have "inj_on (request_of k (ga_channel_id ga))
      (set (filter (\<lambda>p. pb_project p = removeprefix k (lit ''drive:'')) (records (ga_py ga) (dr_pending w))))"
    by (rule inj_on_subset) auto
  then show ?thesis
    using distinct_records [OF assms [unfolded drive_ok_def]] by (simp add: drive_view_def distinct_map)
qed

lemma drive_drop_view:
  assumes ok: "drive_ok ga w" and run: "drive_drop ga q w = (Inr u, w')" and q: "q \<in> set (drive_view ga w (rq_key q))"
  shows "drive_ok ga w' \<and> drive_view ga w' (rq_key q) = filter (\<lambda>r. r \<noteq> q) (drive_view ga w (rq_key q))"
proof -
  let ?py = "ga_py ga" and ?d = "dr_pending w" and ?k = "rq_key q"
  from drive_view_in [OF q] obtain p where k: "starts_with ?k (lit ''drive:'')" and p: "p \<in> set (records ?py ?d)"
    "q = request_of ?k (ga_channel_id ga) p" "pb_project p = removeprefix ?k (lit ''drive:'')" by blast
  from run obtain ps where ps: "all_strict ?py ?d = Inr ps" and
    rest: "(case first_triple (rq_action_hash q, rq_message_id q, removeprefix ?k (lit ''drive:'')) ps of
        None \<Rightarrow> ret () | Some p \<Rightarrow> on_pending (store_drop ?py p)) w = (Inr u, w')"
    by (auto simp: drive_drop_def Let_def read_pending_dir_def run_simps)
  have recs: "ps = records ?py ?d" by (rule all_strict_records [OF ps])
  have tr: "triple p = (rq_action_hash q, rq_message_id q, removeprefix ?k (lit ''drive:''))"
    using p(2,3) by (simp add: triple_def) (metis request_of_def request.select_convs(2,3))
  with p(1) recs obtain p' where f: "first_triple (rq_action_hash q, rq_message_id q, removeprefix ?k (lit ''drive:'')) ps = Some p'"
    using first_triple_None by (metis not_None_eq)
  from first_triple_Some [OF this] tr recs have p': "p' \<in> set (records ?py ?d)" "triple p' = triple p" by auto
  from rest f obtain d' where d': "store_drop ?py p' ?d = Inr d'" and w': "w' = w\<lparr>dr_pending := d'\<rparr>"
    by (auto simp: on_pending_def split: sum.splits)
  have st: "stored ?py ?d" using ok by (simp add: drive_ok_def)
  from store_drop_cases [OF d' st] p' have d'_eq: "d' = store_remove (pb_action_hash p) ?d"
    by (auto simp: triple_def)
  have same: "record_name (pb_action_hash r) \<noteq> record_name (pb_action_hash p) \<longleftrightarrow> request_of ?k (ga_channel_id ga) r \<noteq> q"
    if "r \<in> set (records ?py ?d)" for r
    using same_name_same_record [OF st that p(1)] p(2) by (metis request_of_def request.select_convs(2))
  have "drive_view ga w' ?k = map (request_of ?k (ga_channel_id ga)) (filter (\<lambda>p. pb_project p = removeprefix ?k (lit ''drive:''))
      (filter (\<lambda>r. request_of ?k (ga_channel_id ga) r \<noteq> q) (records ?py ?d)))"
    using k same by (simp add: drive_view_def w' d'_eq records_remove [OF st] cong: filter_cong)
  also have "\<dots> = filter (\<lambda>r. r \<noteq> q) (drive_view ga w ?k)"
    using k by (simp add: drive_view_def filter_map comp_def conj_commute)
  finally show ?thesis using stored_remove [OF st] by (simp add: drive_ok_def w' d'_eq)
qed

lemma drive_commit_view:
  assumes ok: "drive_ok ga w" and i: "own_intent ga i" and run: "drive_commit ga i po c w = (Inr u, w')"
    and empty: "drive_view ga w (in_key i) = []"
  shows "drive_ok ga w' \<and> (\<exists>q. drive_view ga w' (in_key i) = [q] \<and> rq_action_hash q = in_action_hash i
    \<and> rq_message_id q = po_message_id po)"
proof -
  let ?pr = "bm_project (dp_batch (ga_payload ga))"
  have st: "stored (ga_py ga) (dr_pending w)" using ok by (simp add: drive_ok_def)
  from run obtain p where p: "committed ga i po c = Inr p" and w': "w' = w\<lparr>dr_pending := store_put p (dr_pending w)\<rparr>"
    by (auto simp: drive_commit_def run_simps on_pending_def)
  from p have pf: "pb_action_hash p = in_action_hash i" "pb_message_id p = po_message_id po" "pb_project p = ?pr"
    by (auto simp: committed_def)
  have key: "starts_with (in_key i) (lit ''drive:'')" "removeprefix (in_key i) (lit ''drive:'') = ?pr"
    using i by (simp_all add: own_intent_def)
  let ?mine = "filter (\<lambda>p. pb_project p = ?pr) (records (ga_py ga) (dr_pending w'))"
  have none: "\<forall>q \<in> set (records (ga_py ga) (dr_pending w)). pb_project q \<noteq> ?pr"
    using empty key by (auto simp: drive_view_def filter_empty_conv)
  have st': "stored (ga_py ga) (dr_pending w')" using stored_put [OF st] by (simp add: w')
  have "set ?mine = {p}"
    using records_put [OF st, of p] none pf(3) by (auto simp: w')
  moreover have "distinct ?mine"
    using distinct_records [OF st'] by (simp add: distinct_map)
  ultimately have "?mine = [p]" by (rule distinct_single [rotated])
  then have "drive_view ga w' (in_key i) = [request_of (in_key i) (ga_channel_id ga) p]"
    using key by (simp add: drive_view_def)
  with st' pf show ?thesis by (simp add: drive_ok_def request_of_def)
qed

interpretation drive: approval_store "drive_gate_ops ga" drive_lease "drive_journal (ga_py ga)"
  "own_intent ga" "drive_ok ga" "drive_view ga" "\<lambda>_. True"
proof (unfold_locales, goal_cases)
  case (1 k)
  show ?case
    by (rule keeps_pending) (auto simp: drive_gate_ops_def drive_outstanding_def Let_def read_pending_dir_def eff_simps
        split: if_splits sum.splits)
next
  case (2 w k rs w')
  then show ?case
    by (auto simp: drive_gate_ops_def drive_outstanding_def Let_def read_pending_dir_def run_simps drive_view_def
        split: if_splits dest: all_strict_records)
next
  case (3 q)
  show ?case by (rule keeps_pending) (simp add: drive_gate_ops_def outside_pending)
next
  case (4 q)
  show ?case by (rule keeps_pending) (simp add: drive_gate_ops_def outside_pending)
next
  case (5 i)
  show ?case by (rule keeps_pending) (simp add: drive_gate_ops_def outside_pending)
next
  case (6 w i p w')
  show ?case ..
next
  case (7 w q k)
  then show ?case by (auto dest!: drive_view_in simp: request_of_def)
next
  case (8 w k)
  then show ?case by (rule distinct_view)
next
  case (9 w q u w')
  then show ?case unfolding drive_gate_ops_def gate.simps by (intro drive_drop_view)
next
  case (10 w i p c u w')
  then show ?case unfolding drive_gate_ops_def gate.simps by (intro drive_commit_view)
next
  case (11 k)
  show ?case by (rule keeps_pending) (simp add: drive_lease_def on_host_pending)
next
  case (12 w b k)
  then show ?case by (simp add: drive_lease_def drive_ok_def drive_view_def fun_eq_iff)
next
  case (13 k)
  show ?case by (rule keeps_pending) (simp add: drive_journal_def)
next
  case (14 k a c)
  show ?case by (rule keeps_pending) (simp add: drive_journal_def on_host_pending)
next
  case (15 k)
  show ?case by (rule keeps_pending) (simp add: drive_journal_def on_host_pending)
qed

end
