(* ===== verification/DriveUpload.thy ===== *)
theory DriveUpload
  imports DriveArchive
begin

text \<open>
  The effects of the drive archive: the approval record the watcher writes, the reaction watcher, the
  gated and resumable upload, and the \<open>request\<close> and \<open>upload\<close> commands. What the commands print is not
  modelled. Seconds since the epoch stand for \<open>datetime\<close>; parsing and formatting of time stamps are
  arguments.
\<close>

section \<open>approval.py and gate\_binding.py\<close>

definition append_record :: "json \<Rightarrow> ('m drive_world, exn, unit) eff" where
  "append_record r w = (case append_log (dr_log w) r of
      Inl e \<Rightarrow> (Inl e, w)
    | Inr l \<Rightarrow> (Inr (), w\<lparr>dr_log := l\<rparr>))"

definition manual_record :: "pending_batch \<Rightarrow> ustr \<Rightarrow> ustr \<Rightarrow> json" where
  "manual_record p owner_id stamp =
     approval_record (lit ''manual_reaction'') (pb_message_id p) owner_id (pb_action_hash p) (pb_target_id p) stamp"

definition write_manual_reaction :: "pending_batch \<Rightarrow> ustr \<Rightarrow> ustr \<Rightarrow> ('m drive_world, exn, unit) eff" where
  "write_manual_reaction p owner_id stamp = append_record (manual_record p owner_id stamp)"

definition TOOL_NAME :: ustr where
  "TOOL_NAME = lit ''drive_archive.batch_upload''"

definition build_tool_call :: "batch_manifest \<Rightarrow> tool_call" where
  "build_tool_call b = \<lparr>tc_tool_name = TOOL_NAME, tc_arguments = to_arguments b\<rparr>"

text \<open>\<open>evaluate\<close>: the log is the world's, the denylist has been loaded.\<close>

definition evaluate_batch ::
    "tools \<Rightarrow> rule list \<Rightarrow> ustr \<Rightarrow> bool \<Rightarrow> batch_manifest \<Rightarrow> ('m drive_world, exn, decision) eff" where
  "evaluate_batch tk rules owner_id e2e b w =
     (evaluate_tool_call tk (build_tool_call b) rules
        \<lparr>ac_approval_log = Some (dr_log w), ac_owner_id = owner_id, ac_e2e_test_mode = e2e\<rparr>, w)"

section \<open>The watcher\<close>

record 'm drive_watcher =
  wa_py :: py
  wa_transport_at :: "ustr option \<Rightarrow> 'm transport"
  wa_run :: "pending_batch \<Rightarrow> ('m drive_world, exn, bool) eff"
  wa_owner_id :: ustr
  wa_now :: "'m drive_world \<Rightarrow> int"
  wa_parse_created :: "ustr \<Rightarrow> int option"
  wa_stamp :: "int \<Rightarrow> ustr"

definition APPROVAL_TTL :: int where
  "APPROVAL_TTL = 24 * 60 * 60"

text \<open>\<open>_bound\<close>: the channel the record names, or the configured transport (None).\<close>

definition bound_transport :: "'m drive_watcher \<Rightarrow> pending_batch \<Rightarrow> 'm transport" where
  "bound_transport wa p = wa_transport_at wa (if pb_channel_id p = [] then None else Some (pb_channel_id p))"

definition notify :: "'m drive_watcher \<Rightarrow> pending_batch \<Rightarrow> ustr \<Rightarrow> ('m drive_world, exn, unit) eff" where
  "notify wa p rsn = outside (catchM
     (bindM (tr_delete (bound_transport wa p) (pb_message_id p)) (\<lambda>_.
      bindM (tr_dm (bound_transport wa p) (wa_owner_id wa)
        ([9940] @ lit '' Drive '' @ [50500, 52852, 51060, 48652] @ lit '' '' @ [48176, 52824] @ lit '' '' @ rsn @ lit '' '' @ [8212] @ lit '' hash '' @ pb_action_hash p)) (\<lambda>_. ret ())))
     (\<lambda>e. if e = OSError \<or> e = DiscordError then Some (ret ()) else None))"

definition discard :: "'m drive_watcher \<Rightarrow> pending_batch \<Rightarrow> ustr \<Rightarrow> ('m drive_world, exn, unit) eff" where
  "discard wa p rsn = bindM (on_pending (store_drop (wa_py wa) p)) (\<lambda>_. notify wa p rsn)"

definition approve :: "'m drive_watcher \<Rightarrow> pending_batch \<Rightarrow> ('m drive_world, exn, unit) eff" where
  "approve wa p = bindM (\<lambda>w. write_manual_reaction p (wa_owner_id wa) (wa_stamp wa (wa_now wa w)) w) (\<lambda>_.
     bindM (wa_run wa p) (\<lambda>done_ok. if done_ok then ret () else raise_exn UploadIncompleteError))"

fun probe_of_decision :: "reaction_verdict \<Rightarrow> probe" where
  "probe_of_decision Decision_APPROVED = Probe_APPROVED"
| "probe_of_decision Decision_CANCELLED = Probe_CANCELLED"
| "probe_of_decision Decision_PENDING = Probe_BOUND_PENDING"
| "probe_of_decision Decision_INVALID = Probe_BINDING_MISMATCH"

definition pending_decision :: "'m drive_watcher \<Rightarrow> pending_batch \<Rightarrow> 'm drive_world watcher" where
  "pending_decision wa p = \<lparr>
     dw_probe = (\<lambda>_. outside (bindM (reaction_decision p (wa_owner_id wa) (bound_transport wa p))
                               (\<lambda>d. ret (probe_of_decision d)))),
     dw_apply = (\<lambda>_ d. case d of
         Probe_APPROVED \<Rightarrow> approve wa p
       | Probe_CANCELLED \<Rightarrow> discard wa p (lit ''owner_cancelled'')
       | _ \<Rightarrow> raise_exn AssertionError),
     dw_drop = (\<lambda>_. on_pending (store_drop (wa_py wa) p))\<rparr>"

definition watch_request :: "pending_batch \<Rightarrow> request" where
  "watch_request p = request_of (approval_key (pb_project p)) (pb_channel_id p) p"

definition process :: "'m drive_watcher \<Rightarrow> pending_batch \<Rightarrow> ('m drive_world, exn, unit) eff" where
  "process wa p w = (case wa_parse_created wa (pb_created_at p) of
      None \<Rightarrow> (Inl ValueError, w)
    | Some created \<Rightarrow>
        if wa_now wa w - created \<ge> APPROVAL_TTL then
          with_lease drive_lease (rq_key (watch_request p)) (\<lambda>owned.
            if owned then discard wa p (lit ''approval_expired'') else ret ()) w
        else
          catchM (bindM (resolve_owner_decision (pending_decision wa p) drive_lease (watch_request p)) (\<lambda>_. ret ()))
            (\<lambda>e. if e = UploadIncompleteError then Some (ret ()) else None) w)"

definition isolated :: "exn \<Rightarrow> bool" where
  "isolated e \<longleftrightarrow> e = OSError \<or> runtime_error e \<or> value_error e"

definition run_once :: "'m drive_watcher \<Rightarrow> ('m drive_world, exn, unit) eff" where
  "run_once wa = bindM (read_pending_dir (store_all (wa_py wa))) (\<lambda>ps.
     iterM (\<lambda>p. catchM (process wa p) (\<lambda>e. if isolated e then Some (ret ()) else None)) ps)"

section \<open>The upload\<close>

record upserted =
  us_id :: ustr
  us_link :: ustr
  us_action :: ustr

record 'm drive_client =
  dc_ensure_folder_path :: "ustr list \<Rightarrow> ('m, exn, ustr) eff"
  dc_upsert_file :: "ustr \<Rightarrow> ustr \<Rightarrow> ustr \<Rightarrow> ('m, exn, upserted) eff"

record 'm upload_env =
  ue_py :: py
  ue_tools :: tools
  ue_rules :: "rule list"
  ue_owner_id :: ustr
  ue_e2e :: bool
  ue_root_name :: ustr
  ue_disk :: "'m \<Rightarrow> ustr \<Rightarrow> exn + ustr"
  ue_client :: "'m drive_client"
  ue_stamp :: "'m drive_world \<Rightarrow> ustr"
  ue_transport :: "'m transport"

definition posix_name :: "ustr \<Rightarrow> ustr" where
  "posix_name rel = (let ps = filter (\<lambda>p. p \<noteq> [] \<and> p \<noteq> lit ''.'') (split_slash_aux [] rel) in
     if ps = [] then [] else last ps)"

definition receipt_json :: "file_entry \<Rightarrow> upserted \<Rightarrow> ustr \<Rightarrow> json" where
  "receipt_json e u stamp = JObj
     [(lit ''path'', JStr (fe_path e)), (lit ''file_id'', JStr (us_id u)),
      (lit ''web_view_link'', JStr (us_link u)), (lit ''action'', JStr (us_action u)),
      (lit ''sha256'', JStr (fe_sha256 e)), (lit ''timestamp'', JStr stamp)]"

definition append_receipts :: "json list \<Rightarrow> ('m drive_world, exn, unit) eff" where
  "append_receipts rs w = (Inr (), w\<lparr>dr_receipts := dr_receipts w @ rs\<rparr>)"

definition advance :: "py \<Rightarrow> file_entry list \<Rightarrow> ('m drive_world, exn, unit) eff" where
  "advance py es w = (case advance_cursor py (dr_cursor w) es of
      Inl e \<Rightarrow> (Inl e, w)
    | Inr f \<Rightarrow> (Inr (), w\<lparr>dr_cursor := f\<rparr>))"

text \<open>The body of the upload loop for one file, and the loop; \<open>cursor\<close> is the one read at the start.\<close>

definition upload_file ::
    "'m upload_env \<Rightarrow> ustr \<Rightarrow> file_entry \<Rightarrow> ('m drive_world, exn, json) eff" where
  "upload_file ue stamp e =
     bindM (outside (dc_ensure_folder_path (ue_client ue) (route_parts (ue_root_name ue) (fe_path e)))) (\<lambda>folder.
     bindM (outside (dc_upsert_file (ue_client ue) (fe_path e) (posix_name (fe_path e)) folder)) (\<lambda>u.
     bindM (append_receipts [receipt_json e u stamp]) (\<lambda>_.
     bindM (advance (ue_py ue) [e]) (\<lambda>_.
       ret (receipt_json e u stamp)))))"

fun upload_loop ::
    "'m upload_env \<Rightarrow> ustr \<Rightarrow> cursor \<Rightarrow> json list \<Rightarrow> file_entry list \<Rightarrow> ('m drive_world, exn, json list) eff" where
  "upload_loop ue stamp cur receipts [] = ret receipts"
| "upload_loop ue stamp cur receipts (e # es) =
     (if dict_get cur (fe_path e) = Some (fe_sha256 e) then upload_loop ue stamp cur receipts es
      else bindM (upload_file ue stamp e) (\<lambda>r. upload_loop ue stamp cur (receipts @ [r]) es))"

definition upload_manifest :: "'m upload_env \<Rightarrow> pending_batch \<Rightarrow> 'm drive_world \<Rightarrow> exn + batch_manifest" where
  "upload_manifest ue p w =
     (case build_manifest (ue_disk ue (dr_outside w)) (pb_project p) (map fe_path (pb_files p)) of
        Inl e \<Rightarrow> Inl (if e = OSError then DriveArchiveError else e)
      | Inr m \<Rightarrow> Inr m)"

definition upload_batch :: "'m upload_env \<Rightarrow> pending_batch \<Rightarrow> ('m drive_world, exn, json list) eff" where
  "upload_batch ue p w =
     bindM (liftE (upload_manifest ue p w)) (\<lambda>current.
     bindM (evaluate_batch (ue_tools ue) (ue_rules ue) (ue_owner_id ue) (ue_e2e ue) current) (\<lambda>decision.
       if \<not> de_allowed decision then raise_exn DriveArchiveError
       else bindM (liftE (load_cursor (ue_py ue) (dr_cursor w))) (\<lambda>cur.
         upload_loop ue (ue_stamp ue w) cur [] (bm_files current)))) w"

section \<open>Commands\<close>

definition notify_owner :: "'m upload_env \<Rightarrow> pending_batch \<Rightarrow> json list \<Rightarrow> ('m drive_world, exn, unit) eff" where
  "notify_owner ue p receipts = outside (catchM
     (bindM (tr_dm (ue_transport ue) (ue_owner_id ue) (join [10]
        (([9989] @ lit '' Drive '' @ [50500, 52852, 51060, 48652] @ lit '' '' @ [50629, 47196, 46300] @ lit '' '' @ [50756, 47308] @ lit '' '' @ [8212] @ lit '' '' @ dec_nat (length receipts)
          @ [44148] @ lit '' (project '' @ pb_project p @ lit '')'')
         # map (\<lambda>r. case r of
              JObj kvs \<Rightarrow> lit ''- '' @ get_str (ue_py ue) kvs ''path'' @ lit '': '' @ get_str (ue_py ue) kvs ''web_view_link''
            | _ \<Rightarrow> []) (take 20 receipts)))) (\<lambda>_. ret ()))
     (\<lambda>e. if e = DiscordError \<or> e = OSError then Some (ret ()) else None))"

text \<open>\<open>cmd_upload\<close> returns the exit code.\<close>

definition cmd_upload :: "'m upload_env \<Rightarrow> ustr \<Rightarrow> ('m drive_world, exn, nat) eff" where
  "cmd_upload ue h =
     bindM (read_pending_dir (store_get (ue_py ue) h)) (\<lambda>found. case found of
       None \<Rightarrow> ret 1
     | Some p \<Rightarrow>
         bindM (catchM (bindM (upload_batch ue p) (\<lambda>rs. ret (Some rs)))
                  (\<lambda>e. if e = DriveArchiveError then Some (ret None) else None)) (\<lambda>uploaded. case uploaded of
           None \<Rightarrow> ret 1
         | Some receipts \<Rightarrow>
             bindM (notify_owner ue p receipts) (\<lambda>_.
             bindM (on_pending (\<lambda>d. Inr (store_remove h d))) (\<lambda>_. ret 0))))"

text \<open>\<open>cmd_request\<close>: None is the answer that nothing changed.\<close>

definition cmd_request ::
    "'m upload_env \<Rightarrow> ('m drive_world \<Rightarrow> ustr) \<Rightarrow> ustr \<Rightarrow> ustr list \<Rightarrow> ustr \<Rightarrow> ('m drive_world, exn, verdict option) eff" where
  "cmd_request ue now project scope channel_id w =
     bindM (liftE (build_manifest (ue_disk ue (dr_outside w)) project scope)) (\<lambda>full.
     bindM (liftE (load_cursor (ue_py ue) (dr_cursor w))) (\<lambda>cur.
       let changed = diff full cur in
       if bm_files changed = [] then ret None
       else bindM (evaluate_batch (ue_tools ue) (ue_rules ue) (ue_owner_id ue) (ue_e2e ue) changed) (\<lambda>d.
         let ga = \<lparr>ga_py = ue_py ue, ga_transport = ue_transport ue, ga_owner_id = ue_owner_id ue,
               ga_channel_id = channel_id, ga_payload = \<lparr>dp_batch = changed, dp_target_id = de_target_id d,
                 dp_root_name = ue_root_name ue, dp_tracked = set (dict_keys cur)\<rparr>\<rparr>;
             i = \<lparr>in_key = approval_key (bm_project changed), in_action_hash = de_action_hash d,
               in_channel_id = channel_id\<rparr> in
         bindM (request_owner_approval (drive_gate_ops ga) drive_lease (drive_journal (ue_py ue)) now i)
           (\<lambda>v. ret (Some v))))) w"

end
