(* ===== verification/DriveProperties.thy ===== *)
theory DriveProperties
  imports DriveUpload
begin

text \<open>
  What the drive archive guarantees: the effect of a request on the pending store, what the watcher may
  change and when, that an upload only sends the approved content, and that an interrupted upload
  keeps what it has done.
\<close>

section \<open>The request\<close>

text \<open>C9. The facade over the drive gate. When a request of the gate's own project is answered, the
  pending store is still well formed and: POSTED means exactly one request of the project is
  outstanding, with the intended hash and the posted message; PENDING means the live request named
  in the answer is the only outstanding one with that hash, and was there before; any other answer
  has added nothing.\<close>

theorem drive_request_outcome:
  assumes "drive_ok ga w" and "own_intent ga i"
    and "request_owner_approval (drive_gate_ops ga) drive_lease (drive_journal (ga_py ga)) now i w = (Inr v, w')"
  shows "drive_ok ga w' \<and> (case v_outcome v of
      Outcome_POSTED \<Rightarrow> \<exists>p q. v_posted v = Some p \<and> drive_view ga w' (in_key i) = [q] \<and>
        rq_action_hash q = in_action_hash i \<and> rq_message_id q = po_message_id p
    | Outcome_PENDING \<Rightarrow> \<exists>q. v_live v = Some q \<and> q \<in> set (drive_view ga w (in_key i)) \<and>
        filter (\<lambda>r. rq_action_hash r = in_action_hash i) (drive_view ga w' (in_key i)) = [q]
    | _ \<Rightarrow> set (drive_view ga w' (in_key i)) \<subseteq> set (drive_view ga w (in_key i)))"
  using drive.request_settles [OF assms] by (simp add: drive.settled_def)

definition sample_transport :: "nat transport" where
  "sample_transport = \<lparr>tr_content = (\<lambda>_. ret (lit ''x h1'')), tr_reaction_users = (\<lambda>_ _. ret []),
     tr_post = (\<lambda>_ n. (Inr (lit ''m1''), Suc n)), tr_add_reaction = (\<lambda>_ _. ret ()),
     tr_delete = (\<lambda>_. ret ()), tr_dm = (\<lambda>_ _. ret [])\<rparr>"

definition drive_sample_gate :: "nat drive_gate" where
  "drive_sample_gate = \<lparr>ga_py = sample_py, ga_transport = sample_transport, ga_owner_id = lit ''o'',
     ga_channel_id = lit ''7'', ga_payload = \<lparr>dp_batch = \<lparr>bm_project = lit ''p'', bm_files = []\<rparr>,
       dp_target_id = [], dp_root_name = [], dp_tracked = {}\<rparr>\<rparr>"

definition drive_sample_intent :: intent where
  "drive_sample_intent = \<lparr>in_key = approval_key (lit ''p''), in_action_hash = lit ''h2'', in_channel_id = lit ''7''\<rparr>"

definition sample_world :: "nat drive_world" where
  "sample_world = \<lparr>dr_host = \<lparr>h_locks = {}, h_files = (\<lambda>_. FileMissing), h_audit = []\<rparr>, dr_pending = [],
     dr_cursor = FileMissing, dr_receipts = [], dr_log = LogMissing, dr_outside = 0\<rparr>"

lemmas drive_run_simps = request_owner_approval_def with_lease_def owned_request_def drive_lease_def drive_journal_def
  drive_gate_ops_def on_host_def sample_world_def drive_sample_intent_def drive_sample_gate_def lease_enter_def
  journal_outstanding_def bindM_app finallyM_def catchM_def drive_outstanding_def read_pending_dir_def
  all_strict_def record_files_def ret_app snapshot_of_def decide_snapshot_def settle_def Let_def
  same_requests_def other_requests_def post_new_def journal_reserve_def outside_def drive_post_def
  surface_errors_def sample_transport_def drive_commit_def liftE_def committed_def required_surface_def
  surface_at_policy_def TRANSITIONS_def POLICY_VERSION_def on_pending_def journal_clear_def

theorem drive_request_outcome_witness:
  "\<exists>w' q. request_owner_approval (drive_gate_ops drive_sample_gate) drive_lease (drive_journal (ga_py drive_sample_gate))
       (\<lambda>_. []) drive_sample_intent sample_world
     = (Inr ((verdict0 Outcome_POSTED None)\<lparr>v_posted := Some \<lparr>po_message_id = lit ''m1'', po_channel_id = lit ''7''\<rparr>\<rparr>), w')
     \<and> drive_view drive_sample_gate w' (approval_key (lit ''p'')) = [q] \<and> rq_message_id q = lit ''m1''"
proof -
  obtain w' where run: "request_owner_approval (drive_gate_ops drive_sample_gate) drive_lease (drive_journal (ga_py drive_sample_gate))
       (\<lambda>_. []) drive_sample_intent sample_world
     = (Inr ((verdict0 Outcome_POSTED None)\<lparr>v_posted := Some \<lparr>po_message_id = lit ''m1'', po_channel_id = lit ''7''\<rparr>\<rparr>), w')"
    by (simp add: drive_run_simps verdict0_def)
  have "drive_ok drive_sample_gate sample_world" "own_intent drive_sample_gate drive_sample_intent"
    by (simp_all add: drive_ok_def sample_world_def own_intent_def drive_sample_gate_def drive_sample_intent_def)
  from drive_request_outcome [OF this run] run show ?thesis
    by (simp add: verdict0_def drive_sample_intent_def) blast
qed

section \<open>Only approved content is uploaded\<close>

lemma sort_keys_entry: "sort_keys (entry_json e) = entry_json e"
  by (simp add: entry_json_def) (simp add: lit_def)

lemma sort_keys_arguments:
  "sort_keys (JObj (to_arguments b)) = JObj [(lit ''files'', JArr (map entry_json (sort_key fe_path (bm_files b)))),
     (lit ''project'', JStr (bm_project b))]"
  by (simp add: to_arguments_def sort_keys_list_map comp_def sort_keys_entry) (simp add: lit_def)

lemma entry_json_inject: "entry_json e = entry_json f \<longleftrightarrow> e = f"
  by (cases e; cases f) (simp add: entry_json_def)

lemma to_arguments_inject:
  assumes "sort_keys (JObj (to_arguments a)) = sort_keys (JObj (to_arguments b))"
  shows "bm_project a = bm_project b \<and> sort_key fe_path (bm_files a) = sort_key fe_path (bm_files b)"
proof -
  have "inj entry_json" by (simp add: inj_def entry_json_inject)
  with assms show ?thesis unfolding sort_keys_arguments by (auto dest: map_injective)
qed

lemma float_free_entry: "float_free (entry_json e)"
  by (simp add: entry_json_def)

lemma float_free_batch: "float_free_call (build_tool_call b)"
  by (simp add: float_free_call_def build_tool_call_def to_arguments_def list_all_iff float_free_entry)


text \<open>A digest of one file, approved; the file has changed since.\<close>

definition sample_client :: "nat drive_client" where
  "sample_client = \<lparr>dc_ensure_folder_path = (\<lambda>_. ret (lit ''f'')),
     dc_upsert_file = (\<lambda>_ _ _ n. (Inr \<lparr>us_id = lit ''i'', us_link = lit ''l'', us_action = lit ''create''\<rparr>, Suc n))\<rparr>"

definition sample_env :: "nat upload_env" where
  "sample_env = \<lparr>ue_py = sample_py, ue_tools = \<lparr>search = (\<lambda>_ _. True), sha256 = (\<lambda>s. s), float_repr = (\<lambda>_. [])\<rparr>,
     ue_rules = sample_rules, ue_owner_id = lit ''o'', ue_e2e = False, ue_root_name = lit ''root'',
     ue_disk = (\<lambda>_ rel. if rel = lit ''a.md'' then Inr (lit ''new'') else Inl OSError),
     ue_client = sample_client, ue_stamp = (\<lambda>_. []), ue_transport = sample_transport\<rparr>"

definition batch_with :: "string \<Rightarrow> batch_manifest" where
  "batch_with h = \<lparr>bm_project = lit ''p'', bm_files = [\<lparr>fe_path = lit ''a.md'', fe_sha256 = lit h\<rparr>]\<rparr>"

definition approved_target :: ustr where
  "approved_target = lit ''tool:r:'' @ TOOL_NAME"

definition approved_hash :: "string \<Rightarrow> ustr" where
  "approved_hash h = action_hash (ue_tools sample_env) (build_tool_call (batch_with h)) approved_target"

definition pending_with :: "string \<Rightarrow> pending_batch" where
  "pending_with h = (sample_batch ''x'' ''p'')\<lparr>pb_action_hash := approved_hash h, pb_target_id := approved_target, pb_files := bm_files (batch_with h)\<rparr>"

definition approved_world :: "string \<Rightarrow> nat drive_world" where
  "approved_world h = sample_world\<lparr>dr_log := LogLines [Some (manual_record (pending_with h) (lit ''o'') [])]\<rparr>"


section \<open>An interrupted upload keeps its progress\<close>

text \<open>What the cursor file says about one path.\<close>

definition cursor_of :: "py \<Rightarrow> file_read \<Rightarrow> ustr \<Rightarrow> ustr option" where
  "cursor_of py f path = (case load_cursor py f of Inr c \<Rightarrow> dict_get c path | Inl e \<Rightarrow> None)"

definition wf_cursor :: "py \<Rightarrow> file_read \<Rightarrow> bool" where
  "wf_cursor py f \<longleftrightarrow> (case load_cursor py f of Inr c \<Rightarrow> wf_dict c | Inl e \<Rightarrow> False)"

definition todo :: "py \<Rightarrow> file_read \<Rightarrow> file_entry list \<Rightarrow> file_entry list" where
  "todo py f es = filter (\<lambda>e. cursor_of py f (fe_path e) \<noteq> Some (fe_sha256 e)) es"

definition receipt_path :: "json \<Rightarrow> json" where
  "receipt_path r = (case r of JObj kvs \<Rightarrow> jfield kvs ''path'' | _ \<Rightarrow> JNull)"

lemma dict_get_map: "dict_get (map (\<lambda>(k, v). (k, f v)) d) k = map_option f (dict_get d k)"
  by (induction d) (auto simp: dict_get_def)

lemma wf_dict_map: "wf_dict (map (\<lambda>(k, v). (k, f v)) d) = wf_dict d"
  by (simp add: wf_dict_def comp_def case_prod_beta)

lemma wf_sorted: "wf_dict kvs \<Longrightarrow> wf_dict (sort_key fst (sort_keys_items kvs))"
proof -
  assume "wf_dict kvs"
  moreover have "map fst (sort_keys_items kvs) = map fst kvs"
    by (simp add: sort_keys_items_map comp_def case_prod_beta)
  ultimately have "distinct (map fst (sort_keys_items kvs))" by (simp add: wf_dict_def)
  then show ?thesis by (simp add: wf_dict_def distinct_map)
qed

lemma load_cursor_file:
  assumes "wf_dict c"
  shows "\<exists>c'. load_cursor py (cursor_file c) = Inr c' \<and> wf_dict c' \<and> (\<forall>k. dict_get c' k = dict_get c k)"
proof -
  let ?kvs = "map (\<lambda>(k, v). (k, JStr v)) c"
  have wf: "wf_dict ?kvs" using assms by (simp add: wf_dict_map)
  show ?thesis
    by (simp add: cursor_file_def load_cursor_def dict_get_map wf_dict_map wf_sorted [OF wf] sorted_items_get [OF wf]
        option.map_comp comp_def option.map_ident)
qed

lemma advance_one:
  assumes "wf_cursor py f"
  shows "\<exists>f'. advance_cursor py f [e] = Inr f' \<and> wf_cursor py f'
    \<and> cursor_of py f' = (cursor_of py f)(fe_path e \<mapsto> fe_sha256 e)"
proof -
  from assms obtain c where c: "load_cursor py f = Inr c" "wf_dict c" by (auto simp: wf_cursor_def split: sum.splits)
  from load_cursor_file [OF wf_dict_set [OF c(2)], of py "fe_path e" "fe_sha256 e"] obtain c' where
    c': "load_cursor py (cursor_file (dict_set c (fe_path e) (fe_sha256 e))) = Inr c'" "wf_dict c'"
    "\<forall>k. dict_get c' k = dict_get (dict_set c (fe_path e) (fe_sha256 e)) k" by blast
  with c show ?thesis by (auto simp: advance_cursor_def wf_cursor_def cursor_of_def fun_eq_iff)
qed

text \<open>One file: either nothing but the outside has changed, or the receipt and the cursor have it.\<close>

definition same_store :: "'m drive_world \<Rightarrow> 'm drive_world \<Rightarrow> bool" where
  "same_store w w' \<longleftrightarrow> dr_host w' = dr_host w \<and> dr_pending w' = dr_pending w \<and> dr_log w' = dr_log w"

lemma outside_cases:
  "outside m w = (r, w') \<Longrightarrow> same_store w w' \<and> dr_cursor w' = dr_cursor w \<and> dr_receipts w' = dr_receipts w"
  by (auto simp: outside_def same_store_def split: prod.splits)

lemma upload_file_cases:
  assumes "upload_file ue stamp e w = (r, w')" and "wf_cursor (ue_py ue) (dr_cursor w)"
  shows "same_store w w' \<and>
    (case r of
       Inl x \<Rightarrow> dr_cursor w' = dr_cursor w \<and> dr_receipts w' = dr_receipts w
     | Inr rc \<Rightarrow> wf_cursor (ue_py ue) (dr_cursor w') \<and> dr_receipts w' = dr_receipts w @ [rc]
         \<and> receipt_path rc = JStr (fe_path e)
         \<and> cursor_of (ue_py ue) (dr_cursor w') = (cursor_of (ue_py ue) (dr_cursor w))(fe_path e \<mapsto> fe_sha256 e))"
proof -
  let ?ensure = "outside (dc_ensure_folder_path (ue_client ue) (route_parts (ue_root_name ue) (fe_path e)))"
  obtain r1 w1 where e1: "?ensure w = (r1, w1)" by (cases "?ensure w")
  note s1 = outside_cases [OF e1]
  show ?thesis
  proof (cases r1)
    case (Inl x)
    with assms(1) e1 s1 show ?thesis by (auto simp: upload_file_def eff_simps)
  next
    case (Inr folder)
    let ?upsert = "outside (dc_upsert_file (ue_client ue) (fe_path e) (posix_name (fe_path e)) folder)"
    obtain r2 w2 where e2: "?upsert w1 = (r2, w2)" by (cases "?upsert w1")
    note s2 = outside_cases [OF e2]
    show ?thesis
    proof (cases r2)
      case (Inl x)
      with assms(1) e1 e2 s1 s2 Inr show ?thesis by (auto simp: upload_file_def eff_simps same_store_def)
    next
      case (Inr u)
      from s1 s2 assms(2) have "wf_cursor (ue_py ue) (dr_cursor w2)" by simp
      from advance_one [OF this] obtain f' where f': "advance_cursor (ue_py ue) (dr_cursor w2) [e] = Inr f'"
        "wf_cursor (ue_py ue) f'"
        "cursor_of (ue_py ue) f' = (cursor_of (ue_py ue) (dr_cursor w2))(fe_path e \<mapsto> fe_sha256 e)" by blast
      with assms(1) e1 e2 s1 s2 Inr \<open>r1 = Inr folder\<close> show ?thesis
        by (auto simp: upload_file_def eff_simps same_store_def append_receipts_def advance_def receipt_path_def receipt_json_def)
    qed
  qed
qed

definition after_files :: "(ustr \<Rightarrow> ustr option) \<Rightarrow> file_entry list \<Rightarrow> ustr \<Rightarrow> ustr option" where
  "after_files c es = foldl (\<lambda>c e. c(fe_path e \<mapsto> fe_sha256 e)) c es"

text \<open>The state after \<open>n\<close> of the files \<open>ts\<close>: receipts \<open>rs\<close> for them and the cursor at them.\<close>

definition progressed ::
    "'m upload_env \<Rightarrow> file_entry list \<Rightarrow> nat \<Rightarrow> json list \<Rightarrow> 'm drive_world \<Rightarrow> 'm drive_world \<Rightarrow> bool" where
  "progressed ue ts n rs w w' \<longleftrightarrow> same_store w w' \<and> n \<le> length ts \<and> wf_cursor (ue_py ue) (dr_cursor w')
     \<and> dr_receipts w' = dr_receipts w @ rs \<and> map receipt_path rs = map (\<lambda>e. JStr (fe_path e)) (take n ts)
     \<and> cursor_of (ue_py ue) (dr_cursor w') = after_files (cursor_of (ue_py ue) (dr_cursor w)) (take n ts)"

lemma upload_loop_progress:
  assumes "upload_loop ue stamp cur receipts es w = (r, w')" and "wf_cursor (ue_py ue) (dr_cursor w)"
  shows "\<exists>n rs. progressed ue (filter (\<lambda>e. dict_get cur (fe_path e) \<noteq> Some (fe_sha256 e)) es) n rs w w'
    \<and> (\<forall>x. r = Inr x \<longrightarrow> n = length (filter (\<lambda>e. dict_get cur (fe_path e) \<noteq> Some (fe_sha256 e)) es) \<and> x = receipts @ rs)"
  using assms
proof (induction es arbitrary: receipts w)
  case Nil
  then show ?case
    by (intro exI [of _ 0] exI [of _ "[]"]) (auto simp: progressed_def same_store_def after_files_def eff_simps)
next
  case (Cons e es)
  show ?case
  proof (cases "dict_get cur (fe_path e) = Some (fe_sha256 e)")
    case True
    with Cons show ?thesis by simp
  next
    case False
    let ?ts = "filter (\<lambda>e. dict_get cur (fe_path e) \<noteq> Some (fe_sha256 e)) es"
    obtain r1 w1 where e1: "upload_file ue stamp e w = (r1, w1)" by (cases "upload_file ue stamp e w")
    note c1 = upload_file_cases [OF e1 Cons.prems(2)]
    show ?thesis
    proof (cases r1)
      case (Inl x)
      with e1 False Cons.prems c1 show ?thesis
        by (intro exI [of _ 0] exI [of _ "[]"]) (auto simp: progressed_def after_files_def eff_simps)
    next
      case (Inr rc)
      with e1 False Cons.prems(1) have "upload_loop ue stamp cur (receipts @ [rc]) es w1 = (r, w')"
        by (simp add: eff_simps)
      from Cons.IH [OF this] c1 Inr obtain n rs where n: "progressed ue ?ts n rs w1 w'"
        "\<forall>x. r = Inr x \<longrightarrow> n = length ?ts \<and> x = (receipts @ [rc]) @ rs" by auto
      have "progressed ue (e # ?ts) (Suc n) (rc # rs) w w'"
        using n(1) c1 Inr by (auto simp: progressed_def same_store_def after_files_def)
      with n(2) False show ?thesis
        by (intro exI [of _ "Suc n"] exI [of _ "rc # rs"]) auto
    qed
  qed
qed

lemma after_files_get:
  "distinct (map fe_path es) \<Longrightarrow> after_files c es path =
     (case find (\<lambda>e. fe_path e = path) es of Some e \<Rightarrow> Some (fe_sha256 e) | None \<Rightarrow> c path)"
proof (induction es arbitrary: c)
  case (Cons e es)
  then have IH: "after_files (c(fe_path e \<mapsto> fe_sha256 e)) es path =
     (case find (\<lambda>e. fe_path e = path) es of Some e \<Rightarrow> Some (fe_sha256 e) | None \<Rightarrow> (c(fe_path e \<mapsto> fe_sha256 e)) path)"
    by simp
  have "find (\<lambda>e. fe_path e = path) es = None" if "fe_path e = path"
    using Cons.prems that by (auto simp: find_None_iff) (metis image_eqI)
  with IH show ?case by (auto simp: after_files_def split: option.splits)
qed (simp add: after_files_def)

text \<open>After the first \<open>n\<close> open files, the open files are the others.\<close>

lemma todo_rest:
  assumes "distinct (map fe_path es)" and "c' = after_files c (take n (filter (\<lambda>e. c (fe_path e) \<noteq> Some (fe_sha256 e)) es))"
  shows "filter (\<lambda>e. c' (fe_path e) \<noteq> Some (fe_sha256 e)) es = drop n (filter (\<lambda>e. c (fe_path e) \<noteq> Some (fe_sha256 e)) es)"
proof -
  define ts where "ts = filter (\<lambda>e. c (fe_path e) \<noteq> Some (fe_sha256 e)) es"
  have inj: "inj_on fe_path (set es)" and des: "distinct es" using assms(1) by (auto simp: distinct_map)
  have dts: "distinct (map fe_path (take n ts))"
    using assms(1) by (simp add: ts_def distinct_map_filter take_map [symmetric])
  have sub: "set (take n ts) \<subseteq> set es" using set_take_subset [of n ts] by (auto simp: ts_def)
  have get: "c' (fe_path e) = (if e \<in> set (take n ts) then Some (fe_sha256 e) else c (fe_path e))" if "e \<in> set es" for e
  proof (cases "find (\<lambda>x. fe_path x = fe_path e) (take n ts)")
    case None
    then have "e \<notin> set (take n ts)" by (auto simp: find_None_iff)
    with None show ?thesis by (simp add: assms(2) ts_def [symmetric] after_files_get [OF dts])
  next
    case (Some x)
    then have "x \<in> set (take n ts)" "fe_path x = fe_path e" by (auto dest!: find_Some_set)
    with inj that sub have "x = e" by (auto simp: inj_on_def)
    with Some \<open>x \<in> set (take n ts)\<close> show ?thesis by (simp add: assms(2) ts_def [symmetric] after_files_get [OF dts])
  qed
  have "filter (\<lambda>e. c' (fe_path e) \<noteq> Some (fe_sha256 e)) es = filter (\<lambda>e. e \<notin> set (take n ts)) ts"
    unfolding ts_def filter_filter using get by (intro filter_cong) (auto simp: ts_def)
  also have "\<dots> = filter (\<lambda>e. e \<notin> set (take n ts)) (take n ts @ drop n ts)" by simp
  also have "\<dots> = drop n ts"
  proof -
    have "distinct ts" using des by (simp add: ts_def)
    from set_take_disj_set_drop_if_distinct [OF this, of n n]
    have "\<forall>e \<in> set (drop n ts). e \<notin> set (take n ts)" by auto
    then show ?thesis unfolding filter_append by (simp add: filter_id_conv)
  qed
  finally show ?thesis by (simp add: ts_def)
qed



end
