(* ===== verification/DriveWatch.thy ===== *)
theory DriveWatch
  imports DriveProperties
begin

text \<open>
  What the reaction watcher may do: it acts on a batch only under the batch's lease, and only when the
  owner has decided or the batch has expired; the decision of the owner is carried out; and the
  failure of one batch does not keep the others from being processed.
\<close>

section \<open>Lemmas\<close>

lemma notify_same: "notify wa p rsn w = (r, w') \<Longrightarrow> same_store w w'"
  unfolding notify_def by (rule outside_cases [THEN conjunct1])

lemma discard_cases:
  "discard wa p rsn w = (r, w') \<Longrightarrow> dr_log w' = dr_log w \<and>
     (dr_pending w' = dr_pending w \<or> store_drop (wa_py wa) p (dr_pending w) = Inr (dr_pending w'))"
  by (auto simp: discard_def on_pending_def eff_simps same_store_def split: sum.splits dest!: notify_same)

lemma approve_cases:
  assumes "approve wa p w = (r, w')"
    and run: "\<And>p w r w'. wa_run wa p w = (r, w') \<Longrightarrow> dr_log w' = dr_log w"
  shows "(\<exists>e. r = Inl e) \<and> w' = w \<or> append_log (dr_log w) (manual_record p (wa_owner_id wa) (wa_stamp wa (wa_now wa w))) = Inr (dr_log w')"
proof (cases "append_log (dr_log w) (manual_record p (wa_owner_id wa) (wa_stamp wa (wa_now wa w)))")
  case (Inl e)
  with assms(1) show ?thesis
    by (auto simp: approve_def write_manual_reaction_def append_record_def eff_simps)
next
  case (Inr l)
  obtain r1 w1 where e1: "wa_run wa p (w\<lparr>dr_log := l\<rparr>) = (r1, w1)" by (cases "wa_run wa p (w\<lparr>dr_log := l\<rparr>)")
  from run [OF e1] have "dr_log w1 = l" by simp
  with assms(1) Inr e1 show ?thesis
    by (auto simp: approve_def write_manual_reaction_def append_record_def eff_simps split: sum.splits if_splits)
qed

definition expired :: "'m drive_watcher \<Rightarrow> pending_batch \<Rightarrow> 'm drive_world \<Rightarrow> bool" where
  "expired wa p w \<longleftrightarrow> (\<exists>created. wa_parse_created wa (pb_created_at p) = Some created \<and> wa_now wa w - created \<ge> APPROVAL_TTL)"

definition lease_free :: "pending_batch \<Rightarrow> 'm drive_world \<Rightarrow> bool" where
  "lease_free p w \<longleftrightarrow> lease_path (approval_key (pb_project p)) \<notin> h_locks (dr_host w)"

definition owner_decision :: "'m drive_watcher \<Rightarrow> pending_batch \<Rightarrow> 'm drive_world \<Rightarrow> exn + reaction_verdict" where
  "owner_decision wa p w = fst (reaction_decision p (wa_owner_id wa) (bound_transport wa p) (dr_outside w))"

definition dropped :: "'m drive_watcher \<Rightarrow> pending_batch \<Rightarrow> 'm drive_world \<Rightarrow> 'm drive_world \<Rightarrow> bool" where
  "dropped wa p w w' \<longleftrightarrow> dr_pending w' = dr_pending w \<or> store_drop (wa_py wa) p (dr_pending w) = Inr (dr_pending w')"

definition locked :: "ustr \<Rightarrow> 'm drive_world \<Rightarrow> 'm drive_world" where
  "locked k w = w\<lparr>dr_host := (dr_host w)\<lparr>h_locks := insert (lease_path k) (h_locks (dr_host w))\<rparr>\<rparr>"

definition unlocked :: "ustr \<Rightarrow> 'm drive_world \<Rightarrow> 'm drive_world" where
  "unlocked k w = w\<lparr>dr_host := (dr_host w)\<lparr>h_locks := h_locks (dr_host w) - {lease_path k}\<rparr>\<rparr>"

lemma drive_with_lease:
  "with_lease drive_lease k body w =
     (if lease_path k \<in> h_locks (dr_host w) then body False w
      else (case body True (locked k w) of (r, w') \<Rightarrow> (r, unlocked k w')))"
  by (auto simp: with_lease_def drive_lease_def on_host_def lease_enter_def lease_exit_def eff_simps finallyM_def
      locked_def unlocked_def split: prod.splits)

lemma locked_simps [simp]:
  "dr_log (locked k w) = dr_log w" "dr_pending (locked k w) = dr_pending w" "dr_outside (locked k w) = dr_outside w"
  "dr_log (unlocked k w) = dr_log w" "dr_pending (unlocked k w) = dr_pending w" "dr_outside (unlocked k w) = dr_outside w"
  "dr_cursor (unlocked k w) = dr_cursor w" "dr_receipts (unlocked k w) = dr_receipts w"
  by (simp_all add: locked_def unlocked_def)

lemma key_of_watch [simp]: "rq_key (watch_request p) = approval_key (pb_project p)"
  by (simp add: watch_request_def request_of_def)

text \<open>What the reaction poll does to the world: only the outside moves.\<close>

definition polled :: "'m drive_watcher \<Rightarrow> pending_batch \<Rightarrow> 'm drive_world \<Rightarrow> 'm drive_world" where
  "polled wa p w = w\<lparr>dr_outside := snd (reaction_decision p (wa_owner_id wa) (bound_transport wa p) (dr_outside w))\<rparr>"

lemma polled_simps [simp]: "dr_log (polled wa p w) = dr_log w" "dr_pending (polled wa p w) = dr_pending w"
  by (simp_all add: polled_def)

lemma probe_run:
  "dw_probe (pending_decision wa p) q w =
     (case owner_decision wa p w of Inl e \<Rightarrow> (Inl e, polled wa p w) | Inr d \<Rightarrow> (Inr (probe_of_decision d), polled wa p w))"
  by (auto simp: pending_decision_def outside_def owner_decision_def polled_def eff_simps split: prod.splits sum.splits)

lemma pending_decision_ops:
  "dw_drop (pending_decision wa p) q = on_pending (store_drop (wa_py wa) p)"
  "dw_apply (pending_decision wa p) q d = (case d of
      Probe_APPROVED \<Rightarrow> approve wa p
    | Probe_CANCELLED \<Rightarrow> discard wa p (lit ''owner_cancelled'')
    | _ \<Rightarrow> raise_exn AssertionError)"
  by (simp_all add: pending_decision_def)

lemma resolve_run:
  "owned_resolve (pending_decision wa p) q True w =
     (case owner_decision wa p w of
        Inl e \<Rightarrow> (Inl e, polled wa p w)
      | Inr Decision_APPROVED \<Rightarrow> bindM (approve wa p) (\<lambda>_. bindM (on_pending (store_drop (wa_py wa) p)) (\<lambda>_.
            ret \<lparr>wv_outcome = Watch_CONSUMED, wv_reason = None\<rparr>)) (polled wa p w)
      | Inr Decision_CANCELLED \<Rightarrow> bindM (discard wa p (lit ''owner_cancelled'')) (\<lambda>_.
            bindM (on_pending (store_drop (wa_py wa) p)) (\<lambda>_.
            ret \<lparr>wv_outcome = Watch_CONSUMED, wv_reason = None\<rparr>)) (polled wa p w)
      | Inr _ \<Rightarrow> (Inr \<lparr>wv_outcome = Watch_WAITING, wv_reason = None\<rparr>, polled wa p w))"
  unfolding owned_resolve_def if_not_P [OF not_not [THEN iffD2, OF TrueI]] bindM_app probe_run pending_decision_ops
  by (auto simp: eff_simps split: sum.splits reaction_verdict.splits)

lemma process_waiting:
  assumes "\<not> expired wa p w" and "wa_parse_created wa (pb_created_at p) = Some created"
  shows "process wa p w =
     (if \<not> lease_free p w then (Inr (), w)
      else (case owned_resolve (pending_decision wa p) (watch_request p) True (locked (approval_key (pb_project p)) w) of
        (Inl e, w') \<Rightarrow> (if e = UploadIncompleteError then Inr () else Inl e, unlocked (approval_key (pb_project p)) w')
      | (Inr v, w') \<Rightarrow> (Inr (), unlocked (approval_key (pb_project p)) w')))"
  using assms
  by (auto simp: process_def expired_def resolve_owner_decision_def drive_with_lease catchM_def lease_free_def
      owned_resolve_def eff_simps split: prod.splits sum.splits)

lemma process_expired:
  assumes "expired wa p w"
  shows "process wa p w =
     (if \<not> lease_free p w then (Inr (), w)
      else (case discard wa p (lit ''approval_expired'') (locked (approval_key (pb_project p)) w) of
        (r, w') \<Rightarrow> (r, unlocked (approval_key (pb_project p)) w')))"
  using assms
  by (auto simp: process_def expired_def drive_with_lease lease_free_def eff_simps split: prod.splits)

lemma on_pending_drop_cases:
  "on_pending (store_drop py p) w = (r, w') \<Longrightarrow> dr_log w' = dr_log w \<and>
     (dr_pending w' = dr_pending w \<or> store_drop py p (dr_pending w) = Inr (dr_pending w'))"
  by (auto simp: on_pending_def split: sum.splits)

lemma second_drop:
  assumes "stored py d" and "store_drop py p d = Inr d'" and "store_drop py p d' = Inr d''"
  shows "d'' = d'"
proof -
  have "\<forall>q \<in> set (records py d'). triple q \<noteq> triple p"
    using drop_removes_records [OF assms(1,2)] by simp
  with store_drop_cases [OF assms(3) stored_drop [OF assms(1,2)]] show ?thesis by blast
qed

section \<open>Properties\<close>

lemma watcher_cases:
  assumes "\<And>p w r w'. wa_run wa p w = (r, w') \<Longrightarrow> dr_log w' = dr_log w"
    and "process wa p w = (r, w')" and "stored (wa_py wa) (dr_pending w)"
  shows "dr_log w' = dr_log w \<and> dr_pending w' = dr_pending w
    \<or> lease_free p w \<and> (expired wa p w \<or> owner_decision wa p w = Inr Decision_CANCELLED)
        \<and> dr_log w' = dr_log w \<and> store_drop (wa_py wa) p (dr_pending w) = Inr (dr_pending w')
    \<or> lease_free p w \<and> \<not> expired wa p w \<and> owner_decision wa p w = Inr Decision_APPROVED
        \<and> (\<exists>stamp. append_log (dr_log w) (manual_record p (wa_owner_id wa) stamp) = Inr (dr_log w'))"
proof (cases "lease_free p w")
  case False
  then have "w' = w" using assms(2)
    by (cases "expired wa p w"; cases "wa_parse_created wa (pb_created_at p)")
      (auto simp: process_expired process_waiting, auto simp: process_def)
  then show ?thesis by simp
next
  case True
  let ?k = "approval_key (pb_project p)"
  show ?thesis
  proof (cases "expired wa p w")
    case True
    obtain r1 w1 where d: "discard wa p (lit ''approval_expired'') (locked ?k w) = (r1, w1)"
      by (cases "discard wa p (lit ''approval_expired'') (locked ?k w)")
    with assms(2) True \<open>lease_free p w\<close> have "w' = unlocked ?k w1" by (simp add: process_expired)
    with discard_cases [OF d] True \<open>lease_free p w\<close> show ?thesis by auto
  next
    case False
    show ?thesis
    proof (cases "wa_parse_created wa (pb_created_at p)")
      case None
      with assms(2) show ?thesis by (auto simp: process_def)
    next
      case (Some created)
      obtain r1 w1 where res: "owned_resolve (pending_decision wa p) (watch_request p) True (locked ?k w) = (r1, w1)"
        by (cases "owned_resolve (pending_decision wa p) (watch_request p) True (locked ?k w)")
      with assms(2) process_waiting [OF False Some] True have w': "dr_log w' = dr_log w1" "dr_pending w' = dr_pending w1"
        by (auto split: sum.splits)
      have dec: "owner_decision wa p (locked ?k w) = owner_decision wa p w" by (simp add: owner_decision_def)
      let ?w0 = "polled wa p (locked ?k w)"
      consider "dr_log w1 = dr_log w" "dr_pending w1 = dr_pending w"
        | "owner_decision wa p w = Inr Decision_APPROVED"
          "bindM (approve wa p) (\<lambda>_. bindM (on_pending (store_drop (wa_py wa) p)) (\<lambda>_.
            ret \<lparr>wv_outcome = Watch_CONSUMED, wv_reason = None\<rparr>)) ?w0 = (r1, w1)"
        | "owner_decision wa p w = Inr Decision_CANCELLED"
          "bindM (discard wa p (lit ''owner_cancelled'')) (\<lambda>_. bindM (on_pending (store_drop (wa_py wa) p)) (\<lambda>_.
            ret \<lparr>wv_outcome = Watch_CONSUMED, wv_reason = None\<rparr>)) ?w0 = (r1, w1)"
        using res unfolding resolve_run dec by (auto split: sum.splits reaction_verdict.splits)
      then show ?thesis
      proof cases
        case 1
        with w' show ?thesis by simp
      next
        case 2
        obtain r2 w2 where ap: "approve wa p ?w0 = (r2, w2)" by (cases "approve wa p ?w0")
        have "dr_log w1 = dr_log w2 \<and> ((\<exists>e. r2 = Inl e) \<longrightarrow> w1 = w2)"
          using 2(2) ap by (auto simp: eff_simps split: sum.splits prod.splits dest!: on_pending_drop_cases)
        moreover have "(\<exists>e. r2 = Inl e) \<and> w2 = ?w0 \<or>
            (\<exists>stamp. append_log (dr_log w) (manual_record p (wa_owner_id wa) stamp) = Inr (dr_log w2))"
          using approve_cases [OF ap assms(1)] by auto
        ultimately show ?thesis using 2(1) True False w' by auto
      next
        case 3
        obtain r2 w2 where di: "discard wa p (lit ''owner_cancelled'') ?w0 = (r2, w2)"
          by (cases "discard wa p (lit ''owner_cancelled'') ?w0")
        obtain r3 w3 where second: "w1 = w2 \<or> on_pending (store_drop (wa_py wa) p) w2 = (r3, w1)"
          using 3(2) di by (auto simp: eff_simps split: sum.splits prod.splits)
        from discard_cases [OF di] have d2: "dr_log w2 = dr_log w"
          "dr_pending w2 = dr_pending w \<or> store_drop (wa_py wa) p (dr_pending w) = Inr (dr_pending w2)" by auto
        from second d2 on_pending_drop_cases [of "wa_py wa" p w2 r3 w1] second_drop [OF assms(3)]
        have "dr_log w1 = dr_log w \<and> (dr_pending w1 = dr_pending w \<or> store_drop (wa_py wa) p (dr_pending w) = Inr (dr_pending w1))"
          by metis
        with 3 True False w' show ?thesis by auto
      qed
    qed
  qed
qed

text \<open>What the transport showed: the message names the hash, and the owner's own reactions.\<close>

definition saw_cancellation :: "'m drive_watcher \<Rightarrow> pending_batch \<Rightarrow> 'm drive_world \<Rightarrow> bool" where
  "saw_cancellation wa p w \<longleftrightarrow> (\<exists>content o1 cancelled o2.
     tr_content (bound_transport wa p) (pb_message_id p) (dr_outside w) = (Inr content, o1)
     \<and> contains content (pb_action_hash p)
     \<and> tr_reaction_users (bound_transport wa p) (pb_message_id p) CANCEL_EMOJI o1 = (Inr cancelled, o2)
     \<and> (wa_owner_id wa, False) \<in> set cancelled)"

definition saw_approval :: "'m drive_watcher \<Rightarrow> pending_batch \<Rightarrow> 'm drive_world \<Rightarrow> bool" where
  "saw_approval wa p w \<longleftrightarrow> (\<exists>content o1 cancelled o2 approved o3.
     tr_content (bound_transport wa p) (pb_message_id p) (dr_outside w) = (Inr content, o1)
     \<and> contains content (pb_action_hash p)
     \<and> tr_reaction_users (bound_transport wa p) (pb_message_id p) CANCEL_EMOJI o1 = (Inr cancelled, o2)
     \<and> (wa_owner_id wa, False) \<notin> set cancelled
     \<and> tr_reaction_users (bound_transport wa p) (pb_message_id p) APPROVE_EMOJI o2 = (Inr approved, o3)
     \<and> (wa_owner_id wa, False) \<in> set approved)"

lemma owner_reacted_iff: "owner_reacted users owner \<longleftrightarrow> (owner, False) \<in> set users"
  by (auto simp: owner_reacted_def list_ex_iff)

lemma fst_bindM: "fst (bindM m f w) = Inr y \<longleftrightarrow> (\<exists>x w'. m w = (Inr x, w') \<and> fst (f x w') = Inr y)"
  by (auto simp: bindM_def split: prod.splits sum.splits)

lemma decision_cancelled: "owner_decision wa p w = Inr Decision_CANCELLED \<Longrightarrow> saw_cancellation wa p w"
  unfolding owner_decision_def reaction_decision_def fst_bindM saw_cancellation_def owner_reacted_iff
  by (auto simp: fst_bindM owner_reacted_iff ret_app split: if_splits)

lemma decision_approved: "owner_decision wa p w = Inr Decision_APPROVED \<Longrightarrow> saw_approval wa p w"
  unfolding owner_decision_def reaction_decision_def fst_bindM saw_approval_def owner_reacted_iff
  by (auto simp: fst_bindM owner_reacted_iff ret_app split: if_splits)


definition sample_watcher :: "nat drive_watcher" where
  "sample_watcher = \<lparr>wa_py = sample_py, wa_transport_at = (\<lambda>_. sample_transport), wa_run = (\<lambda>_. ret True),
     wa_owner_id = lit ''o'', wa_now = (\<lambda>_. 5), wa_parse_created = (\<lambda>_. Some 0), wa_stamp = (\<lambda>_. [])\<rparr>"


text \<open>One batch does not hold up the others. A tick either fails before it touches anything, because
  the pending store cannot be listed, or it processes every listed batch in order, whatever the
  processing of the earlier ones raised, and ends normally; the errors the tick does not isolate
  (\<open>KeyError\<close>, \<open>TypeError\<close> and the like) are assumed not to occur.\<close>

lemma tick_isolates_batches:
  assumes "\<And>p w e w'. process wa p w = (Inl e, w') \<Longrightarrow> isolated e"
  shows "run_once wa w = (case store_all (wa_py wa) (dr_pending w) of
      Inl e \<Rightarrow> (Inl e, w)
    | Inr ps \<Rightarrow> (Inr (), foldl (\<lambda>w p. snd (process wa p w)) w ps))"
proof -
  have step: "catchM (process wa p) (\<lambda>e. if isolated e then Some (ret ()) else None) w = (Inr (), snd (process wa p w))" for p w
    using assms by (auto simp: catchM_def eff_simps split: prod.splits sum.splits)
  have "iterM (\<lambda>p. catchM (process wa p) (\<lambda>e. if isolated e then Some (ret ()) else None)) ps w
      = (Inr (), foldl (\<lambda>w p. snd (process wa p w)) w ps)" for ps w
    by (induction ps arbitrary: w) (simp_all add: eff_simps step)
  then show ?thesis
    by (simp add: run_once_def read_pending_dir_def eff_simps split: sum.splits)
qed

lemma tick_isolates_batches_witness:
  "run_once (sample_watcher\<lparr>wa_parse_created := \<lambda>_. None\<rparr>) (sample_world\<lparr>dr_pending := [(lit ''a.json'', FileNotJson)]\<rparr>)
     = (Inr (), sample_world\<lparr>dr_pending := [(lit ''a.json'', FileNotJson)]\<rparr>)"
proof -
  have iso: "isolated e" if "process (sample_watcher\<lparr>wa_parse_created := \<lambda>_. None\<rparr>) p w = (Inl e, w')" for p w e w'
    using that by (simp add: process_def isolated_def value_error_def)
  from tick_isolates_batches [OF iso, where w = "sample_world\<lparr>dr_pending := [(lit ''a.json'', FileNotJson)]\<rparr>"] show ?thesis
    by (simp add: store_all_def record_files_def ends_with_def lit_def read_pending_def read_json_def)
qed

text \<open>The record the watcher writes opens the gate for exactly the batch it was written for: when the
  pending record carries the hash and the target of a manifest's tool call, then after the record
  has been appended the gate allows that manifest, and it is refused before when the log has no
  record of its hash.\<close>

lemma approval_record_opens_gate:
  assumes "matching_rule tk (build_tool_call m) rules = Some rl"
    and "pb_target_id p = target_of rl (build_tool_call m)"
    and "pb_action_hash p = action_hash tk (build_tool_call m) (pb_target_id p)"
    and "dr_log w = LogLines lines"
    and "write_manual_reaction p owner stamp w = (Inr (), w')"
  shows "\<exists>d. evaluate_batch tk rules owner e2e m w' = (Inr d, w') \<and> de_allowed d
    \<and> ((\<forall>line \<in> set lines. \<not> valid_record (pb_action_hash p) (pb_target_id p) owner e2e line) \<longrightarrow>
         (\<exists>d'. evaluate_batch tk rules owner e2e m w = (Inr d', w) \<and> \<not> de_allowed d'))"
proof -
  have w': "w' = w\<lparr>dr_log := LogLines (lines @ [Some (manual_record p owner stamp)])\<rparr>"
    using assms(4,5) by (simp add: write_manual_reaction_def append_record_def)
  have ev: "evaluate_batch tk rules owner e2e m (w\<lparr>dr_log := LogLines ls\<rparr>) = (Inr
      \<lparr>de_external_effect = True, de_allowed = list_ex (valid_record (pb_action_hash p) (pb_target_id p) owner e2e) ls,
       de_reason = Some (if list_ex (valid_record (pb_action_hash p) (pb_target_id p) owner e2e) ls
         then lit ''approved'' else lit ''approval_required''),
       de_action_hash = pb_action_hash p, de_target_id = pb_target_id p\<rparr>, w\<lparr>dr_log := LogLines ls\<rparr>)" for ls
    unfolding evaluate_batch_def evaluate_tool_call_def assms(1) option.case Let_def assms(2) [symmetric] assms(3) [symmetric]
    by (simp add: has_valid_approval_def)
  have "valid_record (pb_action_hash p) (pb_target_id p) owner e2e (Some (manual_record p owner stamp))"
    by (simp add: manual_record_def valid_manual_record)
  moreover have "w\<lparr>dr_log := LogLines lines\<rparr> = w" using assms(4) by simp
  ultimately show ?thesis
    using ev [of "lines @ [Some (manual_record p owner stamp)]"] ev [of lines] by (auto simp: w' list_ex_iff)
qed

lemma approval_record_opens_gate_witness:
  "\<exists>d w'. write_manual_reaction (pending_with ''new'') (lit ''o'') [] (sample_world\<lparr>dr_log := LogLines []\<rparr>) = (Inr (), w')
     \<and> evaluate_batch (ue_tools sample_env) sample_rules (lit ''o'') False (batch_with ''new'') w' = (Inr d, w') \<and> de_allowed d"
proof -
  let ?w = "sample_world\<lparr>dr_log := LogLines []\<rparr>" and ?p = "pending_with ''new''"
  obtain w' where w': "write_manual_reaction ?p (lit ''o'') [] ?w = (Inr (), w')"
    by (auto simp: write_manual_reaction_def append_record_def)
  have rule: "matching_rule (ue_tools sample_env) (build_tool_call (batch_with ''new'')) sample_rules = Some (hd sample_rules)"
    by (simp add: matching_rule_def sample_env_def sample_rules_def)
  have target: "pb_target_id ?p = target_of (hd sample_rules) (build_tool_call (batch_with ''new''))"
    by (simp add: pending_with_def target_of_def sample_rules_def build_tool_call_def approved_target_def lit_def)
  have hash: "pb_action_hash ?p = action_hash (ue_tools sample_env) (build_tool_call (batch_with ''new'')) (pb_target_id ?p)"
    by (simp add: pending_with_def approved_hash_def)
  have empty: "dr_log ?w = LogLines []" by simp
  from approval_record_opens_gate [OF rule target hash empty w'] w' show ?thesis by blast
qed

end
