(* ===== verification/Coordination.thy ===== *)
theory Coordination
  imports DrivePending
begin

text \<open>
  \<open>automation/interop/coordination.py\<close> and \<open>delegation.py\<close>: the scheduling state machine between two
  agents, the choice of candidate slots, the protocol envelope and the deterministic answers to it.
  An aware \<open>datetime\<close> is its instant (from the start of year 1, UTC) and its offset, both in
  microseconds; arithmetic that leaves the years 1 to 9999 raises. Parsing and formatting of ISO
  strings are the record \<open>iso_tool\<close>.
\<close>

section \<open>The state machine\<close>

datatype phase =
    Phase_INIT
  | Phase_AWAIT_AVAILABILITY
  | Phase_AWAIT_PEER_CONFIRM
  | Phase_AWAIT_OWNER_CONFIRM
  | Phase_EXECUTE
  | Phase_DONE
  | Phase_DEADLOCK_TIMEOUT
  | Phase_DEADLOCK_NO_SLOTS
  | Phase_REFUSED

definition TERMINAL_FAILURES :: "phase set" where
  "TERMINAL_FAILURES = {Phase_DEADLOCK_TIMEOUT, Phase_DEADLOCK_NO_SLOTS, Phase_REFUSED}"

datatype command =
    Send_availability_query
  | Send_slot_confirm ustr
  | Request_owner_confirm ustr
  | Execute_calendar_write ustr
  | Notify_escalation ustr
  | Notify_termination ustr
  | Post_team_confirmation ustr
  | Notify_result ustr

record coordination_state =
  cs_phase :: phase
  cs_candidates :: "ustr list"
  cs_cursor :: nat
  cs_renegotiated :: bool

definition chosen_slot :: "coordination_state \<Rightarrow> exn + ustr" where
  "chosen_slot s = (if cs_candidates s = [] \<or> cs_cursor s \<ge> length (cs_candidates s) then Inl ValueError
     else Inr (cs_candidates s ! cs_cursor s))"

type_synonym coord_result = "exn + coordination_state \<times> command list"

definition start :: "coordination_state \<times> command list" where
  "start = (\<lparr>cs_phase = Phase_AWAIT_AVAILABILITY, cs_candidates = [], cs_cursor = 0, cs_renegotiated = False\<rparr>,
     [Send_availability_query])"

definition expect :: "coordination_state \<Rightarrow> phase list \<Rightarrow> exn + unit" where
  "expect s phases = guardE (cs_phase s \<in> set phases) ValueError"

definition renegotiate_or_terminate :: "coordination_state \<Rightarrow> ustr \<Rightarrow> coord_result" where
  "renegotiate_or_terminate s declined_by =
     (let next_cursor = cs_cursor s + 1 in
      if cs_renegotiated s \<or> next_cursor \<ge> length (cs_candidates s) then
        Inr (s\<lparr>cs_phase := Phase_REFUSED\<rparr>, [Notify_termination (lit ''declined_by_'' @ declined_by)])
      else
        let s' = s\<lparr>cs_phase := Phase_AWAIT_PEER_CONFIRM, cs_cursor := next_cursor, cs_renegotiated := True\<rparr> in
        bindE (chosen_slot s') (\<lambda>slot. Inr (s', [Send_slot_confirm slot])))"

definition on_availability :: "coordination_state \<Rightarrow> ustr list \<Rightarrow> coord_result" where
  "on_availability s candidates =
     bindE (expect s [Phase_AWAIT_AVAILABILITY]) (\<lambda>_. case candidates of
       [] \<Rightarrow> Inr (s\<lparr>cs_phase := Phase_DEADLOCK_NO_SLOTS\<rparr>, [Notify_escalation (lit ''no_candidates'')])
     | c # cs \<Rightarrow> Inr (s\<lparr>cs_phase := Phase_AWAIT_PEER_CONFIRM, cs_candidates := c # cs, cs_cursor := 0\<rparr>,
         [Send_slot_confirm c]))"

definition on_timeout :: "coordination_state \<Rightarrow> coord_result" where
  "on_timeout s =
     bindE (expect s [Phase_AWAIT_AVAILABILITY, Phase_AWAIT_PEER_CONFIRM]) (\<lambda>_.
       Inr (s\<lparr>cs_phase := Phase_DEADLOCK_TIMEOUT\<rparr>, [Notify_escalation (lit ''peer_timeout'')]))"

definition on_peer_confirm :: "coordination_state \<Rightarrow> bool \<Rightarrow> coord_result" where
  "on_peer_confirm s accepted =
     bindE (expect s [Phase_AWAIT_PEER_CONFIRM]) (\<lambda>_.
       if accepted then
         bindE (chosen_slot s) (\<lambda>slot. Inr (s\<lparr>cs_phase := Phase_AWAIT_OWNER_CONFIRM\<rparr>, [Request_owner_confirm slot]))
       else renegotiate_or_terminate s (lit ''peer''))"

definition on_owner_confirm :: "coordination_state \<Rightarrow> bool \<Rightarrow> coord_result" where
  "on_owner_confirm s accepted =
     bindE (expect s [Phase_AWAIT_OWNER_CONFIRM]) (\<lambda>_.
       if accepted then
         bindE (chosen_slot s) (\<lambda>slot. Inr (s\<lparr>cs_phase := Phase_EXECUTE\<rparr>, [Execute_calendar_write slot]))
       else renegotiate_or_terminate s (lit ''owner''))"

definition on_executed :: "coordination_state \<Rightarrow> coord_result" where
  "on_executed s =
     bindE (expect s [Phase_EXECUTE]) (\<lambda>_. bindE (chosen_slot s) (\<lambda>slot.
       Inr (s\<lparr>cs_phase := Phase_DONE\<rparr>, [Post_team_confirmation slot, Notify_result slot])))"

text \<open>The events the driver feeds in, and a run over them: the first error stops it.\<close>

datatype coord_event =
    Availability "ustr list"
  | Timeout
  | Peer_confirm bool
  | Owner_confirm bool
  | Executed

fun coord_step :: "coordination_state \<Rightarrow> coord_event \<Rightarrow> coord_result" where
  "coord_step s (Availability cs) = on_availability s cs"
| "coord_step s Timeout = on_timeout s"
| "coord_step s (Peer_confirm b) = on_peer_confirm s b"
| "coord_step s (Owner_confirm b) = on_owner_confirm s b"
| "coord_step s Executed = on_executed s"

text \<open>A state that the driver can reach, with what happened on the way: each event with the commands
  it made, oldest first.\<close>

inductive coord_run :: "(coord_event \<times> command list) list \<Rightarrow> coordination_state \<Rightarrow> bool" where
  start: "coord_run [] (fst start)"
| step: "coord_run tr s \<Longrightarrow> coord_step s ev = Inr (s', cmds) \<Longrightarrow> coord_run (tr @ [(ev, cmds)]) s'"

inductive_cases coord_runE: "coord_run tr s"

section \<open>Slots\<close>

record dt =
  dt_utc :: int
  dt_offset :: int

datatype parsed_dt = Not_iso | Naive | Aware dt

record iso_tool =
  iso_parse :: "ustr \<Rightarrow> parsed_dt"
  iso_format :: "dt \<Rightarrow> ustr"

definition MINUTE :: int where "MINUTE = 60 * 1000000"

definition HOUR :: int where "HOUR = 60 * MINUTE"

definition parse_aware :: "iso_tool \<Rightarrow> ustr \<Rightarrow> dt option" where
  "parse_aware tz raw = (case iso_parse tz raw of Aware d \<Rightarrow> Some d | _ \<Rightarrow> None)"

text \<open>\<open>timedelta(minutes=...)\<close> raises \<open>OverflowError\<close> beyond 999999999 days, and so does
  \<open>datetime + timedelta\<close> when the local date leaves the years 1 to 9999.\<close>

definition minutes_delta :: "int \<Rightarrow> exn + int" where
  "minutes_delta minutes = (if \<bar>minutes div 1440\<bar> \<le> 999999999 then Inr (minutes * MINUTE) else Inl OverflowError)"

definition LOCAL_END :: int where "LOCAL_END = 3652059 * 24 * HOUR"

definition plus_dt :: "dt \<Rightarrow> int \<Rightarrow> exn + dt" where
  "plus_dt d delta =
     (let loc = dt_utc d + dt_offset d + delta in
      if 0 \<le> loc \<and> loc < LOCAL_END then Inr (d\<lparr>dt_utc := dt_utc d + delta\<rparr>) else Inl OverflowError)"

definition slot_free :: "(dt \<times> dt) list \<Rightarrow> dt \<Rightarrow> dt \<Rightarrow> dt \<Rightarrow> dt \<Rightarrow> bool" where
  "slot_free busy range_start range_end slot slot_end \<longleftrightarrow>
     \<not> (dt_utc slot < dt_utc range_start \<or> dt_utc slot_end > dt_utc range_end)
     \<and> \<not> list_ex (\<lambda>(busy_start, busy_end). dt_utc slot < dt_utc busy_end \<and> dt_utc slot_end > dt_utc busy_start) busy"

fun valid_slots :: "iso_tool \<Rightarrow> (dt \<times> dt) list \<Rightarrow> dt \<Rightarrow> dt \<Rightarrow> int \<Rightarrow> ustr list \<Rightarrow> exn + dt list" where
  "valid_slots tz busy range_start range_end duration [] = Inr []"
| "valid_slots tz busy range_start range_end duration (raw # raws) =
     (case parse_aware tz raw of
        None \<Rightarrow> valid_slots tz busy range_start range_end duration raws
      | Some slot \<Rightarrow>
          bindE (plus_dt slot duration) (\<lambda>slot_end.
          bindE (valid_slots tz busy range_start range_end duration raws) (\<lambda>rest.
            Inr (if slot_free busy range_start range_end slot slot_end then slot # rest else rest))))"

text \<open>\<open>set(valid)\<close>: equality of aware datetimes is equality of instants, the first one is kept.\<close>

fun unique_dt :: "dt list \<Rightarrow> dt list" where
  "unique_dt [] = []"
| "unique_dt (d # ds) = d # filter (\<lambda>e. dt_utc e \<noteq> dt_utc d) (unique_dt ds)"

definition MAX_CANDIDATES :: nat where "MAX_CANDIDATES = 3"

definition candidate_slots ::
    "iso_tool \<Rightarrow> ustr list \<Rightarrow> (dt \<times> dt) list \<Rightarrow> dt \<Rightarrow> dt \<Rightarrow> int \<Rightarrow> nat \<Rightarrow> exn + ustr list" where
  "candidate_slots tz peer_slots busy range_start range_end duration_min limit =
     bindE (minutes_delta duration_min) (\<lambda>duration.
     bindE (valid_slots tz busy range_start range_end duration peer_slots) (\<lambda>valid.
       Inr (map (iso_format tz) (take limit (sort_key dt_utc (unique_dt valid))))))"

text \<open>\<open>item.get("start", {}).get("dateTime", "")\<close> of a calendar item; None is the \<open>AttributeError\<close> of
  a \<open>start\<close> that is no object.\<close>

definition item_time :: "py \<Rightarrow> (ustr \<times> json) list \<Rightarrow> string \<Rightarrow> ustr option" where
  "item_time py item k = (case jget item k of
      None \<Rightarrow> Some []
    | Some (JObj o') \<Rightarrow> Some (get_str py o' ''dateTime'')
    | Some _ \<Rightarrow> None)"

fun parse_busy_intervals :: "py \<Rightarrow> iso_tool \<Rightarrow> (ustr \<times> json) list list \<Rightarrow> (dt \<times> dt) list option" where
  "parse_busy_intervals py tz [] = Some []"
| "parse_busy_intervals py tz (item # items) =
     (case (item_time py item ''start'', item_time py item ''end'') of
        (Some st, Some en) \<Rightarrow>
          (case parse_busy_intervals py tz items of
             None \<Rightarrow> None
           | Some rest \<Rightarrow> Some (case (parse_aware tz st, parse_aware tz en) of
               (Some s, Some e) \<Rightarrow> if dt_utc e > dt_utc s then (s, e) # rest else rest
             | _ \<Rightarrow> rest))
      | _ \<Rightarrow> None)"

definition confirm_slot_accepted :: "(ustr \<times> json) list \<Rightarrow> bool" where
  "confirm_slot_accepted payload \<longleftrightarrow> jget payload ''result'' = Some (JStr (lit ''accepted''))"

definition availability_slots :: "py \<Rightarrow> (ustr \<times> json) list \<Rightarrow> ustr list" where
  "availability_slots py payload = (case jget payload ''slots'' of
      Some (JArr slots) \<Rightarrow> map (py_str py) slots
    | _ \<Rightarrow> [])"

definition TEAM_NOTICE_PREFIX :: ustr where
  "TEAM_NOTICE_PREFIX = [128197] @ lit '' '' @ [51068, 51221] @ lit '' '' @ [54869, 51221] @ lit '' (coord-''"

definition team_notice :: "ustr \<Rightarrow> ustr \<Rightarrow> exn + ustr" where
  "team_notice correlation_id time_label =
     (let notice = [128197] @ lit '' '' @ [51068, 51221] @ lit '' '' @ [54869, 51221] @ lit '' ('' @ correlation_id @ lit ''): '' @ time_label
          @ lit '' '' @ [8212] @ lit '' '' @ [50577, 52769] @ lit '' '' @ [49849, 51064] @ lit '' '' @ [50756, 47308] @ lit ''.'' in
      if starts_with notice TEAM_NOTICE_PREFIX then Inr notice else Inl ValueError)"

section \<open>Envelopes\<close>

record envelope =
  en_correlation_id :: ustr
  en_sender_id :: ustr
  en_recipient_id :: ustr
  en_intent :: ustr
  en_payload :: "(ustr \<times> json) list"

text \<open>The value that \<open>format_envelope\<close> renders, and \<open>parse_envelope\<close> after \<open>json.loads\<close>.\<close>

definition envelope_items :: "envelope \<Rightarrow> (ustr \<times> json) list" where
  "envelope_items e =
     [(lit ''version'', JStr (lit ''v0'')), (lit ''correlation_id'', JStr (en_correlation_id e)),
      (lit ''sender_id'', JStr (en_sender_id e)), (lit ''recipient_id'', JStr (en_recipient_id e)),
      (lit ''intent'', JStr (en_intent e)), (lit ''payload'', JObj (en_payload e))]"

definition envelope_json :: "envelope \<Rightarrow> json" where
  "envelope_json e = JObj (envelope_items e)"

definition format_envelope :: "(rat \<Rightarrow> ustr) \<Rightarrow> envelope \<Rightarrow> ustr" where
  "format_envelope fr e = dumps fr (envelope_json e)"

definition envelope_keys :: "ustr set" where
  "envelope_keys = {lit ''version'', lit ''correlation_id'', lit ''sender_id'', lit ''recipient_id'',
     lit ''intent'', lit ''payload''}"

definition parse_envelope_json :: "json \<Rightarrow> envelope option" where
  "parse_envelope_json v = (case v of
      JObj kvs \<Rightarrow>
        if key_set kvs \<noteq> envelope_keys then None
        else (case (jget kvs ''version'', jget kvs ''correlation_id'', jget kvs ''sender_id'',
                    jget kvs ''recipient_id'', jget kvs ''intent'', jget kvs ''payload'') of
          (Some ver, Some (JStr ci), Some (JStr si), Some (JStr ri), Some (JStr it), Some (JObj body)) \<Rightarrow>
            if ver = JStr (lit ''v0'')
            then Some \<lparr>en_correlation_id = ci, en_sender_id = si, en_recipient_id = ri, en_intent = it, en_payload = body\<rparr>
            else None
        | _ \<Rightarrow> None)
    | _ \<Rightarrow> None)"

definition parse_envelope :: "(ustr \<Rightarrow> json option) \<Rightarrow> ustr \<Rightarrow> envelope option" where
  "parse_envelope loads message = (case loads message of None \<Rightarrow> None | Some v \<Rightarrow> parse_envelope_json v)"

definition floor_hour :: "dt \<Rightarrow> dt" where
  "floor_hour d = d\<lparr>dt_utc := dt_utc d - (dt_utc d + dt_offset d) mod HOUR\<rparr>"

definition first_slot :: "dt \<Rightarrow> exn + dt" where
  "first_slot range_start =
     (let slot = floor_hour range_start in
      if dt_utc slot < dt_utc range_start then plus_dt slot HOUR else Inr slot)"

text \<open>The loop that offers slots; the first argument is how many may still be offered.\<close>

fun offer :: "nat \<Rightarrow> dt \<Rightarrow> int \<Rightarrow> dt \<Rightarrow> exn + dt list" where
  "offer n slot duration range_end =
     bindE (plus_dt slot duration) (\<lambda>slot_end.
       if dt_utc slot_end \<le> dt_utc range_end then
         (case n of
            0 \<Rightarrow> Inr []
          | Suc m \<Rightarrow> bindE (plus_dt slot HOUR) (\<lambda>next_slot.
              bindE (offer m next_slot duration range_end) (\<lambda>rest. Inr (slot # rest))))
       else Inr [])"

definition interop_ready :: "ustr list" where
  "interop_ready = [lit ''interop-ready'']"

definition offered_slots :: "py \<Rightarrow> iso_tool \<Rightarrow> (ustr \<times> json) list \<Rightarrow> exn + ustr list" where
  "offered_slots py tz payload =
     (case (jget payload ''range_start'', jget payload ''range_end'', jget payload ''duration_min'') of
        (Some rs, Some re, Some dm) \<Rightarrow>
          (case (iso_parse tz (py_str py rs), iso_parse tz (py_str py re), py_parse_int py (py_str py dm)) of
             (Not_iso, _, _) \<Rightarrow> Inr interop_ready
           | (_, Not_iso, _) \<Rightarrow> Inr interop_ready
           | (_, _, None) \<Rightarrow> Inr interop_ready
           | (st, en, Some minutes) \<Rightarrow>
               bindE (minutes_delta minutes) (\<lambda>duration.
                 case (st, en) of
                   (Aware range_start, Aware range_end) \<Rightarrow>
                     if duration \<le> 0 then Inr interop_ready
                     else bindE (first_slot range_start) (\<lambda>slot.
                       bindE (offer 8 slot duration range_end) (\<lambda>slots. Inr (map (iso_format tz) slots)))
                 | _ \<Rightarrow> Inr interop_ready))
      | _ \<Rightarrow> Inr interop_ready)"

definition response_for :: "py \<Rightarrow> iso_tool \<Rightarrow> envelope \<Rightarrow> ustr \<Rightarrow> exn + envelope" where
  "response_for py tz query sender_id =
     (if en_intent query = lit ''query_availability'' then
        bindE (offered_slots py tz (en_payload query)) (\<lambda>slots.
          Inr \<lparr>en_correlation_id = en_correlation_id query, en_sender_id = sender_id,
            en_recipient_id = en_sender_id query, en_intent = lit ''response_availability'',
            en_payload = [(lit ''slots'', JArr (map JStr slots))]\<rparr>)
      else if en_intent query = lit ''query_confirm_slot'' then
        let declined = (jget (en_payload query) ''simulate'' = Some (JStr (lit ''decline''))) in
        Inr \<lparr>en_correlation_id = en_correlation_id query, en_sender_id = sender_id,
          en_recipient_id = en_sender_id query, en_intent = lit ''response_confirm_slot'',
          en_payload = [(lit ''result'', JStr (if declined then lit ''declined'' else lit ''accepted'')),
            (lit ''slot'', JStr (get_str py (en_payload query) ''slot''))]\<rparr>
      else
        Inr \<lparr>en_correlation_id = en_correlation_id query, en_sender_id = sender_id,
          en_recipient_id = en_sender_id query, en_intent = lit ''response_'' @ en_intent query,
          en_payload = [(lit ''result'', JStr (lit ''accepted''))]\<rparr>)"

section \<open>Candidate slots\<close>

text \<open>The slot lies in the range and overlaps no busy interval.\<close>

definition fits :: "(dt \<times> dt) list \<Rightarrow> dt \<Rightarrow> dt \<Rightarrow> int \<Rightarrow> dt \<Rightarrow> bool" where
  "fits busy range_start range_end duration d \<longleftrightarrow>
     dt_utc range_start \<le> dt_utc d \<and> dt_utc d + duration \<le> dt_utc range_end
     \<and> (\<forall>(s, e) \<in> set busy. dt_utc e \<le> dt_utc d \<or> dt_utc d + duration \<le> dt_utc s)"

lemma plus_dt_Inr: "plus_dt d delta = Inr d' \<Longrightarrow> d' = d\<lparr>dt_utc := dt_utc d + delta\<rparr>"
  by (auto simp: plus_dt_def Let_def split: if_splits)

lemma slot_free_fits:
  "plus_dt d duration = Inr d' \<Longrightarrow> slot_free busy rs re d d' \<longleftrightarrow> fits busy rs re duration d"
  by (fastforce dest: plus_dt_Inr simp: slot_free_def fits_def list_ex_iff)

lemma valid_slots_filter:
  "valid_slots tz busy rs re duration raws = Inr ds \<Longrightarrow>
     ds = filter (fits busy rs re duration) (List.map_filter (parse_aware tz) raws)"
proof (induction raws arbitrary: ds)
  case Nil
  then show ?case by simp
next
  case (Cons raw raws)
  show ?case
  proof (cases "parse_aware tz raw")
    case None
    with Cons show ?thesis by (simp add: List.map_filter_simps)
  next
    case (Some d)
    with Cons.prems obtain d' rest where d: "plus_dt d duration = Inr d'"
      and r: "valid_slots tz busy rs re duration raws = Inr rest"
      and ds: "ds = (if slot_free busy rs re d d' then d # rest else rest)" by auto
    from Cons.IH [OF r] Some ds slot_free_fits [OF d] show ?thesis
      by (simp add: List.map_filter_simps)
  qed
qed

lemma unique_dt_utc: "dt_utc ` set (unique_dt ds) = dt_utc ` set ds"
proof (induction ds rule: unique_dt.induct)
  case 1
  then show ?case by simp
next
  case (2 d ds)
  have "dt_utc ` {e \<in> A. dt_utc e \<noteq> dt_utc d} = dt_utc ` A - {dt_utc d}" for A :: "dt set" by auto
  with 2 show ?case by (simp add: insert_Diff_if)
qed

lemma unique_dt_sub: "set (unique_dt ds) \<subseteq> set ds"
  by (induction ds rule: unique_dt.induct) auto

lemma unique_dt_distinct: "distinct (map dt_utc (unique_dt ds))"
proof (induction ds rule: unique_dt.induct)
  case 1
  then show ?case by simp
next
  case (2 d ds)
  then have "distinct (map dt_utc (filter (\<lambda>e. dt_utc e \<noteq> dt_utc d) (unique_dt ds)))"
    by (simp add: distinct_map inj_on_def)
  then show ?case by auto
qed

definition earlier :: "dt \<Rightarrow> dt \<Rightarrow> bool" where
  "earlier a b \<longleftrightarrow> dt_utc a < dt_utc b"

lemma unique_dt_strict: "sorted_wrt earlier (sort_key dt_utc (unique_dt ds))"
proof -
  have "sorted_wrt (<) (map dt_utc (sort_key dt_utc (unique_dt ds)))"
    using unique_dt_distinct [of ds] by (simp add: strict_sorted_iff distinct_map)
  then show ?thesis by (simp add: sorted_wrt_map earlier_def [abs_def])
qed

text \<open>C39. The candidate slots are slots the peer offered that lie in the requested range and overlap no
  busy interval, in strictly ascending order and at most \<open>limit\<close> of them, and they are the earliest
  ones: a slot that fits is among them unless the list is full of earlier ones.\<close>

theorem candidate_slots_earliest:
  assumes "candidate_slots tz raws busy rs re minutes limit = Inr out"
  shows "\<exists>ds. out = map (iso_format tz) ds \<and> sorted_wrt earlier ds \<and> length ds \<le> limit
    \<and> (\<forall>d \<in> set ds. fits busy rs re (minutes * MINUTE) d \<and> (\<exists>raw \<in> set raws. parse_aware tz raw = Some d))
    \<and> (\<forall>raw \<in> set raws. \<forall>d. parse_aware tz raw = Some d \<and> fits busy rs re (minutes * MINUTE) d \<longrightarrow>
         (\<exists>e \<in> set ds. dt_utc e = dt_utc d) \<or> length ds = limit \<and> (\<forall>e \<in> set ds. earlier e d))"
proof -
  from assms obtain valid where v: "valid_slots tz busy rs re (minutes * MINUTE) raws = Inr valid"
    and out: "out = map (iso_format tz) (take limit (sort_key dt_utc (unique_dt valid)))"
    by (auto simp: candidate_slots_def minutes_delta_def split: if_splits)
  define xs where "xs = sort_key dt_utc (unique_dt valid)"
  from valid_slots_filter [OF v] have set_valid: "set valid =
      {d. fits busy rs re (minutes * MINUTE) d \<and> (\<exists>raw \<in> set raws. parse_aware tz raw = Some d)}"
    by (force simp: List.map_filter_def)
  have strict: "sorted_wrt earlier xs" unfolding xs_def by (rule unique_dt_strict)
  have "set xs \<subseteq> set valid" using unique_dt_sub by (simp add: xs_def)
  then have sub: "d \<in> set (take limit xs) \<Longrightarrow> d \<in> set valid" for d by (meson in_set_takeD subsetD)
  have early: "(\<exists>e \<in> set (take limit xs). dt_utc e = dt_utc d)
      \<or> length (take limit xs) = limit \<and> (\<forall>e \<in> set (take limit xs). earlier e d)" if "d \<in> set valid" for d
  proof -
    from that obtain x where x: "x \<in> set xs" "dt_utc x = dt_utc d"
      using unique_dt_utc [of valid] by (metis image_iff set_sort xs_def)
    show ?thesis
    proof (cases "x \<in> set (take limit xs)")
      case True
      with x show ?thesis by blast
    next
      case False
      have split: "set xs = set (take limit xs) \<union> set (drop limit xs)"
        by (metis append_take_drop_id set_append)
      with x False have y: "x \<in> set (drop limit xs)" by blast
      then have "limit < length xs" by (metis drop_all empty_iff empty_set not_le)
      moreover have "\<forall>e \<in> set (take limit xs). earlier e x"
        using strict y by (metis append_take_drop_id sorted_wrt_append)
      ultimately show ?thesis using x by (simp add: earlier_def)
    qed
  qed
  show ?thesis
    by (rule exI [of _ "take limit xs"])
      (use out strict sub early set_valid in \<open>auto simp: xs_def [symmetric] sorted_wrt_take\<close>)
qed

text \<open>A calendar tool for the witnesses: a slot string is the number of its minute.\<close>

definition demo_tz :: iso_tool where
  "demo_tz = \<lparr>iso_parse = \<lambda>s. (case s of [m] \<Rightarrow> Aware \<lparr>dt_utc = int m * MINUTE, dt_offset = 0\<rparr> | _ \<Rightarrow> Not_iso),
     iso_format = \<lambda>d. [nat (dt_utc d div MINUTE)]\<rparr>"

definition at_minute :: "int \<Rightarrow> dt" where
  "at_minute m = \<lparr>dt_utc = m * MINUTE, dt_offset = 0\<rparr>"

lemma demo_candidates:
  "candidate_slots demo_tz [[300], [60], [120], [60], [], [240]] [(at_minute 130, at_minute 150)]
     (at_minute 60) (at_minute 400) 30 2 = Inr [[60], [240]]"
  by (simp add: candidate_slots_def minutes_delta_def plus_dt_def LOCAL_END_def HOUR_def MINUTE_def demo_tz_def
      at_minute_def parse_aware_def slot_free_def)

theorem candidate_slots_earliest_witness:
  "\<exists>ds. [[60], [240]] = map (iso_format demo_tz) ds \<and> sorted_wrt earlier ds \<and> length ds \<le> 2"
  using candidate_slots_earliest [OF demo_candidates] by (elim ex_forward) simp

section \<open>Offered slots\<close>

lemma first_slot_hour:
  assumes "first_slot rs = Inr d"
  shows "dt_utc rs \<le> dt_utc d" "dt_utc d < dt_utc rs + HOUR" "(dt_utc d + dt_offset d) mod HOUR = 0"
    "dt_offset d = dt_offset rs"
proof -
  let ?m = "(dt_utc rs + dt_offset rs) mod HOUR"
  have m: "0 \<le> ?m" "?m < HOUR" by (simp_all add: HOUR_def MINUTE_def)
  have a: "(dt_utc rs + dt_offset rs - ?m) mod HOUR = 0" by (simp add: minus_mod_eq_mult_div)
  have d: "d = rs\<lparr>dt_utc := dt_utc rs - ?m + (if ?m = 0 then 0 else HOUR)\<rparr>"
    using assms m by (auto simp: first_slot_def floor_hour_def Let_def dest!: plus_dt_Inr split: if_splits)
  with m show "dt_utc rs \<le> dt_utc d" "dt_utc d < dt_utc rs + HOUR" "dt_offset d = dt_offset rs" by auto
  have "dt_utc d + dt_offset d = dt_utc rs + dt_offset rs - ?m + (if ?m = 0 then 0 else HOUR)"
    by (simp add: d)
  with a show "(dt_utc d + dt_offset d) mod HOUR = 0" by (simp split: if_splits)
qed

text \<open>The \<open>i\<close>th hour after a slot.\<close>

definition hours_after :: "dt \<Rightarrow> nat \<Rightarrow> dt" where
  "hours_after d i = d\<lparr>dt_utc := dt_utc d + int i * HOUR\<rparr>"

lemma offer_hours:
  "offer n d duration re = Inr ds \<Longrightarrow> \<exists>k \<le> n. ds = map (hours_after d) [0..<k]
     \<and> (\<forall>i < k. dt_utc d + int i * HOUR + duration \<le> dt_utc re)
     \<and> (k = n \<or> dt_utc re < dt_utc d + int k * HOUR + duration)"
proof (induction n arbitrary: d ds)
  case 0
  then show ?case by (auto split: if_splits)
next
  case (Suc n)
  from Suc.prems obtain de where de: "plus_dt d duration = Inr de" by (auto simp del: offer.simps simp: offer.simps [of "Suc n"])
  show ?case
  proof (cases "dt_utc de \<le> dt_utc re")
    case False
    with Suc.prems de have "ds = []" by simp
    with False de show ?thesis by (intro exI [of _ 0]) (auto dest: plus_dt_Inr)
  next
    case True
    with Suc.prems de obtain nx rest where nx: "plus_dt d HOUR = Inr nx"
      and r: "offer n nx duration re = Inr rest" and ds: "ds = d # rest"
      by (auto simp del: offer.simps simp: offer.simps [of "Suc n"])
    from Suc.IH [OF r] obtain k where k: "k \<le> n" "rest = map (hours_after nx) [0..<k]"
      "\<forall>i < k. dt_utc nx + int i * HOUR + duration \<le> dt_utc re"
      "k = n \<or> dt_utc re < dt_utc nx + int k * HOUR + duration" by blast
    from plus_dt_Inr [OF nx] have nx': "nx = hours_after d 1" by (simp add: hours_after_def)
    have sh: "hours_after nx i = hours_after d (Suc i)" for i by (simp add: nx' hours_after_def algebra_simps)
    have "ds = map (hours_after d) [0..<Suc k]"
      by (simp add: ds k(2) sh upt_conv_Cons map_Suc_upt [symmetric] hours_after_def [of d 0] comp_def del: upt_Suc)
    moreover have "\<forall>i < Suc k. dt_utc d + int i * HOUR + duration \<le> dt_utc re"
    proof (intro allI impI)
      fix i assume "i < Suc k"
      with True plus_dt_Inr [OF de] k(3) show "dt_utc d + int i * HOUR + duration \<le> dt_utc re"
        by (cases i) (auto simp: nx' hours_after_def algebra_simps)
    qed
    ultimately show ?thesis using k(1,4)
      by (intro exI [of _ "Suc k"]) (auto simp: nx' hours_after_def algebra_simps)
  qed
qed

definition query_range :: "py \<Rightarrow> iso_tool \<Rightarrow> (ustr \<times> json) list \<Rightarrow> (dt \<times> dt \<times> int) option" where
  "query_range py tz payload =
     (case (jget payload ''range_start'', jget payload ''range_end'', jget payload ''duration_min'') of
        (Some rs, Some re, Some dm) \<Rightarrow>
          (case (iso_parse tz (py_str py rs), iso_parse tz (py_str py re), py_parse_int py (py_str py dm)) of
             (Aware st, Aware en, Some minutes) \<Rightarrow> Some (st, en, minutes)
           | _ \<Rightarrow> None)
      | _ \<Rightarrow> None)"

lemma query_range_offered:
  assumes "query_range py tz payload = Some (rs, re, minutes)"
  shows "offered_slots py tz payload = bindE (minutes_delta minutes) (\<lambda>duration.
     if duration \<le> 0 then Inr interop_ready
     else bindE (first_slot rs) (\<lambda>slot. bindE (offer 8 slot duration re) (\<lambda>slots. Inr (map (iso_format tz) slots))))"
  using assms by (auto simp: query_range_def offered_slots_def split: option.splits parsed_dt.splits)

text \<open>The slots offered for a range are whole local hours, one after the other from the first one in the
  range, at most eight and as many as fit into the range.\<close>

lemma offered_hours:
  assumes "query_range py tz payload = Some (rs, re, minutes)" and "0 < minutes"
    and "offered_slots py tz payload = Inr slots"
  shows "\<exists>first k. slots = map (\<lambda>i. iso_format tz (hours_after first i)) [0..<k] \<and> k \<le> 8
    \<and> dt_utc rs \<le> dt_utc first \<and> dt_utc first < dt_utc rs + HOUR \<and> (dt_utc first + dt_offset rs) mod HOUR = 0
    \<and> (\<forall>i < k. fits [] rs re (minutes * MINUTE) (hours_after first i))
    \<and> (k = 8 \<or> dt_utc re < dt_utc (hours_after first k) + minutes * MINUTE)"
proof -
  have pos: "\<not> minutes * MINUTE \<le> 0" using assms(2) by (simp add: MINUTE_def)
  from assms(3) obtain first ds where f: "first_slot rs = Inr first"
    and o8: "offer 8 first (minutes * MINUTE) re = Inr ds" and slots: "slots = map (iso_format tz) ds"
    using pos by (auto simp: query_range_offered [OF assms(1)] minutes_delta_def simp del: offer.simps split: if_splits)
  from offer_hours [OF o8] obtain k where k: "k \<le> 8" "ds = map (hours_after first) [0..<k]"
    "\<forall>i < k. dt_utc first + int i * HOUR + minutes * MINUTE \<le> dt_utc re"
    "k = 8 \<or> dt_utc re < dt_utc first + int k * HOUR + minutes * MINUTE" by blast
  note h = first_slot_hour [OF f]
  have "0 \<le> int i * HOUR" for i by (simp add: HOUR_def MINUTE_def)
  with h(1) k(3) have "\<forall>i < k. fits [] rs re (minutes * MINUTE) (hours_after first i)"
    by (auto simp: fits_def hours_after_def) (smt (verit))
  with h k slots show ?thesis
    by (intro exI [of _ first] exI [of _ k]) (simp add: hours_after_def)
qed

definition demo_py :: py where
  "demo_py = \<lparr>py_repr = \<lambda>_. [], py_parse_int = \<lambda>s. (case s of [m] \<Rightarrow> Some (int m) | _ \<Rightarrow> None)\<rparr>"

definition demo_query :: "(ustr \<times> json) list" where
  "demo_query = [(lit ''range_start'', JStr [90]), (lit ''range_end'', JStr [300]), (lit ''duration_min'', JStr [45])]"

lemma demo_range: "query_range demo_py demo_tz demo_query = Some (at_minute 90, at_minute 300, 45)"
  by (simp add: query_range_def demo_py_def demo_tz_def demo_query_def at_minute_def)

lemma demo_offered: "offered_slots demo_py demo_tz demo_query = Inr [[120], [180], [240]]"
  unfolding query_range_offered [OF demo_range]
  by (simp add: minutes_delta_def first_slot_def floor_hour_def plus_dt_def
      LOCAL_END_def HOUR_def MINUTE_def at_minute_def demo_tz_def)

lemma offered_hours_witness:
  "\<exists>first k. [[120], [180], [240]] = map (\<lambda>i. iso_format demo_tz (hours_after first i)) [0..<k] \<and> k \<le> 8
    \<and> (k = 8 \<or> dt_utc (at_minute 300) < dt_utc (hours_after first k) + 45 * MINUTE)"
proof -
  have "0 < (45::int)" by simp
  from offered_hours [OF demo_range this demo_offered] show ?thesis by (elim ex_forward) simp
qed

section \<open>A whole query\<close>

lemma get_slots: "availability_slots py [(lit ''slots'', JArr (map JStr slots))] = slots"
  by (simp add: availability_slots_def comp_def)

lemma map_filter_id: "(\<And>d. d \<in> set ds \<Longrightarrow> p (f d) = Some d) \<Longrightarrow> List.map_filter p (map f ds) = ds"
  by (induction ds) (simp_all add: List.map_filter_simps)

lemma offer_plus: "offer n d duration re = Inr ds \<Longrightarrow> x \<in> set ds \<Longrightarrow> \<exists>y. plus_dt x duration = Inr y"
proof (induction n arbitrary: d ds)
  case 0
  then show ?case by (auto split: if_splits)
next
  case (Suc n)
  then show ?case
    by (auto simp del: offer.simps simp: offer.simps [of "Suc n"] split: if_splits)
qed

text \<open>A Python \<open>datetime\<close>: the local date is in the years 1 to 9999, the offset below a day.\<close>

definition valid_dt :: "dt \<Rightarrow> bool" where
  "valid_dt d \<longleftrightarrow> 0 \<le> dt_utc d + dt_offset d \<and> dt_utc d + dt_offset d < LOCAL_END \<and> \<bar>dt_offset d\<bar> < 24 * HOUR"

lemma valid_slots_all:
  assumes "\<forall>d \<in> set ds. parse_aware tz (iso_format tz d) = Some d
    \<and> fits [] rs re duration d \<and> (\<exists>y. plus_dt d duration = Inr y)"
  shows "valid_slots tz [] rs re duration (map (iso_format tz) ds) = Inr ds"
  using assms by (induction ds) (auto simp: slot_free_fits)

lemma unique_dt_id: "distinct (map dt_utc ds) \<Longrightarrow> unique_dt ds = ds"
proof (induction ds)
  case (Cons d ds)
  then show ?case by (simp add: filter_id_conv) (metis image_eqI)
qed simp

lemma sort_hours: "sort_key dt_utc (unique_dt (map (hours_after d) [0..<k])) = map (hours_after d) [0..<k]"
proof -
  have "sorted_wrt (<) (map (\<lambda>i. dt_utc d + int i * HOUR) [0..<k])"
    by (induction k) (auto simp: sorted_wrt_append HOUR_def MINUTE_def)
  then have st: "sorted_wrt (<) (map dt_utc (map (hours_after d) [0..<k]))" by (simp add: comp_def hours_after_def)
  then have "unique_dt (map (hours_after d) [0..<k]) = map (hours_after d) [0..<k]"
    by (intro unique_dt_id) (simp add: strict_sorted_iff)
  then show ?thesis using st by (simp add: strict_sorted_iff sort_key_id_if_sorted)
qed

text \<open>A peer's answer to a query about a range, read back by the asking side with an empty calendar,
  gives the first candidates of what was offered: no offered slot is rejected as out of range or lost.\<close>

lemma query_to_candidates:
  assumes q: "query_range py tz (en_payload query) = Some (rs, re, minutes)" and m: "0 < minutes"
    and ask: "en_intent query = lit ''query_availability''"
    and answered: "response_for py tz query sender_id = Inr answer"
    and valid: "valid_dt rs" and tz: "\<And>d. valid_dt d \<Longrightarrow> iso_parse tz (iso_format tz d) = Aware d"
  shows "en_correlation_id answer = en_correlation_id query \<and> en_recipient_id answer = en_sender_id query
    \<and> candidate_slots tz (availability_slots py (en_payload answer)) [] rs re minutes MAX_CANDIDATES
        = Inr (take MAX_CANDIDATES (availability_slots py (en_payload answer)))"
proof -
  have pos: "\<not> minutes * MINUTE \<le> 0" using m by (simp add: MINUTE_def)
  from answered ask obtain slots where offered: "offered_slots py tz (en_payload query) = Inr slots"
    and ans: "en_correlation_id answer = en_correlation_id query" "en_recipient_id answer = en_sender_id query"
      "availability_slots py (en_payload answer) = slots"
    by (auto simp: response_for_def get_slots)
  from offered pos obtain first ds where md: "minutes_delta minutes = Inr (minutes * MINUTE)"
    and f: "first_slot rs = Inr first"
    and o8: "offer 8 first (minutes * MINUTE) re = Inr ds" and slots: "slots = map (iso_format tz) ds"
    by (auto simp: query_range_offered [OF q] minutes_delta_def simp del: offer.simps split: if_splits)
  from offer_hours [OF o8] obtain k where ds: "ds = map (hours_after first) [0..<k]"
    and k: "\<forall>i < k. dt_utc first + int i * HOUR + minutes * MINUTE \<le> dt_utc re" by blast
  have "parse_aware tz (iso_format tz d) = Some d \<and> fits [] rs re (minutes * MINUTE) d
      \<and> (\<exists>y. plus_dt d (minutes * MINUTE) = Inr y)" if "d \<in> set ds" for d
  proof -
    from that ds obtain i where i: "d = hours_after first i" "i < k" by auto
    have "0 \<le> int i * HOUR" by (simp add: HOUR_def MINUTE_def)
    with first_slot_hour(1) [OF f] have "dt_utc rs \<le> dt_utc first + int i * HOUR" by linarith
    with first_slot_hour [OF f] i k have d: "dt_utc rs \<le> dt_utc d" "dt_offset d = dt_offset rs"
      "dt_utc d + minutes * MINUTE \<le> dt_utc re" by (auto simp: hours_after_def)
    from offer_plus [OF o8 that] obtain y where y: "plus_dt d (minutes * MINUTE) = Inr y" by blast
    then have "dt_utc d + dt_offset d + minutes * MINUTE < LOCAL_END"
      by (simp add: plus_dt_def Let_def split: if_splits)
    with d valid pos have "valid_dt d" by (simp add: valid_dt_def)
    from tz [OF this] d y show ?thesis by (simp add: parse_aware_def fits_def)
  qed
  then have "valid_slots tz [] rs re (minutes * MINUTE) slots = Inr ds"
    unfolding slots by (intro valid_slots_all) blast
  then show ?thesis using ans sort_hours [of first k]
    by (simp add: candidate_slots_def md slots ds take_map)
qed

definition exact_tz :: iso_tool where
  "exact_tz = \<lparr>iso_parse = \<lambda>s. (case s of
       [a, b, c, e] \<Rightarrow> Aware \<lparr>dt_utc = int a - int b, dt_offset = int c - int e\<rparr> | _ \<Rightarrow> Not_iso),
     iso_format = \<lambda>d. [nat (dt_utc d), nat (- dt_utc d), nat (dt_offset d), nat (- dt_offset d)]\<rparr>"

definition exact_query :: envelope where
  "exact_query = \<lparr>en_correlation_id = lit ''coord-1'', en_sender_id = lit ''a'', en_recipient_id = lit ''b'',
     en_intent = lit ''query_availability'', en_payload =
      [(lit ''range_start'', JStr [5400000000, 0, 0, 0]), (lit ''range_end'', JStr [18000000000, 0, 0, 0]),
       (lit ''duration_min'', JStr [45])]\<rparr>"

lemma query_to_candidates_witness:
  "\<exists>answer. response_for demo_py exact_tz exact_query (lit ''b'') = Inr answer \<and>
     candidate_slots exact_tz (availability_slots demo_py (en_payload answer)) []
       (at_minute 90) (at_minute 300) 45 MAX_CANDIDATES
     = Inr (take MAX_CANDIDATES (availability_slots demo_py (en_payload answer)))"
proof -
  have q: "query_range demo_py exact_tz (en_payload exact_query) = Some (at_minute 90, at_minute 300, 45)"
    by (simp add: query_range_def demo_py_def exact_tz_def exact_query_def at_minute_def MINUTE_def)
  have a: "\<exists>answer. response_for demo_py exact_tz exact_query (lit ''b'') = Inr answer"
    using query_range_offered [OF q]
    by (simp add: exact_query_def response_for_def minutes_delta_def first_slot_def floor_hour_def plus_dt_def
      LOCAL_END_def HOUR_def MINUTE_def at_minute_def)
  then obtain answer where a: "response_for demo_py exact_tz exact_query (lit ''b'') = Inr answer" by blast
  have "en_intent exact_query = lit ''query_availability''" by (simp add: exact_query_def)
  moreover have "valid_dt (at_minute 90)"
    by (simp add: valid_dt_def at_minute_def LOCAL_END_def HOUR_def MINUTE_def)
  moreover have "iso_parse exact_tz (iso_format exact_tz d) = Aware d" if "valid_dt d" for d
    by (simp add: exact_tz_def)
  ultimately show ?thesis using query_to_candidates [OF q _ _ a] a by simp
qed

section \<open>Envelopes\<close>

lemma parsed_envelope_items:
  assumes "parse_envelope loads message = Some e"
  shows "\<exists>kvs. loads message = Some (JObj kvs) \<and> key_set kvs = envelope_keys
    \<and> (\<forall>k. dict_get kvs k = dict_get (envelope_items e) k)"
proof -
  from assms obtain kvs where l: "loads message = Some (JObj kvs)" and k: "key_set kvs = envelope_keys"
    by (auto simp: parse_envelope_def parse_envelope_json_def split: option.splits json.splits if_splits)
  have "dict_get kvs x = dict_get (envelope_items e) x" for x
  proof (cases "x \<in> envelope_keys")
    case True
    with assms l k show ?thesis
      by (auto simp: parse_envelope_def parse_envelope_json_def envelope_items_def envelope_keys_def jget_def
          dict_get_Cons split: option.splits json.splits if_splits)
  next
    case False
    with k have "dict_get kvs x = None" by (simp add: dict_get_None_iff dict_keys_def)
    with False show ?thesis by (simp add: envelope_items_def envelope_keys_def dict_get_Cons)
  qed
  with l k show ?thesis by blast
qed

text \<open>An envelope that is rendered and parsed is the same envelope, and whatever parses is the rendering
  of an envelope with exactly the six fields and version v0.\<close>

lemma envelope_roundtrip:
  assumes "loads (format_envelope fr e) = Some (envelope_json e)"
  shows "parse_envelope loads (format_envelope fr e) = Some e
    \<and> (\<forall>message e'. parse_envelope loads message = Some e' \<longrightarrow>
      (\<exists>kvs. loads message = Some (JObj kvs) \<and> key_set kvs = envelope_keys
        \<and> (\<forall>k. dict_get kvs k = dict_get (envelope_items e') k)))"
  using assms parsed_envelope_items
  by (simp add: parse_envelope_def parse_envelope_json_def envelope_json_def envelope_items_def envelope_keys_def)

lemma envelope_roundtrip_witness:
  "parse_envelope (\<lambda>m. if m = format_envelope (\<lambda>_. []) exact_query then Some (envelope_json exact_query) else None)
     (format_envelope (\<lambda>_. []) exact_query) = Some exact_query"
  using envelope_roundtrip [where loads = "\<lambda>m. if m = format_envelope (\<lambda>_. []) exact_query
      then Some (envelope_json exact_query) else None" and fr = "\<lambda>_. []" and e = exact_query] by simp

text \<open>A query with an aware range and a duration of more than 999999999 days has no answer: computing it
  raises \<open>OverflowError\<close>, which the handler of malformed ranges does not catch.\<close>

lemma huge_duration_raises:
  assumes "query_range py tz (en_payload query) = Some (rs, re, minutes)" and "1440000000000 \<le> minutes"
    and "en_intent query = lit ''query_availability''"
  shows "response_for py tz query sender_id = Inl OverflowError"
proof -
  from assms(2) have "1440000000000 div 1440 \<le> minutes div 1440" by (rule zdiv_mono1) simp
  with assms show ?thesis by (simp add: response_for_def query_range_offered minutes_delta_def)
qed

lemma huge_duration_raises_witness:
  "response_for demo_py exact_tz (exact_query\<lparr>en_payload :=
      [(lit ''range_start'', JStr [5400000000, 0, 0, 0]), (lit ''range_end'', JStr [18000000000, 0, 0, 0]),
       (lit ''duration_min'', JStr [1440000000000])]\<rparr>) (lit ''b'') = Inl OverflowError"
  by (rule huge_duration_raises [where rs = "at_minute 90" and re = "at_minute 300" and minutes = 1440000000000])
    (simp_all add: query_range_def demo_py_def exact_tz_def exact_query_def at_minute_def MINUTE_def)


end
