(* ===== verification/CoordinationRuns.thy ===== *)
theory CoordinationRuns
  imports Coordination
begin

text \<open>
  The runs of the scheduling state machine of \<open>Coordination\<close>: what has happened when the machine is in
  each phase, and what follows for calendar writes, for termination and for the notices to the owner.
\<close>

section \<open>Runs of the state machine\<close>

lemmas coord_defs = on_availability_def on_timeout_def on_peer_confirm_def on_owner_confirm_def
  on_executed_def expect_def renegotiate_or_terminate_def chosen_slot_def Let_def

definition is_write :: "command \<Rightarrow> bool" where
  "is_write c \<longleftrightarrow> (\<exists>slot. c = Execute_calendar_write slot)"

definition is_proposal :: "command \<Rightarrow> bool" where
  "is_proposal c \<longleftrightarrow> (\<exists>slot. c = Send_slot_confirm slot)"

definition is_notice :: "command \<Rightarrow> bool" where
  "is_notice c \<longleftrightarrow> (\<exists>r. c = Notify_escalation r \<or> c = Notify_termination r)"

lemmas command_kinds = is_write_def is_proposal_def is_notice_def

definition run_commands :: "(coord_event \<times> command list) list \<Rightarrow> command list" where
  "run_commands tr = concat (map snd tr)"

lemma run_commands_simps [simp]:
  "run_commands [] = []" "run_commands (tr @ tr') = run_commands tr @ run_commands tr'"
  "run_commands (x # tr) = snd x @ run_commands tr"
  by (simp_all add: run_commands_def)

text \<open>The exchange that approves a slot: it is proposed, the peer accepts it, the owner accepts it.\<close>

definition peer_accepted :: "ustr \<Rightarrow> (coord_event \<times> command list) list \<Rightarrow> bool" where
  "peer_accepted slot tr \<longleftrightarrow> (\<exists>tr0 ev.
     tr = tr0 @ [(ev, [Send_slot_confirm slot]), (Peer_confirm True, [Request_owner_confirm slot])])"

definition both_accepted :: "ustr \<Rightarrow> (coord_event \<times> command list) list \<Rightarrow> bool" where
  "both_accepted slot tr \<longleftrightarrow> (\<exists>tr0. peer_accepted slot tr0
     \<and> filter is_write (run_commands tr0) = []
     \<and> tr = tr0 @ [(Owner_confirm True, [Execute_calendar_write slot])])"

definition negotiating :: "coordination_state \<Rightarrow> nat \<Rightarrow> (coord_event \<times> command list) list \<Rightarrow> bool" where
  "negotiating s n tr \<longleftrightarrow> cs_cursor s < length (cs_candidates s)
     \<and> length tr \<le> (if cs_renegotiated s then n + 2 else n)
     \<and> length (filter is_proposal (run_commands tr)) = (if cs_renegotiated s then 2 else 1)"

text \<open>What has happened when the machine is in each phase.\<close>

fun phase_inv :: "phase \<Rightarrow> (coord_event \<times> command list) list \<Rightarrow> coordination_state \<Rightarrow> bool" where
  "phase_inv Phase_AWAIT_AVAILABILITY tr s \<longleftrightarrow> tr = [] \<and> \<not> cs_renegotiated s"
| "phase_inv Phase_AWAIT_PEER_CONFIRM tr s \<longleftrightarrow> negotiating s 1 tr \<and> filter is_write (run_commands tr) = []
     \<and> (\<exists>tr0 ev. tr = tr0 @ [(ev, [Send_slot_confirm (cs_candidates s ! cs_cursor s)])])"
| "phase_inv Phase_AWAIT_OWNER_CONFIRM tr s \<longleftrightarrow> negotiating s 2 tr \<and> filter is_write (run_commands tr) = []
     \<and> peer_accepted (cs_candidates s ! cs_cursor s) tr"
| "phase_inv Phase_EXECUTE tr s \<longleftrightarrow> negotiating s 3 tr \<and> both_accepted (cs_candidates s ! cs_cursor s) tr"
| "phase_inv Phase_DONE tr s \<longleftrightarrow> length tr \<le> 6 \<and> length (filter is_proposal (run_commands tr)) \<le> 2
     \<and> (\<exists>slot tr0. both_accepted slot tr0 \<and> tr = tr0 @ [(Executed, [Post_team_confirmation slot, Notify_result slot])])"
| "phase_inv Phase_INIT tr s \<longleftrightarrow> False"
| "phase_inv p tr s \<longleftrightarrow> length tr \<le> 5 \<and> length (filter is_proposal (run_commands tr)) \<le> 2
     \<and> filter is_write (run_commands tr) = []
     \<and> (\<exists>tr0 ev c. tr = tr0 @ [(ev, [c])] \<and> is_notice c)"

lemma coord_run_inv: "coord_run tr s \<Longrightarrow> phase_inv (cs_phase s) tr s"
proof (induction rule: coord_run.induct)
  case start
  then show ?case by (simp add: start_def)
next
  case (step tr s ev s' cmds)
  show ?case
  proof (cases ev)
    case (Availability cs)
    with step show ?thesis
      by (cases cs) (auto simp: coord_defs negotiating_def command_kinds split: if_splits)
  next
    case Timeout
    with step show ?thesis
      by (auto simp: coord_defs negotiating_def command_kinds split: if_splits)
  next
    case (Peer_confirm b)
    with step show ?thesis
      by (cases b) (auto simp: coord_defs negotiating_def command_kinds peer_accepted_def split: if_splits)
  next
    case (Owner_confirm b)
    with step show ?thesis
      by (cases b) (auto simp: coord_defs negotiating_def command_kinds both_accepted_def split: if_splits)
  next
    case Executed
    with step show ?thesis
      by (auto simp: coord_defs negotiating_def command_kinds both_accepted_def peer_accepted_def split: if_splits)
  qed
qed

lemma phase_inv_writes:
  "phase_inv (cs_phase s) tr s \<Longrightarrow> length (filter is_write (run_commands tr)) \<le> 1"
  by (cases "cs_phase s") (auto simp: both_accepted_def command_kinds)

lemma phase_inv_bounds:
  "phase_inv (cs_phase s) tr s \<Longrightarrow> length tr \<le> 6 \<and> length (filter is_proposal (run_commands tr)) \<le> 2"
  by (cases "cs_phase s") (auto simp: negotiating_def split: if_splits)

lemma filter_write_Nil: "filter is_write (run_commands tr) = [] \<Longrightarrow> (ev, cmds) \<in> set tr \<Longrightarrow>
    Execute_calendar_write slot \<notin> set cmds"
  by (force simp: filter_empty_conv run_commands_def is_write_def)

lemma both_accepted_write:
  assumes "both_accepted slot tr" and "(ev, cmds) \<in> set tr" and "Execute_calendar_write slot' \<in> set cmds"
  shows "(ev, cmds) = last tr \<and> slot' = slot"
proof -
  from assms(1) obtain tr0 where t: "tr = tr0 @ [(Owner_confirm True, [Execute_calendar_write slot])]"
    and n: "filter is_write (run_commands tr0) = []" by (auto simp: both_accepted_def)
  from filter_write_Nil [OF n] assms(3) have "(ev, cmds) \<notin> set tr0" by blast
  with t assms(2,3) show ?thesis by simp
qed

lemma phase_inv_cases:
  assumes "phase_inv (cs_phase s) tr s"
  shows "filter is_write (run_commands tr) = [] \<or> (\<exists>slot. both_accepted slot tr) \<or>
    (\<exists>slot tr0. both_accepted slot tr0 \<and> tr = tr0 @ [(Executed, [Post_team_confirmation slot, Notify_result slot])])"
  using assms by (cases "cs_phase s") auto

lemma phase_inv_write:
  assumes "phase_inv (cs_phase s) tr s" and m: "(ev, cmds) \<in> set tr" and c: "Execute_calendar_write slot \<in> set cmds"
  shows "\<exists>tr0 post. both_accepted slot tr0 \<and> tr = tr0 @ post
    \<and> (post = [] \<or> post = [(Executed, [Post_team_confirmation slot, Notify_result slot])])"
  using phase_inv_cases [OF assms(1)]
proof (elim disjE exE conjE)
  assume "filter is_write (run_commands tr) = []"
  from filter_write_Nil [OF this m] c show ?thesis by blast
next
  fix x
  assume b: "both_accepted x tr"
  with both_accepted_write [OF b m c] show ?thesis by auto
next
  fix x tr0
  assume b: "both_accepted x tr0" and t: "tr = tr0 @ [(Executed, [Post_team_confirmation x, Notify_result x])]"
  from m c t have "(ev, cmds) \<in> set tr0" by auto
  from both_accepted_write [OF b this c] b t show ?thesis by auto
qed

text \<open>C23. A calendar write is only commanded right after the peer and then the owner accepted exactly the
  slot that is written, and that was proposed before; there is never a second write.\<close>

theorem coord_write_needs_both:
  assumes "coord_run tr s" and "(ev, cmds) \<in> set tr" and "Execute_calendar_write slot \<in> set cmds"
  shows "(\<exists>tr0 e post. tr = tr0 @
      [(e, [Send_slot_confirm slot]),
       (Peer_confirm True, [Request_owner_confirm slot]),
       (Owner_confirm True, [Execute_calendar_write slot])] @ post)
    \<and> filter is_write (run_commands tr) = [Execute_calendar_write slot]"
proof -
  from phase_inv_write [OF coord_run_inv [OF assms(1)] assms(2,3)] obtain tr0 post where
    *: "both_accepted slot tr0" "tr = tr0 @ post"
      "post = [] \<or> post = [(Executed, [Post_team_confirmation slot, Notify_result slot])]" by blast
  then have "filter is_write (run_commands tr) = [Execute_calendar_write slot]"
    by (auto simp: both_accepted_def command_kinds)
  with * show ?thesis by (fastforce simp: both_accepted_def peer_accepted_def)
qed

text \<open>Events of a run one after the other.\<close>

fun feed :: "coordination_state \<Rightarrow> coord_event list \<Rightarrow> (coord_event \<times> command list) list \<Rightarrow>
    exn + (coord_event \<times> command list) list \<times> coordination_state" where
  "feed s [] tr = Inr (tr, s)"
| "feed s (ev # evs) tr = bindE (coord_step s ev) (\<lambda>(s', cmds). feed s' evs (tr @ [(ev, cmds)]))"

lemma feed_run: "coord_run tr s \<Longrightarrow> feed s evs tr = Inr (tr', s') \<Longrightarrow> coord_run tr' s'"
proof (induction evs arbitrary: tr s)
  case Nil
  then show ?case by simp
next
  case (Cons ev evs)
  then show ?case by (auto split: prod.splits intro: coord_run.step)
qed

definition demo_events :: "coord_event list" where
  "demo_events = [Availability [lit ''a'', lit ''b''], Peer_confirm True, Owner_confirm False,
     Peer_confirm True, Owner_confirm True]"

lemma demo_run: "\<exists>tr s. coord_run tr s \<and>
    tr = [(Availability [lit ''a'', lit ''b''], [Send_slot_confirm (lit ''a'')]),
      (Peer_confirm True, [Request_owner_confirm (lit ''a'')]),
      (Owner_confirm False, [Send_slot_confirm (lit ''b'')]),
      (Peer_confirm True, [Request_owner_confirm (lit ''b'')]),
      (Owner_confirm True, [Execute_calendar_write (lit ''b'')])] \<and> cs_phase s = Phase_EXECUTE"
proof -
  have "feed (fst start) demo_events [] = Inr
     ([(Availability [lit ''a'', lit ''b''], [Send_slot_confirm (lit ''a'')]),
      (Peer_confirm True, [Request_owner_confirm (lit ''a'')]),
      (Owner_confirm False, [Send_slot_confirm (lit ''b'')]),
      (Peer_confirm True, [Request_owner_confirm (lit ''b'')]),
      (Owner_confirm True, [Execute_calendar_write (lit ''b'')])],
      \<lparr>cs_phase = Phase_EXECUTE, cs_candidates = [lit ''a'', lit ''b''], cs_cursor = 1, cs_renegotiated = True\<rparr>)"
    by (simp add: demo_events_def start_def coord_defs)
  from feed_run [OF coord_run.start this] show ?thesis by auto
qed

theorem coord_write_needs_both_witness:
  "\<exists>tr s. coord_run tr s \<and> filter is_write (run_commands tr) = [Execute_calendar_write (lit ''b'')]"
proof -
  from demo_run obtain tr s where r: "coord_run tr s" and
    m: "(Owner_confirm True, [Execute_calendar_write (lit ''b'')]) \<in> set tr" by auto
  from coord_write_needs_both [OF r m] r show ?thesis by auto
qed

text \<open>The events that a phase waits for.\<close>

fun awaited :: "phase \<Rightarrow> coord_event \<Rightarrow> bool" where
  "awaited Phase_AWAIT_AVAILABILITY ev \<longleftrightarrow> (case ev of Availability _ \<Rightarrow> True | Timeout \<Rightarrow> True | _ \<Rightarrow> False)"
| "awaited Phase_AWAIT_PEER_CONFIRM ev \<longleftrightarrow> (case ev of Peer_confirm _ \<Rightarrow> True | Timeout \<Rightarrow> True | _ \<Rightarrow> False)"
| "awaited Phase_AWAIT_OWNER_CONFIRM ev \<longleftrightarrow> (case ev of Owner_confirm _ \<Rightarrow> True | _ \<Rightarrow> False)"
| "awaited Phase_EXECUTE ev \<longleftrightarrow> ev = Executed"
| "awaited _ ev \<longleftrightarrow> False"

lemma coord_step_awaited:
  assumes "phase_inv (cs_phase s) tr s"
  shows "is_Inr (coord_step s ev) \<longleftrightarrow> awaited (cs_phase s) ev"
  using assms
  by (cases "cs_phase s"; cases ev)
    (auto simp: coord_defs is_Inr_def negotiating_def guardE_def split: list.splits)

text \<open>C32. Every coordination ends: at most six events are processed, the peer is asked about at most two
  slots (one renegotiation), an event is refused exactly when the phase does not wait for it, and no
  event is accepted after the end.\<close>

theorem coord_always_ends:
  assumes "coord_run tr s"
  shows "length tr \<le> 6 \<and> length (filter is_proposal (run_commands tr)) \<le> 2
    \<and> (is_Inr (coord_step s ev) \<longleftrightarrow> awaited (cs_phase s) ev)
    \<and> ((\<exists>ev. is_Inr (coord_step s ev)) \<longleftrightarrow> cs_phase s \<notin> insert Phase_DONE TERMINAL_FAILURES)"
proof -
  note inv = coord_run_inv [OF assms]
  have "(\<exists>ev. awaited p ev) \<longleftrightarrow> p \<notin> {Phase_INIT, Phase_DONE} \<union> TERMINAL_FAILURES" for p
    by (cases p) (auto simp: TERMINAL_FAILURES_def split: coord_event.splits)
  then have "(\<exists>ev. is_Inr (coord_step s ev)) \<longleftrightarrow> cs_phase s \<notin> insert Phase_DONE TERMINAL_FAILURES"
    using inv by (auto simp: coord_step_awaited [OF inv])
  with phase_inv_bounds [OF inv] coord_step_awaited [OF inv] show ?thesis by blast
qed

theorem coord_always_ends_witness:
  "\<exists>tr s. coord_run tr s \<and> length tr = 5 \<and> length tr \<le> 6 \<and> cs_phase s \<notin> insert Phase_DONE TERMINAL_FAILURES"
proof -
  from demo_run obtain tr s where r: "coord_run tr s" and l: "length tr = 5" and p: "cs_phase s = Phase_EXECUTE" by auto
  from p have "cs_phase s \<notin> insert Phase_DONE TERMINAL_FAILURES" by (simp add: TERMINAL_FAILURES_def)
  with coord_always_ends [OF r] r l show ?thesis by blast
qed

text \<open>C33. A coordination that ended in a failure commanded no calendar write, and its last event told the
  owner; one that ended well posted the confirmation of the slot that was written.\<close>

theorem coord_end_is_told:
  assumes "coord_run tr s"
  shows "(cs_phase s \<in> TERMINAL_FAILURES \<longrightarrow>
      filter is_write (run_commands tr) = [] \<and> (\<exists>c. snd (last tr) = [c] \<and> is_notice c))
    \<and> (cs_phase s = Phase_DONE \<longrightarrow> (\<exists>slot. filter is_write (run_commands tr) = [Execute_calendar_write slot]
      \<and> last tr = (Executed, [Post_team_confirmation slot, Notify_result slot])))"
proof (intro conjI impI)
  note inv = coord_run_inv [OF assms]
  show "filter is_write (run_commands tr) = []" if "cs_phase s \<in> TERMINAL_FAILURES"
    using inv that by (auto simp: TERMINAL_FAILURES_def)
  show "\<exists>c. snd (last tr) = [c] \<and> is_notice c" if "cs_phase s \<in> TERMINAL_FAILURES"
    using inv that by (auto simp: TERMINAL_FAILURES_def)
  show "\<exists>slot. filter is_write (run_commands tr) = [Execute_calendar_write slot]
      \<and> last tr = (Executed, [Post_team_confirmation slot, Notify_result slot])" if "cs_phase s = Phase_DONE"
    using inv that by (fastforce simp: both_accepted_def command_kinds)
qed

theorem coord_end_is_told_witness:
  "\<exists>tr s. coord_run tr s \<and> cs_phase s = Phase_DEADLOCK_NO_SLOTS \<and> filter is_write (run_commands tr) = []"
proof -
  have r: "coord_run ([] @ [(Availability [], [Notify_escalation (lit ''no_candidates'')])])
      ((fst start)\<lparr>cs_phase := Phase_DEADLOCK_NO_SLOTS\<rparr>)"
    by (rule coord_run.step [OF coord_run.start]) (simp add: start_def coord_defs)
  from coord_end_is_told [OF r] r show ?thesis
    by (auto simp: TERMINAL_FAILURES_def start_def intro!: exI)
qed

end
