(* ===== verification/ChannelDirectory.thy ===== *)
theory ChannelDirectory
  imports ApprovalSurface DrivePending
begin

text \<open>
  \<open>automation/interop/approval_directory.py\<close>: the Discord directory that answers the three questions
  of \<open>ApprovalSurface\<close>. The REST call is an argument over a network state of its own; the memo of the
  owner's channel and the cache file are the state of the directory. A file is what reading it gives.
\<close>

section \<open>State and responses\<close>

record 'n directory_state =
  ds_net :: 'n
  ds_memo :: "ustr option"
  ds_cache :: file_read

datatype rest_method = GET | POST

record 'n discord_directory =
  dd_token :: ustr
  dd_owner_id :: ustr
  dd_api :: "rest_method \<Rightarrow> ustr \<Rightarrow> json option \<Rightarrow> ('n, exn, json) eff"
  dd_has_cache :: bool
  dd_cache_write_fails :: bool
  dd_config :: file_read
  dd_sha256 :: "ustr \<Rightarrow> ustr"

text \<open>\<open>__post_init__\<close>.\<close>

definition directory_ok :: "'n discord_directory \<Rightarrow> exn + unit" where
  "directory_ok d = guardE (dd_token d \<noteq> [] \<and> dd_owner_id d \<noteq> []) SurfacePolicyError"

definition json_object :: "json \<Rightarrow> exn + (ustr \<times> json) list" where
  "json_object v = (case v of JObj kvs \<Rightarrow> Inr kvs | _ \<Rightarrow> Inl SurfacePolicyError)"

definition json_array :: "json \<Rightarrow> exn + json list" where
  "json_array v = (case v of JArr vs \<Rightarrow> Inr vs | _ \<Rightarrow> Inl SurfacePolicyError)"

definition required_string :: "(ustr \<times> json) list \<Rightarrow> string \<Rightarrow> exn + ustr" where
  "required_string payload key = (case jget payload key of
      Some (JStr s) \<Rightarrow> if s = [] then Inl SurfacePolicyError else Inr s
    | _ \<Rightarrow> Inl SurfacePolicyError)"

type_synonym ('n, 'a) dir_eff = "('n directory_state, exn, 'a) eff"

definition api_call :: "'n discord_directory \<Rightarrow> rest_method \<Rightarrow> ustr \<Rightarrow> json option \<Rightarrow> ('n, json) dir_eff" where
  "api_call d method path payload = (\<lambda>w. case dd_api d method path payload (ds_net w) of
      (r, n) \<Rightarrow> (r, w\<lparr>ds_net := n\<rparr>))"

definition rest_request :: "'n discord_directory \<Rightarrow> rest_method \<Rightarrow> ustr \<Rightarrow> json option \<Rightarrow> ('n, json) dir_eff" where
  "rest_request d method path payload = fail_closed (api_call d method path payload)"

section \<open>The operations\<close>

definition owner_dm :: "'n discord_directory \<Rightarrow> ('n, ustr) dir_eff" where
  "owner_dm d = (\<lambda>w. case ds_memo w of
      Some c \<Rightarrow> (Inr c, w)
    | None \<Rightarrow>
        bindM (rest_request d POST (lit ''/users/@me/channels'') (Some (JObj [(lit ''recipient_id'', JStr (dd_owner_id d))])))
          (\<lambda>response. bindM (liftE (json_object response)) (\<lambda>body.
            bindM (liftE (required_string body ''id'')) (\<lambda>channel_id.
              (\<lambda>w'. (Inr channel_id, w'\<lparr>ds_memo := Some channel_id\<rparr>))))) w)"

text \<open>A JSON file: a missing one has no value, the other failures raise.\<close>

definition json_file :: "file_read \<Rightarrow> exn + (ustr \<times> json) list option" where
  "json_file f = (case f of
      FileMissing \<Rightarrow> Inr None
    | FileOSError \<Rightarrow> Inl SurfacePolicyError
    | FileNotUtf8 \<Rightarrow> Inl UnicodeDecodeError
    | FileNotJson \<Rightarrow> Inl SurfacePolicyError
    | FileJson v \<Rightarrow> bindE (json_object v) (\<lambda>kvs. Inr (Some kvs)))"

definition configured_approvals_channel :: "file_read \<Rightarrow> exn + ustr option" where
  "configured_approvals_channel f =
     bindE (json_file f) (\<lambda>config. case config of
        None \<Rightarrow> Inr None
      | Some kvs \<Rightarrow> (case jget kvs ''personal_approvals_channel_id'' of
            None \<Rightarrow> Inr None
          | Some JNull \<Rightarrow> Inr None
          | Some _ \<Rightarrow> bindE (required_string kvs ''personal_approvals_channel_id'') (\<lambda>c. Inr (Some c))))"

definition token_fingerprint :: "'n discord_directory \<Rightarrow> ustr" where
  "token_fingerprint d = take 16 (dd_sha256 d (dd_token d))"

definition cached_approvals_channel :: "'n discord_directory \<Rightarrow> file_read \<Rightarrow> exn + ustr option" where
  "cached_approvals_channel d f =
     (if \<not> dd_has_cache d then Inr None
      else bindE (json_file f) (\<lambda>cache. case cache of
        None \<Rightarrow> Inr None
      | Some kvs \<Rightarrow>
          if jget kvs ''token_fingerprint'' \<noteq> Some (JStr (token_fingerprint d)) then Inr None
          else bindE (required_string kvs ''approvals_channel_id'') (\<lambda>c. Inr (Some c))))"

text \<open>\<open>details.get("type") == 0\<close>: False and 0.0 are equal to 0.\<close>

definition equals_zero :: "json option \<Rightarrow> bool" where
  "equals_zero v \<longleftrightarrow> v = Some (JInt 0) \<or> v = Some (JBool False) \<or> v = Some (JFloat 0)"

fun approvals_in :: "json list \<Rightarrow> exn + ustr list" where
  "approvals_in [] = Inr []"
| "approvals_in (channel # channels) =
     bindE (json_object channel) (\<lambda>details.
     bindE (if equals_zero (jget details ''type'') \<and> jget details ''name'' = Some (JStr (lit ''approvals''))
            then bindE (required_string details ''id'') (\<lambda>i. Inr [i]) else Inr []) (\<lambda>found.
     bindE (approvals_in channels) (\<lambda>rest. Inr (found @ rest))))"

definition scan_guild :: "'n discord_directory \<Rightarrow> json \<Rightarrow> ('n, ustr list) dir_eff" where
  "scan_guild d guild =
     bindM (liftE (bindE (json_object guild) (\<lambda>g. required_string g ''id''))) (\<lambda>guild_id.
     bindM (rest_request d GET (lit ''/guilds/'' @ guild_id @ lit ''/channels'') None) (\<lambda>channels.
       liftE (bindE (json_array channels) approvals_in)))"

definition the_only :: "ustr list \<Rightarrow> exn + ustr" where
  "the_only matches = (case matches of [c] \<Rightarrow> Inr c | _ \<Rightarrow> Inl SurfacePolicyError)"

definition scan_for_approvals :: "'n discord_directory \<Rightarrow> ('n, ustr) dir_eff" where
  "scan_for_approvals d =
     bindM (rest_request d GET (lit ''/users/@me/guilds'') None) (\<lambda>response.
     bindM (liftE (json_array response)) (\<lambda>guilds.
     bindM (mapM (scan_guild d) guilds) (\<lambda>found.
       liftE (the_only (concat found)))))"

definition write_cache :: "'n discord_directory \<Rightarrow> ustr \<Rightarrow> ('n, unit) dir_eff" where
  "write_cache d channel_id =
     (if \<not> dd_has_cache d then ret ()
      else if dd_cache_write_fails d then raise_exn SurfacePolicyError
      else (\<lambda>w. (Inr (), w\<lparr>ds_cache := FileJson (JObj
        [(lit ''approvals_channel_id'', JStr channel_id), (lit ''token_fingerprint'', JStr (token_fingerprint d))])\<rparr>)))"

definition skill_approvals :: "'n discord_directory \<Rightarrow> ('n, ustr) dir_eff" where
  "skill_approvals d = bindM (liftE (configured_approvals_channel (dd_config d))) (\<lambda>configured.
     case configured of
       Some c \<Rightarrow> ret c
     | None \<Rightarrow> bindM (\<lambda>w. liftE (cached_approvals_channel d (ds_cache w)) w) (\<lambda>cached.
         case cached of
           Some c \<Rightarrow> ret c
         | None \<Rightarrow> bindM (scan_for_approvals d) (\<lambda>channel_id. bindM (write_cache d channel_id) (\<lambda>_. ret channel_id))))"

definition recipient_id :: "json \<Rightarrow> exn + ustr" where
  "recipient_id recipient = bindE (json_object recipient) (\<lambda>r. required_string r ''id'')"

definition channel_facts_of :: "json \<Rightarrow> exn + channel_facts" where
  "channel_facts_of response =
     bindE (json_object response) (\<lambda>body.
     bindE (case jget body ''type'' of Some (JInt t) \<Rightarrow> Inr t | _ \<Rightarrow> Inl SurfacePolicyError) (\<lambda>channel_type.
     bindE (case jget body ''name'' of None \<Rightarrow> Inr [] | Some JNull \<Rightarrow> Inr [] | Some (JStr n) \<Rightarrow> Inr n
            | _ \<Rightarrow> Inl SurfacePolicyError) (\<lambda>channel_name.
     bindE (case jget body ''recipients'' of None \<Rightarrow> Inr [] | Some (JArr rs) \<Rightarrow> Inr rs
            | _ \<Rightarrow> Inl SurfacePolicyError) (\<lambda>recipients.
     bindE (mapE recipient_id recipients) (\<lambda>recipient_ids.
       Inr \<lparr>cf_channel_type = channel_type, cf_name = channel_name, cf_recipient_ids = recipient_ids\<rparr>)))))"

definition describe_channel :: "'n discord_directory \<Rightarrow> ustr \<Rightarrow> ('n, channel_facts) dir_eff" where
  "describe_channel d channel_id =
     bindM (rest_request d GET (lit ''/channels/'' @ channel_id) None) (\<lambda>response. liftE (channel_facts_of response))"

text \<open>The directory as the object that \<open>ApprovalSurface\<close> takes.\<close>

definition discord_ops :: "'n discord_directory \<Rightarrow> 'n directory_state directory" where
  "discord_ops d = \<lparr>di_owner_dm = owner_dm d, di_skill_approvals = skill_approvals d, di_describe = describe_channel d\<rparr>"

section \<open>Where a channel id may come from\<close>

lemma cached_after_write:
  "dd_has_cache d \<Longrightarrow> write_cache d c w = (Inr u, w') \<Longrightarrow> c \<noteq> [] \<Longrightarrow>
     cached_approvals_channel d (ds_cache w') = Inr (Some c)"
  by (auto simp: write_cache_def raise_exn_def cached_approvals_channel_def json_file_def json_object_def
      required_string_def split: if_splits)

lemma approvals_in_nonempty: "approvals_in cs = Inr ids \<Longrightarrow> [] \<notin> set ids"
proof (induction cs arbitrary: ids)
  case (Cons c cs)
  then obtain details found rest where f: "(if equals_zero (jget details ''type'') \<and>
        jget details ''name'' = Some (JStr (lit ''approvals''))
      then bindE (required_string details ''id'') (\<lambda>i. Inr [i]) else Inr []) = Inr found"
    and "approvals_in cs = Inr rest" "ids = found @ rest" by auto
  moreover from f have "[] \<notin> set found"
    by (auto simp: required_string_def split: if_splits option.splits json.splits)
  ultimately show ?case using Cons.IH by auto
qed simp

lemma scan_guild_nonempty: "scan_guild d g w = (Inr ids, w') \<Longrightarrow> [] \<notin> set ids"
  by (auto simp: scan_guild_def run_simps dest: approvals_in_nonempty)

lemma mapM_all:
  assumes "\<And>x w y w'. f x w = (Inr y, w') \<Longrightarrow> P y"
  shows "mapM f xs w = (Inr ys, w') \<Longrightarrow> list_all P ys"
proof (induction xs arbitrary: w ys)
  case Nil
  then show ?case by (simp add: run_simps)
next
  case (Cons x xs)
  then show ?case using assms by (fastforce simp: run_simps)
qed

lemma the_only_Inr: "the_only xs = Inr c \<longleftrightarrow> xs = [c]"
  by (auto simp: the_only_def split: list.splits)

lemma scan_nonempty:
  assumes "scan_for_approvals d w = (Inr c, w')"
  shows "c \<noteq> []"
proof -
  from assms obtain gs found w1 w2 where m: "mapM (scan_guild d) gs w1 = (Inr found, w2)" and c: "concat found = [c]"
    by (auto simp: scan_for_approvals_def run_simps the_only_Inr)
  have "list_all (\<lambda>ids. [] \<notin> set ids) found"
    using m scan_guild_nonempty by (rule mapM_all [rotated])
  then have "[] \<notin> set (concat found)" by (auto simp: list_all_iff)
  with c show ?thesis by auto
qed

definition scanned :: "'n discord_directory \<Rightarrow> 'n directory_state \<Rightarrow> ustr \<Rightarrow> bool" where
  "scanned d w c \<longleftrightarrow> fst (scan_for_approvals d w) = Inr c"

lemma skill_approvals_scan:
  assumes "configured_approvals_channel (dd_config d) = Inr None"
    and "cached_approvals_channel d (ds_cache w) = Inr None"
  shows "skill_approvals d w = bindM (scan_for_approvals d) (\<lambda>c. bindM (write_cache d c) (\<lambda>_. ret c)) w"
  using assms by (simp add: skill_approvals_def bindM_app liftE_def ret_def)

lemma skill_approvals_cases:
  assumes "skill_approvals d w = (Inr c, w')"
  obtains (Configured) "configured_approvals_channel (dd_config d) = Inr (Some c)" "w' = w"
  | (Cached) "configured_approvals_channel (dd_config d) = Inr None"
      "cached_approvals_channel d (ds_cache w) = Inr (Some c)" "w' = w"
  | (Scanned) w1 where "configured_approvals_channel (dd_config d) = Inr None"
      "cached_approvals_channel d (ds_cache w) = Inr None"
      "scan_for_approvals d w = (Inr c, w1)" "write_cache d c w1 = (Inr (), w')"
proof -
  from assms obtain configured where c: "configured_approvals_channel (dd_config d) = Inr configured"
    by (cases "configured_approvals_channel (dd_config d)")
      (simp_all add: skill_approvals_def bindM_app liftE_def ret_def raise_exn_def)
  show thesis
  proof (cases configured)
    case (Some c')
    with assms c have "c' = c" "w' = w" by (simp_all add: skill_approvals_def bindM_app liftE_def ret_def)
    with c Some show ?thesis by (intro Configured) simp_all
  next
    case None
    with assms c obtain cached where e: "cached_approvals_channel d (ds_cache w) = Inr cached"
      by (cases "cached_approvals_channel d (ds_cache w)")
        (simp_all add: skill_approvals_def bindM_app liftE_def ret_def raise_exn_def)
    show ?thesis
    proof (cases cached)
      case (Some c')
      with assms c None e have "c' = c" "w' = w"
        by (simp_all add: skill_approvals_def bindM_app liftE_def ret_def)
      with c None e Some show ?thesis by (intro Cached) simp_all
    next
      case None
      have "bindM (scan_for_approvals d) (\<lambda>c. bindM (write_cache d c) (\<lambda>_. ret c)) w = (Inr c, w')"
        using assms skill_approvals_scan [of d w] c \<open>configured = None\<close> e None by simp
      then obtain w1 where "scan_for_approvals d w = (Inr c, w1)" "write_cache d c w1 = (Inr (), w')"
        by (auto simp: run_simps)
      with c e None \<open>configured = None\<close> show ?thesis by (intro Scanned) simp_all
    qed
  qed
qed

text \<open>C31. The approval channel is the configured one; without one, the one cached for this token; and only
  then the one channel named approvals that the scan of the guilds finds. A found channel is cached, so
  that asking again gives the same channel without a request. No answer comes from anywhere else, and
  asking for it never touches the memo of the owner's channel.\<close>

theorem directory_precedence:
  assumes "skill_approvals d w = (Inr c, w')"
  shows "(configured_approvals_channel (dd_config d) = Inr (Some c) \<and> w' = w
      \<or> configured_approvals_channel (dd_config d) = Inr None \<and>
          (cached_approvals_channel d (ds_cache w) = Inr (Some c) \<and> w' = w
           \<or> cached_approvals_channel d (ds_cache w) = Inr None \<and> scanned d w c))
    \<and> (dd_has_cache d \<longrightarrow> skill_approvals d w' = (Inr c, w'))"
  using assms
proof (cases rule: skill_approvals_cases)
  case Configured
  with assms show ?thesis by simp
next
  case Cached
  with assms show ?thesis by simp
next
  case (Scanned w1)
  have "skill_approvals d w' = (Inr c, w')" if "dd_has_cache d"
    using cached_after_write [OF that Scanned(4) scan_nonempty [OF Scanned(3)]] Scanned(1)
    by (simp add: skill_approvals_def bindM_app liftE_def ret_def)
  with Scanned show ?thesis by (simp add: scanned_def)
qed

definition demo_directory :: "nat discord_directory" where
  "demo_directory = \<lparr>dd_token = lit ''t'', dd_owner_id = lit ''1'',
     dd_api = (\<lambda>m path payload n. (Inr (if n = 0 then JArr [JObj [(lit ''id'', JStr (lit ''7''))]]
        else JArr [JObj [(lit ''type'', JInt 0), (lit ''name'', JStr (lit ''approvals'')), (lit ''id'', JStr (lit ''42''))]]), Suc n)),
     dd_has_cache = True, dd_cache_write_fails = False, dd_config = FileMissing, dd_sha256 = (\<lambda>t. t)\<rparr>"

lemma demo_skill_approvals:
  "\<exists>w'. skill_approvals demo_directory \<lparr>ds_net = 0, ds_memo = None, ds_cache = FileMissing\<rparr> = (Inr (lit ''42''), w')"
  by (simp add: skill_approvals_def demo_directory_def configured_approvals_channel_def cached_approvals_channel_def
      json_file_def scan_for_approvals_def scan_guild_def rest_request_def api_call_def fail_closed_def catchM_def
      json_array_def json_object_def required_string_def equals_zero_def the_only_def write_cache_def
      bindM_app liftE_def ret_def)

theorem directory_precedence_witness:
  "\<exists>w'. skill_approvals demo_directory \<lparr>ds_net = 0, ds_memo = None, ds_cache = FileMissing\<rparr> = (Inr (lit ''42''), w')
     \<and> skill_approvals demo_directory w' = (Inr (lit ''42''), w')"
proof -
  from demo_skill_approvals obtain w' where
    s: "skill_approvals demo_directory \<lparr>ds_net = 0, ds_memo = None, ds_cache = FileMissing\<rparr> = (Inr (lit ''42''), w')" by blast
  have "dd_has_cache demo_directory" by (simp add: demo_directory_def)
  with directory_precedence [OF s] s show ?thesis by blast
qed

end
