(* ===== verification/Messaging.thy ===== *)
theory Messaging
  imports Coordination
begin

text \<open>
  \<open>automation/interop/chunker.py\<close>, \<open>discord_transport.py\<close>, \<open>killswitch.py\<close>, \<open>report.py\<close> and
  \<open>loop_guard.py\<close>: how messages of the agents are cutoff, sent, paused, parsed as reports and kept
  from looping. What Discord answers to a post is an argument; Unicode normalisation, hashing and
  the similarity ratio are the record \<open>text_tools\<close>.
\<close>

section \<open>Chunks\<close>

definition DISCORD_MESSAGE_LIMIT :: int where "DISCORD_MESSAGE_LIMIT = 2000"

text \<open>\<open>range(0, n, step)\<close> for a positive step.\<close>

definition range_step :: "nat \<Rightarrow> nat \<Rightarrow> nat list" where
  "range_step n step = map (\<lambda>i. i * step) [0..<(n + step - 1) div step]"

definition chunk_message :: "ustr \<Rightarrow> int \<Rightarrow> exn + ustr list" where
  "chunk_message message limit =
     (if limit < 1 then Inl ValueError
      else let chunks = map (\<lambda>index. take (nat limit) (drop index message)) (range_step (length message) (nat limit)) in
        Inr (if chunks = [] then [[]] else chunks))"

section \<open>Transport\<close>

text \<open>What one POST gives: a body, HTTP 429, or another error that is raised. A transport is
  driven by the answers still to come; None is a send that has not returned after all of them.\<close>

datatype post_answer = Answer json | Rate_limited | Failed exn

definition message_id_of :: "json \<Rightarrow> exn + ustr" where
  "message_id_of payload = (case payload of
      JObj kvs \<Rightarrow> bindE (need kvs ''id'') (\<lambda>v. case v of JStr i \<Rightarrow> Inr i | _ \<Rightarrow> Inl ValueError)
    | _ \<Rightarrow> Inl TypeError)"

record transport_state =
  ts_answers :: "post_answer list"
  ts_posts :: "(ustr \<times> post_answer) list"

text \<open>One chunk: the loop of \<open>_send_chunk\<close> posts again after a rate limit.\<close>

fun send_chunk :: "ustr \<Rightarrow> post_answer list \<Rightarrow> (ustr \<times> post_answer) list \<Rightarrow>
    ((exn + ustr) \<times> transport_state) option" where
  "send_chunk chunk [] posts = None"
| "send_chunk chunk (a # answers) posts =
     (let posts' = posts @ [(chunk, a)]; st = \<lparr>ts_answers = answers, ts_posts = posts'\<rparr> in
      case a of
        Rate_limited \<Rightarrow> send_chunk chunk answers posts'
      | Failed e \<Rightarrow> Some (Inl e, st)
      | Answer payload \<Rightarrow> Some (message_id_of payload, st))"

fun send_chunks :: "ustr list \<Rightarrow> transport_state \<Rightarrow> ((exn + ustr list) \<times> transport_state) option" where
  "send_chunks [] st = Some (Inr [], st)"
| "send_chunks (c # cs) st =
     (case send_chunk c (ts_answers st) (ts_posts st) of
        None \<Rightarrow> None
      | Some (Inl e, st') \<Rightarrow> Some (Inl e, st')
      | Some (Inr i, st') \<Rightarrow> (case send_chunks cs st' of
            None \<Rightarrow> None
          | Some (Inl e, st'') \<Rightarrow> Some (Inl e, st'')
          | Some (Inr ids, st'') \<Rightarrow> Some (Inr (i # ids), st'')))"

definition send :: "ustr \<Rightarrow> transport_state \<Rightarrow> ((exn + ustr list) \<times> transport_state) option" where
  "send body st = (case chunk_message body DISCORD_MESSAGE_LIMIT of
      Inl e \<Rightarrow> Some (Inl e, st) | Inr chunks \<Rightarrow> send_chunks chunks st)"

section \<open>The kill switch\<close>

record kill_switch_result =
  ks_accepted :: bool
  ks_paused :: bool
  ks_reason :: "ustr option"

text \<open>The pause sentinel is a file; the second component says whether it exists afterwards.\<close>

definition handle :: "ustr \<Rightarrow> ustr \<Rightarrow> ustr \<Rightarrow> bool \<Rightarrow> kill_switch_result \<times> bool" where
  "handle owner_id command actor_id paused =
     (if actor_id \<noteq> owner_id then
        (\<lparr>ks_accepted = False, ks_paused = paused, ks_reason = Some (lit ''owner_required'')\<rparr>, paused)
      else if command = lit ''!pause-agents'' then
        (\<lparr>ks_accepted = True, ks_paused = True, ks_reason = None\<rparr>, True)
      else if command = lit ''!resume-agents'' then
        (\<lparr>ks_accepted = True, ks_paused = False, ks_reason = None\<rparr>, False)
      else (\<lparr>ks_accepted = False, ks_paused = paused, ks_reason = Some (lit ''unknown_command'')\<rparr>, paused))"

section \<open>Reports\<close>

datatype report_status = Status_START | Status_DONE | Status_BLOCKED

fun status_value :: "report_status \<Rightarrow> ustr" where
  "status_value Status_START = lit ''start''"
| "status_value Status_DONE = lit ''done''"
| "status_value Status_BLOCKED = lit ''blocked''"

definition status_of :: "ustr \<Rightarrow> report_status option" where
  "status_of s = find (\<lambda>st. status_value st = s) [Status_START, Status_DONE, Status_BLOCKED]"

record 't task_report =
  tr_agent_id :: ustr
  tr_task_id :: ustr
  tr_status :: report_status
  tr_summary :: ustr
  tr_links :: "ustr list"
  tr_timestamp :: 't

text \<open>\<open>json.loads\<close>, the rendering of \<open>json.dumps(..., indent=2)\<close>, the masks of \<open>mask_summary\<close>
  and the ISO form of timestamps are arguments.\<close>

record 't report_tools =
  rt_loads :: "ustr \<Rightarrow> json option"
  rt_dumps :: "json \<Rightarrow> ustr"
  rt_mask_summary :: "ustr \<Rightarrow> ustr"
  rt_fromisoformat :: "ustr \<Rightarrow> 't option"
  rt_isoformat :: "'t \<Rightarrow> ustr"

definition report_keys :: "ustr set" where
  "report_keys = {lit ''version'', lit ''agent_id'', lit ''task_id'', lit ''status'', lit ''summary'',
     lit ''links'', lit ''timestamp''}"

definition report_json :: "'t report_tools \<Rightarrow> 't task_report \<Rightarrow> json" where
  "report_json rt r = JObj
     [(lit ''version'', JStr (lit ''v0'')), (lit ''agent_id'', JStr (tr_agent_id r)),
      (lit ''task_id'', JStr (tr_task_id r)), (lit ''status'', JStr (status_value (tr_status r))),
      (lit ''summary'', JStr (rt_mask_summary rt (tr_summary r))), (lit ''links'', JArr (map JStr (tr_links r))),
      (lit ''timestamp'', JStr (rt_isoformat rt (tr_timestamp r)))]"

definition OPEN_FENCE :: ustr where "OPEN_FENCE = lit ''```json'' @ [10]"

definition CLOSE_FENCE :: ustr where "CLOSE_FENCE = 10 # lit ''```''"

definition format_report :: "'t report_tools \<Rightarrow> 't task_report \<Rightarrow> ustr" where
  "format_report rt r = OPEN_FENCE @ rt_dumps rt (report_json rt r) @ CLOSE_FENCE"

text \<open>\<open>_REPORT_PATTERN.fullmatch(message).group(1)\<close>.\<close>

definition report_block :: "ustr \<Rightarrow> ustr option" where
  "report_block message =
     (let body = drop (length OPEN_FENCE) (take (length message - length CLOSE_FENCE) message) in
      if length OPEN_FENCE + length CLOSE_FENCE + 2 \<le> length message \<and> starts_with message OPEN_FENCE
         \<and> ends_with message CLOSE_FENCE \<and> hd body = 123 \<and> last body = 125
      then Some body else None)"

fun str_items :: "json list \<Rightarrow> ustr list option" where
  "str_items [] = Some []"
| "str_items (JStr s # vs) = map_option (\<lambda>ss. s # ss) (str_items vs)"
| "str_items (v # vs) = None"

definition report_of_json :: "'t report_tools \<Rightarrow> json \<Rightarrow> 't task_report option" where
  "report_of_json rt v = (case v of
      JObj kvs \<Rightarrow>
        if key_set kvs \<noteq> report_keys \<or> jfield kvs ''version'' \<noteq> JStr (lit ''v0'') then None
        else (case (jfield kvs ''agent_id'', jfield kvs ''task_id'', jfield kvs ''status'', jfield kvs ''summary'',
                    jfield kvs ''links'', jfield kvs ''timestamp'') of
          (JStr agent_id, JStr task_id, JStr status, JStr summary, JArr raw_links, JStr timestamp) \<Rightarrow>
            (case (str_items raw_links, status_of status, rt_fromisoformat rt timestamp) of
               (Some links, Some st, Some ts) \<Rightarrow>
                 Some \<lparr>tr_agent_id = agent_id, tr_task_id = task_id, tr_status = st, tr_summary = summary,
                   tr_links = links, tr_timestamp = ts\<rparr>
             | _ \<Rightarrow> None)
        | _ \<Rightarrow> None)
    | _ \<Rightarrow> None)"

definition parse_report :: "'t report_tools \<Rightarrow> ustr \<Rightarrow> 't task_report option" where
  "parse_report rt message =
     Option.bind (report_block message) (\<lambda>block. Option.bind (rt_loads rt block) (report_of_json rt))"

section \<open>The loop guard\<close>

record text_tools =
  tt_nfkc_casefold :: "ustr \<Rightarrow> ustr"
  tt_hash :: "ustr \<Rightarrow> ustr"
  tt_isalnum :: "nat \<Rightarrow> bool"
  tt_ratio :: "ustr \<Rightarrow> ustr \<Rightarrow> rat"

definition MAX_REPLIES_PER_WINDOW :: nat where "MAX_REPLIES_PER_WINDOW = 5"

definition WINDOW_SECONDS :: rat where "WINDOW_SECONDS = 60"

definition MAX_LOW_VALUE_REPLIES_PER_WINDOW :: nat where "MAX_LOW_VALUE_REPLIES_PER_WINDOW = 2"

definition NEAR_DUPLICATE_RATIO :: rat where "NEAR_DUPLICATE_RATIO = 85 / 100"

record guard_decision =
  gd_suppressed :: bool
  gd_reason :: "ustr option"

text \<open>The deques \<open>timestamps\<close> and \<open>normalized_bodies\<close> grow and shrink together; they are kept as two lists.\<close>

record thread_window =
  tw_timestamps :: "rat list"
  tw_body_hashes :: "ustr set"
  tw_normalized_bodies :: "ustr list"

type_synonym loop_guard = "(ustr, thread_window) dict"

definition empty_window :: thread_window where
  "empty_window = \<lparr>tw_timestamps = [], tw_body_hashes = {}, tw_normalized_bodies = []\<rparr>"

definition window_of :: "loop_guard \<Rightarrow> ustr \<Rightarrow> thread_window" where
  "window_of g thread_id = (case dict_get g thread_id of Some w \<Rightarrow> w | None \<Rightarrow> empty_window)"

fun expire :: "rat \<Rightarrow> rat list \<Rightarrow> ustr list \<Rightarrow> rat list \<times> ustr list" where
  "expire cutoff (t # ts) bodies = (if t \<le> cutoff then expire cutoff ts (tl bodies) else (t # ts, bodies))"
| "expire cutoff [] bodies = ([], bodies)"

definition prune :: "rat \<Rightarrow> thread_window \<Rightarrow> thread_window" where
  "prune now w =
     (let (ts, bodies) = expire (now - WINDOW_SECONDS) (tw_timestamps w) (tw_normalized_bodies w) in
      \<lparr>tw_timestamps = ts, tw_body_hashes = (if ts = [] then {} else tw_body_hashes w), tw_normalized_bodies = bodies\<rparr>)"

definition normalize_body :: "text_tools \<Rightarrow> ustr \<Rightarrow> ustr" where
  "normalize_body tt body = join (lit '' '') (split_ws (tt_nfkc_casefold tt body))"

definition is_low_information :: "text_tools \<Rightarrow> ustr \<Rightarrow> bool" where
  "is_low_information tt body \<longleftrightarrow> length (filter (tt_isalnum tt) body) \<le> 4"

definition low_value_count :: "text_tools \<Rightarrow> thread_window \<Rightarrow> nat" where
  "low_value_count tt w = length (filter (is_low_information tt) (tw_normalized_bodies w))"

definition similar :: "text_tools \<Rightarrow> ustr \<Rightarrow> ustr \<Rightarrow> bool" where
  "similar tt current prior \<longleftrightarrow> \<not> is_low_information tt current \<and> tt_ratio tt current prior \<ge> NEAR_DUPLICATE_RATIO"

definition suppress :: "string \<Rightarrow> guard_decision" where
  "suppress reason = \<lparr>gd_suppressed = True, gd_reason = Some (lit reason)\<rparr>"

definition let_through :: guard_decision where
  "let_through = \<lparr>gd_suppressed = False, gd_reason = None\<rparr>"

definition judge :: "text_tools \<Rightarrow> thread_window \<Rightarrow> ustr \<Rightarrow> rat \<Rightarrow> guard_decision \<times> thread_window" where
  "judge tt w normalized_body now =
     (let body_hash = tt_hash tt normalized_body in
      if body_hash \<in> tw_body_hashes w then (suppress ''duplicate_body'', w)
      else if is_low_information tt normalized_body \<and> low_value_count tt w \<ge> MAX_LOW_VALUE_REPLIES_PER_WINDOW
        then (suppress ''low_value_chatter'', w)
      else if list_ex (similar tt normalized_body) (tw_normalized_bodies w) then (suppress ''near_duplicate_body'', w)
      else if length (tw_timestamps w) \<ge> MAX_REPLIES_PER_WINDOW then (suppress ''rate_limit'', w)
      else (let_through,
        \<lparr>tw_timestamps = tw_timestamps w @ [now], tw_body_hashes = insert body_hash (tw_body_hashes w),
         tw_normalized_bodies = tw_normalized_bodies w @ [normalized_body]\<rparr>))"

definition protocol_message :: "'t report_tools \<Rightarrow> ustr \<Rightarrow> bool" where
  "protocol_message rt body \<longleftrightarrow> parse_envelope (rt_loads rt) body \<noteq> None \<or> parse_report rt body \<noteq> None"

definition evaluate_reply ::
    "text_tools \<Rightarrow> 't report_tools \<Rightarrow> loop_guard \<Rightarrow> ustr \<Rightarrow> ustr \<Rightarrow> rat \<Rightarrow> guard_decision \<times> loop_guard" where
  "evaluate_reply tt rt g thread_id body now =
     (if protocol_message rt body then (let_through, g)
      else let (decision, w) = judge tt (prune now (window_of g thread_id)) (normalize_body tt body) now in
        (decision, dict_set g thread_id w))"

section \<open>Chunks and transport: what arrives is the message\<close>

text \<open>The chunks by recursion, each \<open>Suc k\<close> long but the last.\<close>

fun chunks :: "nat \<Rightarrow> ustr \<Rightarrow> ustr list" where
  "chunks k [] = []"
| "chunks k (c # cs) = (c # take k cs) # chunks k (drop k cs)"

lemma chunk_count: "(Suc (length cs) + k) div Suc k = Suc ((length (drop k cs) + k) div Suc k)"
proof (cases "k \<le> length cs")
  case True
  have "(Suc (length cs) + k) div Suc k = (length cs + Suc k) div Suc k" by simp
  also have "\<dots> = Suc (length cs div Suc k)" by (simp only: div_add_self2)
  finally show ?thesis using True by simp
next
  case False
  then have "(length cs + Suc k) div Suc k = Suc 0" by (subst div_add_self2) auto
  with False show ?thesis by simp
qed

lemma chunks_ranges:
  "map (\<lambda>index. take (Suc k) (drop index m)) (range_step (length m) (Suc k)) = chunks k m"
proof (induction k m rule: chunks.induct)
  case (1 k)
  then show ?case by (simp add: range_step_def)
next
  case (2 k c cs)
  have "take (Suc k) (drop (Suc i * Suc k) (c # cs)) = take (Suc k) (drop (i * Suc k) (drop k cs))" for i
    by (simp add: algebra_simps)
  then show ?case using 2 chunk_count [of cs k]
    by (simp add: range_step_def upt_conv_Cons map_Suc_upt [symmetric] comp_def del: upt_Suc mult_Suc)
qed

lemma chunks_concat: "concat (chunks k m) = m"
  by (induction k m rule: chunks.induct) simp_all

lemma chunks_bounds: "c \<in> set (chunks k m) \<Longrightarrow> c \<noteq> [] \<and> length c \<le> Suc k"
  by (induction k m rule: chunks.induct) auto

lemma chunks_full: "c \<in> set (butlast (chunks k m)) \<Longrightarrow> length c = Suc k"
proof (induction k m rule: chunks.induct)
  case (2 k c' cs)
  then show ?case by (cases "k < length cs") (auto split: if_splits)
qed simp

lemma chunk_message_chunks:
  assumes "1 \<le> limit"
  shows "chunk_message m limit = Inr (if m = [] then [[]] else chunks (nat limit - 1) m)"
proof -
  from assms have "nat limit = Suc (nat limit - 1)" by simp
  then have "map (\<lambda>index. take (nat limit) (drop index m)) (range_step (length m) (nat limit)) = chunks (nat limit - 1) m"
    by (metis chunks_ranges)
  with assms show ?thesis by (cases m) (simp_all add: chunk_message_def)
qed

definition delivered :: "(ustr \<times> post_answer) list \<Rightarrow> ustr list" where
  "delivered posts = map fst (filter (\<lambda>(c, a). case a of Answer _ \<Rightarrow> True | _ \<Rightarrow> False) posts)"

lemma delivered_simps [simp]:
  "delivered [] = []" "delivered (p @ q) = delivered p @ delivered q"
  "delivered [(c, Answer v)] = [c]" "delivered [(c, Rate_limited)] = []" "delivered [(c, Failed e)] = []"
  by (simp_all add: delivered_def)

lemma send_chunk_posts:
  "send_chunk c as posts = Some (r, st) \<Longrightarrow>
     \<exists>new. ts_posts st = posts @ new \<and> list_all (\<lambda>(c', a). c' = c) new \<and> delivered new \<in> {[], [c]}
       \<and> (is_Inr r \<longrightarrow> delivered new = [c])"
proof (induction c as posts rule: send_chunk.induct)
  case (2 c a as posts)
  show ?case
  proof (cases a)
    case Rate_limited
    with 2 obtain new where "ts_posts st = (posts @ [(c, Rate_limited)]) @ new"
      "list_all (\<lambda>(c', a). c' = c) new" "delivered new \<in> {[], [c]}" "is_Inr r \<longrightarrow> delivered new = [c]" by auto
    then show ?thesis by (intro exI [of _ "(c, Rate_limited) # new"]) (auto simp: delivered_def)
  qed (use 2 in \<open>auto simp: is_Inr_def intro!: exI\<close>)
qed simp

lemma send_chunks_posts:
  "send_chunks cs st = Some (r, st') \<Longrightarrow>
     \<exists>new n. ts_posts st' = ts_posts st @ new \<and> delivered new = take n cs \<and> (is_Inr r \<longrightarrow> n = length cs)"
proof (induction cs arbitrary: st r)
  case Nil
  then show ?case by (auto intro!: exI [of _ "[]"])
next
  case (Cons c cs)
  from Cons.prems obtain r1 st1 where s1: "send_chunk c (ts_answers st) (ts_posts st) = Some (r1, st1)"
    by (auto split: option.splits)
  from send_chunk_posts [OF s1] obtain new1 where n1: "ts_posts st1 = ts_posts st @ new1"
    "delivered new1 \<in> {[], [c]}" "is_Inr r1 \<longrightarrow> delivered new1 = [c]" by blast
  show ?case
  proof (cases r1)
    case (Inl e)
    with Cons.prems s1 have "r = Inl e" "st' = st1" by auto
    with n1 show ?thesis
      by (intro exI [of _ new1] exI [of _ "length (delivered new1)"]) (auto simp: is_Inr_def)
  next
    case (Inr i)
    with Cons.prems s1 obtain r2 where s2: "send_chunks cs st1 = Some (r2, st')" and r: "is_Inr r = is_Inr r2"
      by (auto simp: is_Inr_def split: option.splits sum.splits)
    from Cons.IH [OF s2] obtain new2 n where "ts_posts st' = ts_posts st1 @ new2" "delivered new2 = take n cs"
      "is_Inr r2 \<longrightarrow> n = length cs" by blast
    with n1 Inr r show ?thesis
      by (intro exI [of _ "new1 @ new2"] exI [of _ "Suc n"]) (auto simp: is_Inr_def)
  qed
qed

lemma concat_take_prefix: "starts_with (concat cs) (concat (take n cs))"
  by (metis append_take_drop_id concat_append starts_with_iff)

lemma chunk_default: "chunk_message body DISCORD_MESSAGE_LIMIT = Inr (if body = [] then [[]] else chunks 1999 body)"
  by (simp add: DISCORD_MESSAGE_LIMIT_def chunk_message_chunks)

text \<open>C30. A message is sent in order and in pieces of at most 2000 characters, all but the last of exactly
  2000: what Discord has accepted at any end of a send is a prefix of the message, and the whole message
  once the send returns, however often it was rate limited in between.\<close>

theorem send_delivers:
  assumes "send body st = Some (r, st')"
  shows "\<exists>new. ts_posts st' = ts_posts st @ new \<and> starts_with body (concat (delivered new))
    \<and> (\<forall>c \<in> set (delivered new). int (length c) \<le> DISCORD_MESSAGE_LIMIT)
    \<and> (\<forall>c \<in> set (butlast (delivered new)). int (length c) = DISCORD_MESSAGE_LIMIT)
    \<and> (is_Inr r \<longrightarrow> concat (delivered new) = body)"
proof -
  define cs where "cs = (if body = [] then [[]] else chunks 1999 body)"
  from assms have "send_chunks cs st = Some (r, st')" by (simp add: send_def chunk_default cs_def)
  from send_chunks_posts [OF this] obtain new n where n: "ts_posts st' = ts_posts st @ new"
    "delivered new = take n cs" "is_Inr r \<longrightarrow> n = length cs" by blast
  have body: "concat cs = body" by (simp add: cs_def chunks_concat)
  have le: "\<forall>c \<in> set cs. length c \<le> 2000" using chunks_bounds [of _ 1999 body] by (auto simp: cs_def)
  have full: "\<forall>c \<in> set (butlast cs). length c = 2000" using chunks_full [of _ 1999 body] by (auto simp: cs_def)
  have "set (butlast (take n cs)) \<subseteq> set (butlast cs)"
  proof (cases "n < length cs")
    case True
    then have "set (take (n - 1) cs) \<subseteq> set (take (length cs - 1) cs)"
      by (intro set_take_subset_set_take) simp
    with True show ?thesis by (simp add: butlast_take butlast_conv_take)
  qed simp
  with full n(2) have "\<forall>c \<in> set (butlast (delivered new)). length c = 2000" by auto
  moreover from le n(2) have "\<forall>c \<in> set (delivered new). length c \<le> 2000" by (auto dest: in_set_takeD)
  ultimately show ?thesis using n body concat_take_prefix [of cs n]
    by (intro exI [of _ new]) (auto simp: DISCORD_MESSAGE_LIMIT_def)
qed

definition demo_transport :: transport_state where
  "demo_transport = \<lparr>ts_answers = [Rate_limited, Answer (JObj [(lit ''id'', JStr (lit ''1''))])], ts_posts = []\<rparr>"

lemma demo_send: "\<exists>st'. send (lit ''hi'') demo_transport = Some (Inr [lit ''1''], st')"
proof -
  have "lit ''hi'' = [104, 105]" by (simp add: lit_def)
  then show ?thesis by (simp add: send_def chunk_default demo_transport_def message_id_of_def need_def)
qed

theorem send_delivers_witness:
  "\<exists>st' new. send (lit ''hi'') demo_transport = Some (Inr [lit ''1''], st') \<and> ts_posts st' = new
     \<and> concat (delivered new) = lit ''hi''"
proof -
  from demo_send obtain st' where s: "send (lit ''hi'') demo_transport = Some (Inr [lit ''1''], st')" by blast
  from send_delivers [OF s] s show ?thesis by (auto simp: demo_transport_def is_Inr_def)
qed

section \<open>The kill switch obeys its owner\<close>

definition run_switch :: "ustr \<Rightarrow> (ustr \<times> ustr) list \<Rightarrow> bool \<Rightarrow> bool" where
  "run_switch owner_id cmds paused = foldl (\<lambda>p (command, actor). snd (handle owner_id command actor p)) paused cmds"

definition switch_command :: "ustr \<Rightarrow> ustr \<times> ustr \<Rightarrow> bool" where
  "switch_command owner_id c \<longleftrightarrow> snd c = owner_id \<and> fst c \<in> {lit ''!pause-agents'', lit ''!resume-agents''}"

lemma handle_paused:
  "snd (handle owner_id command actor p) =
     (if switch_command owner_id (command, actor) then command = lit ''!pause-agents'' else p)"
  by (simp add: handle_def switch_command_def)

lemma handle_accepted:
  "ks_accepted (fst (handle owner_id command actor p)) \<longleftrightarrow> switch_command owner_id (command, actor)"
  by (simp add: handle_def switch_command_def)

text \<open>Whatever commands arrive from whomever, the agents are paused exactly when the last pause or resume
  command of the owner is a pause (and as before when there is none); a command is accepted exactly when it
  is one of the two and comes from the owner, and the reported state is the state afterwards.\<close>

lemma switch_obeys_owner:
  "run_switch owner_id cmds paused =
     (case filter (switch_command owner_id) cmds of
        [] \<Rightarrow> paused | c # cs \<Rightarrow> fst (last (c # cs)) = lit ''!pause-agents'')
   \<and> (ks_accepted (fst (handle owner_id command actor p)) \<longleftrightarrow> switch_command owner_id (command, actor))
   \<and> ks_paused (fst (handle owner_id command actor p)) = snd (handle owner_id command actor p)"
proof -
  have "run_switch owner_id cmds paused =
     (case filter (switch_command owner_id) cmds of
        [] \<Rightarrow> paused | c # cs \<Rightarrow> fst (last (c # cs)) = lit ''!pause-agents'')"
  proof (induction cmds rule: rev_induct)
    case Nil
    then show ?case by (simp add: run_switch_def)
  next
    case (snoc x cmds)
    then show ?case
      by (cases x) (auto simp: run_switch_def handle_paused split: list.splits)
  qed
  then show ?thesis by (simp add: handle_accepted) (simp add: handle_def)
qed

section \<open>Reports survive their rendering\<close>

lemma str_items_map [simp]: "str_items (map JStr ss) = Some ss"
  by (induction ss) simp_all

lemma status_of_value [simp]: "status_of (status_value st) = Some st"
  by (cases st) (simp_all add: status_of_def)

lemma report_block_fenced:
  assumes "hd body = 123" "last body = 125" "2 \<le> length body"
  shows "report_block (OPEN_FENCE @ body @ CLOSE_FENCE) = Some body"
  using assms by (simp add: report_block_def starts_with_def ends_with_def)

text \<open>A report that is rendered and read back is the same report with its summary masked, and it is a
  protocol message, so the loop guard lets it through and its state does not change.\<close>

lemma report_roundtrip:
  assumes "rt_loads rt (rt_dumps rt (report_json rt r)) = Some (report_json rt r)"
    and "hd (rt_dumps rt (report_json rt r)) = 123" "last (rt_dumps rt (report_json rt r)) = 125"
      "2 \<le> length (rt_dumps rt (report_json rt r))"
    and "rt_fromisoformat rt (rt_isoformat rt (tr_timestamp r)) = Some (tr_timestamp r)"
  shows "parse_report rt (format_report rt r) = Some (r\<lparr>tr_summary := rt_mask_summary rt (tr_summary r)\<rparr>)
    \<and> evaluate_reply tt rt g th (format_report rt r) now = (let_through, g)"
proof -
  have "report_of_json rt (report_json rt r) = Some (r\<lparr>tr_summary := rt_mask_summary rt (tr_summary r)\<rparr>)"
    using assms(5) by (simp add: report_of_json_def report_json_def report_keys_def)
  with assms(1-4) have "parse_report rt (format_report rt r) = Some (r\<lparr>tr_summary := rt_mask_summary rt (tr_summary r)\<rparr>)"
    by (simp add: parse_report_def format_report_def report_block_fenced)
  then show ?thesis by (simp add: evaluate_reply_def protocol_message_def)
qed

definition demo_report :: "nat task_report" where
  "demo_report = \<lparr>tr_agent_id = lit ''a'', tr_task_id = lit ''t'', tr_status = Status_DONE, tr_summary = lit ''x'',
     tr_links = [lit ''l''], tr_timestamp = 7\<rparr>"

definition demo_rt :: "nat report_tools" where
  "demo_rt = \<lparr>rt_loads = \<lambda>s. Some (JObj
     [(lit ''version'', JStr (lit ''v0'')), (lit ''agent_id'', JStr (lit ''a'')), (lit ''task_id'', JStr (lit ''t'')),
      (lit ''status'', JStr (lit ''done'')), (lit ''summary'', JStr (lit ''***'')), (lit ''links'', JArr [JStr (lit ''l'')]),
      (lit ''timestamp'', JStr [7])]),
     rt_dumps = \<lambda>v. [123, 32, 125], rt_mask_summary = \<lambda>s. lit ''***'',
     rt_fromisoformat = \<lambda>s. Some (hd s), rt_isoformat = \<lambda>t. [t]\<rparr>"

lemma report_roundtrip_witness:
  "parse_report demo_rt (format_report demo_rt demo_report) = Some (demo_report\<lparr>tr_summary := lit ''***''\<rparr>)"
  using report_roundtrip [of demo_rt demo_report]
  by (simp add: demo_rt_def demo_report_def report_json_def)

section \<open>The loop guard bounds chatter\<close>

text \<open>The replies that were let through although they are no protocol messages: thread, normalised body, time.\<close>

type_synonym reply = "ustr \<times> rat"

definition guard_step ::
    "text_tools \<Rightarrow> 't report_tools \<Rightarrow> (ustr \<times> reply) list \<times> loop_guard \<Rightarrow> ustr \<times> ustr \<times> rat \<Rightarrow>
      (ustr \<times> reply) list \<times> loop_guard" where
  "guard_step tt rt st call = (case (st, call) of ((acc, g), (th, body, now)) \<Rightarrow>
     let (d, g') = evaluate_reply tt rt g th body now in
     (if gd_suppressed d \<or> protocol_message rt body then acc else acc @ [(th, normalize_body tt body, now)], g'))"

definition guard_run ::
    "text_tools \<Rightarrow> 't report_tools \<Rightarrow> (ustr \<times> ustr \<times> rat) list \<Rightarrow> (ustr \<times> reply) list \<times> loop_guard" where
  "guard_run tt rt calls = foldl (guard_step tt rt) ([], []) calls"

definition in_thread :: "ustr \<Rightarrow> (ustr \<times> reply) list \<Rightarrow> reply list" where
  "in_thread th acc = map snd (filter (\<lambda>x. fst x = th) acc)"

definition window_at :: "rat \<Rightarrow> reply list \<Rightarrow> reply list" where
  "window_at t xs = filter (\<lambda>x. t - WINDOW_SECONDS < snd x \<and> snd x \<le> t) xs"

definition quota :: "text_tools \<Rightarrow> reply list \<Rightarrow> bool" where
  "quota tt ys \<longleftrightarrow> length ys \<le> MAX_REPLIES_PER_WINDOW
     \<and> length (filter (is_low_information tt) (map fst ys)) \<le> MAX_LOW_VALUE_REPLIES_PER_WINDOW
     \<and> distinct (map fst ys)"

definition window_ok :: "text_tools \<Rightarrow> thread_window \<Rightarrow> reply list \<Rightarrow> rat \<Rightarrow> bool" where
  "window_ok tt w xs now \<longleftrightarrow> (\<exists>cutoff \<le> now - WINDOW_SECONDS.
     tw_timestamps w = map snd (filter (\<lambda>x. cutoff < snd x) xs) \<and>
     tw_normalized_bodies w = map fst (filter (\<lambda>x. cutoff < snd x) xs) \<and>
     tt_hash tt ` fst ` set (filter (\<lambda>x. cutoff < snd x) xs) \<subseteq> tw_body_hashes w)"

definition thread_ok :: "text_tools \<Rightarrow> loop_guard \<Rightarrow> (ustr \<times> reply) list \<Rightarrow> rat \<Rightarrow> ustr \<Rightarrow> bool" where
  "thread_ok tt g acc now th \<longleftrightarrow> window_ok tt (window_of g th) (in_thread th acc) now
     \<and> sorted (map snd (in_thread th acc)) \<and> (\<forall>x \<in> set (in_thread th acc). snd x \<le> now)
     \<and> (\<forall>t. quota tt (window_at t (in_thread th acc)))"

lemma window_ok_later: "window_ok tt w xs now \<Longrightarrow> now \<le> now' \<Longrightarrow> window_ok tt w xs now'"
  unfolding window_ok_def by (meson diff_right_mono order_trans)

lemma expire_filter:
  "sorted (map snd xs) \<Longrightarrow> expire cutoff (map snd xs) (map fst xs) =
     (map snd (filter (\<lambda>x. cutoff < snd x) xs), map fst (filter (\<lambda>x. cutoff < snd x) xs))"
proof (induction xs)
  case Nil
  then show ?case by simp
next
  case (Cons x xs)
  show ?case
  proof (cases "snd x \<le> cutoff")
    case True
    with Cons show ?thesis by auto
  next
    case False
    with Cons.prems have "filter (\<lambda>y. cutoff < snd y) (x # xs) = x # xs" by (fastforce simp: filter_id_conv)
    with False show ?thesis by simp
  qed
qed

lemma filter_cut: "(cutoff::rat) \<le> cutoff' \<Longrightarrow> filter (\<lambda>x. cutoff' < snd x) (filter (\<lambda>x. cutoff < snd x) xs) = filter (\<lambda>x. cutoff' < snd x) xs"
  by (rule trans [OF filter_filter]) (rule filter_cong, auto)

lemma prune_window:
  assumes ok: "window_ok tt w xs now" and s: "sorted (map snd xs)"
  defines "ys \<equiv> filter (\<lambda>x. now - WINDOW_SECONDS < snd x) xs"
  shows "tw_timestamps (prune now w) = map snd ys" "tw_normalized_bodies (prune now w) = map fst ys"
    "tt_hash tt ` fst ` set ys \<subseteq> tw_body_hashes (prune now w)"
proof -
  from ok obtain cutoff where cutoff: "cutoff \<le> now - WINDOW_SECONDS"
    and ts: "tw_timestamps w = map snd (filter (\<lambda>x. cutoff < snd x) xs)"
    and bs: "tw_normalized_bodies w = map fst (filter (\<lambda>x. cutoff < snd x) xs)"
    and hs: "tt_hash tt ` fst ` set (filter (\<lambda>x. cutoff < snd x) xs) \<subseteq> tw_body_hashes w"
    unfolding window_ok_def by blast
  have "sorted (map snd (filter (\<lambda>x. cutoff < snd x) xs))" using s by (rule sorted_filter)
  from expire_filter [OF this, of "now - WINDOW_SECONDS"] filter_cut [OF cutoff, of xs]
  have e: "expire (now - WINDOW_SECONDS) (tw_timestamps w) (tw_normalized_bodies w) = (map snd ys, map fst ys)"
    by (simp add: ts bs ys_def)
  then show "tw_timestamps (prune now w) = map snd ys" "tw_normalized_bodies (prune now w) = map fst ys"
    by (simp_all add: prune_def)
  have "set ys \<subseteq> set (filter (\<lambda>x. cutoff < snd x) xs)" using cutoff by (auto simp: ys_def)
  with hs e show "tt_hash tt ` fst ` set ys \<subseteq> tw_body_hashes (prune now w)"
    by (auto simp: prune_def)
qed

lemma quota_filter: "quota tt ys \<Longrightarrow> quota tt (filter P ys)"
proof -
  assume q: "quota tt ys"
  have "filter (is_low_information tt \<circ> fst) (filter P ys) = filter P (filter (is_low_information tt \<circ> fst) ys)"
    by (simp add: conj_commute)
  then have "length (filter (is_low_information tt \<circ> fst) (filter P ys)) \<le> length (filter (is_low_information tt \<circ> fst) ys)"
    by (metis length_filter_le)
  with q show ?thesis
    using le_trans [OF length_filter_le [of P ys]] distinct_map_filter [of fst ys P] by (simp add: quota_def filter_map)
qed

lemma quota_extend:
  assumes all: "\<forall>t. quota tt (window_at t xs)" and le: "\<forall>x \<in> set xs. snd x \<le> now"
    and ys: "ys = filter (\<lambda>x. now - WINDOW_SECONDS < snd x) xs"
    and new: "nb \<notin> fst ` set ys" "length ys < MAX_REPLIES_PER_WINDOW"
      "is_low_information tt nb \<longrightarrow> length (filter (is_low_information tt) (map fst ys)) < MAX_LOW_VALUE_REPLIES_PER_WINDOW"
  shows "quota tt (window_at t (xs @ [(nb, now)]))"
proof (cases "t < now")
  case True
  then have "window_at t (xs @ [(nb, now)]) = window_at t xs" by (simp add: window_at_def)
  with all show ?thesis by simp
next
  case False
  have "window_at now xs = ys" using le by (auto simp: window_at_def ys intro!: filter_cong)
  with all have "quota tt ys" by metis
  with new have q: "quota tt (ys @ [(nb, now)])" by (auto simp: quota_def)
  have "filter (\<lambda>x. t - WINDOW_SECONDS < snd x \<and> snd x \<le> t) xs = filter (\<lambda>x. t - WINDOW_SECONDS < snd x) ys"
    unfolding ys filter_filter using le False by (intro filter_cong) auto
  then have "window_at t (xs @ [(nb, now)]) = filter (\<lambda>x. t - WINDOW_SECONDS < snd x) (ys @ [(nb, now)])"
    using False by (simp add: window_at_def)
  with quota_filter [OF q] show ?thesis by metis
qed

lemma judge_cases:
  assumes "judge tt w nb now = (d, w')"
  obtains (Suppressed) "gd_suppressed d" "w' = w"
  | (Through) "d = let_through" "tt_hash tt nb \<notin> tw_body_hashes w" "length (tw_timestamps w) < MAX_REPLIES_PER_WINDOW"
      "is_low_information tt nb \<longrightarrow> low_value_count tt w < MAX_LOW_VALUE_REPLIES_PER_WINDOW"
      "w' = \<lparr>tw_timestamps = tw_timestamps w @ [now], tw_body_hashes = insert (tt_hash tt nb) (tw_body_hashes w),
         tw_normalized_bodies = tw_normalized_bodies w @ [nb]\<rparr>"
proof -
  consider "tt_hash tt nb \<in> tw_body_hashes w
      \<or> is_low_information tt nb \<and> low_value_count tt w \<ge> MAX_LOW_VALUE_REPLIES_PER_WINDOW
      \<or> list_ex (similar tt nb) (tw_normalized_bodies w) \<or> length (tw_timestamps w) \<ge> MAX_REPLIES_PER_WINDOW"
    | "tt_hash tt nb \<notin> tw_body_hashes w"
      "\<not> (is_low_information tt nb \<and> low_value_count tt w \<ge> MAX_LOW_VALUE_REPLIES_PER_WINDOW)"
      "\<not> list_ex (similar tt nb) (tw_normalized_bodies w)" "\<not> length (tw_timestamps w) \<ge> MAX_REPLIES_PER_WINDOW" by blast
  then show thesis
  proof cases
    case 1
    then have "judge tt w nb now \<in> (\<lambda>r. (suppress r, w)) ` UNIV" unfolding judge_def Let_def by auto
    with assms Suppressed show ?thesis by (auto simp: suppress_def)
  next
    case 2
    with assms Through show ?thesis unfolding judge_def Let_def by (simp add: not_le)
  qed
qed

lemma window_of_set [simp]: "window_of (dict_set g th w) th' = (if th' = th then w else window_of g th')"
  by (simp add: window_of_def)

lemma in_thread_snoc [simp]:
  "in_thread th (acc @ [(th', y)]) = (if th' = th then in_thread th acc @ [y] else in_thread th acc)"
  by (simp add: in_thread_def)

lemma judge_thread:
  assumes ok: "thread_ok tt g acc now th" and j: "judge tt (prune now (window_of g th)) nb now = (d, w')"
  shows "thread_ok tt (dict_set g th w') (if gd_suppressed d then acc else acc @ [(th, nb, now)]) now th"
proof -
  define xs where "xs = in_thread th acc"
  define ys where "ys = filter (\<lambda>x. now - WINDOW_SECONDS < snd x) xs"
  from ok have w: "window_ok tt (window_of g th) xs now" and s: "sorted (map snd xs)"
    and le: "\<forall>x \<in> set xs. snd x \<le> now" and q: "\<forall>t. quota tt (window_at t xs)"
    by (auto simp: thread_ok_def xs_def)
  note pr = prune_window [OF w s, folded ys_def]
  from j show ?thesis
  proof (cases rule: judge_cases)
    case Suppressed
    with pr have "window_ok tt w' xs now"
      unfolding window_ok_def by (intro exI [of _ "now - WINDOW_SECONDS"]) (simp add: ys_def)
    with Suppressed s le q show ?thesis by (simp add: thread_ok_def xs_def)
  next
    case Through
    have "now - WINDOW_SECONDS < now" by (simp add: WINDOW_SECONDS_def)
    then have "window_ok tt w' (xs @ [(nb, now)]) now"
      unfolding window_ok_def using pr Through by (intro exI [of _ "now - WINDOW_SECONDS"]) (auto simp: ys_def)
    moreover have "quota tt (window_at t (xs @ [(nb, now)]))" for t
      using Through pr by (intro quota_extend [OF q le ys_def]) (auto simp: low_value_count_def)
    moreover have "sorted (map snd (xs @ [(nb, now)]))" using s le by (simp add: sorted_append)
    ultimately show ?thesis using le Through by (simp add: thread_ok_def xs_def let_through_def)
  qed
qed

lemma thread_ok_later:
  "thread_ok tt g acc now th \<Longrightarrow> now \<le> now' \<Longrightarrow> thread_ok tt g acc now' th"
  unfolding thread_ok_def using window_ok_later by fastforce

lemma thread_ok_other:
  "th' \<noteq> th \<Longrightarrow> thread_ok tt (dict_set g th w) (if b then acc else acc @ [(th, y)]) now th' = thread_ok tt g acc now th'"
  by (simp add: thread_ok_def)

lemma guard_step_ok:
  assumes ok: "\<forall>th. thread_ok tt g acc now th" and "guard_step tt rt (acc, g) (th, body, now) = (acc', g')"
  shows "thread_ok tt g' acc' now th'"
proof (cases "protocol_message rt body")
  case True
  with assms show ?thesis by (auto simp: guard_step_def evaluate_reply_def)
next
  case False
  obtain d w where j: "judge tt (prune now (window_of g th)) (normalize_body tt body) now = (d, w)" by force
  with False assms(2) have "g' = dict_set g th w"
    "acc' = (if gd_suppressed d then acc else acc @ [(th, normalize_body tt body, now)])"
    by (auto simp: guard_step_def evaluate_reply_def)
  with judge_thread [OF _ j] ok thread_ok_other show ?thesis by (cases "th' = th") auto
qed

lemma guard_run_ok:
  "sorted (map (\<lambda>(th, body, now). now) calls) \<Longrightarrow> guard_run tt rt calls = (acc, g) \<Longrightarrow>
     (\<forall>(th', body, now') \<in> set calls. now' \<le> now) \<Longrightarrow> thread_ok tt g acc now th"
proof (induction calls arbitrary: acc g now th rule: rev_induct)
  case Nil
  then show ?case
    by (auto simp: guard_run_def thread_ok_def window_ok_def window_of_def empty_window_def in_thread_def
        window_at_def quota_def)
next
  case (snoc call calls)
  obtain th0 body now0 where call: "call = (th0, body, now0)" by (cases call)
  obtain acc0 g0 where r: "guard_run tt rt calls = (acc0, g0)" by force
  from snoc.prems(2) r call have st: "guard_step tt rt (acc0, g0) (th0, body, now0) = (acc, g)"
    by (simp add: guard_run_def)
  from snoc.prems(1) call have "sorted (map (\<lambda>(th, body, now). now) calls)"
    and le: "\<forall>(th', body, now') \<in> set calls. now' \<le> now0" by (auto simp: sorted_append)
  with snoc.IH r have "\<forall>th. thread_ok tt g0 acc0 now0 th" by blast
  note ok = guard_step_ok [OF this st]
  from snoc.prems(3) call have "now0 \<le> now" by simp
  then show ?case by (rule thread_ok_later [OF ok])
qed

text \<open>C25. With a clock that does not go back, the replies of a thread that are let through although they are
  no protocol messages are at most five in any 60 seconds, at most two of them with four or fewer letters
  and digits, and no two of them with the same normalised text.\<close>

theorem loop_guard_bounds:
  assumes "sorted (map (\<lambda>(th, body, now). now) calls)"
  shows "let ys = window_at t (in_thread th (fst (guard_run tt rt calls))) in
    length ys \<le> 5 \<and> length (filter (is_low_information tt) (map fst ys)) \<le> 2 \<and> distinct (map fst ys)"
proof -
  obtain acc g where r: "guard_run tt rt calls = (acc, g)" by force
  define last where "last = Max (insert 0 ((\<lambda>(th, body, now). now) ` set calls))"
  have "\<forall>(th', body, now') \<in> set calls. now' \<le> last"
    unfolding last_def by (force intro!: Max_ge)
  from guard_run_ok [OF assms r this] have "quota tt (window_at t (in_thread th acc))"
    by (simp add: thread_ok_def)
  with r show ?thesis
    by (simp add: quota_def MAX_REPLIES_PER_WINDOW_def MAX_LOW_VALUE_REPLIES_PER_WINDOW_def)
qed

theorem loop_guard_bounds_witness:
  "length (window_at 30 (in_thread [1] (fst (guard_run
     \<lparr>tt_nfkc_casefold = \<lambda>s. s, tt_hash = \<lambda>s. s, tt_isalnum = \<lambda>_. True, tt_ratio = \<lambda>_ _. 0\<rparr> demo_rt
     [([1], [65], 10), ([1], [66], 20), ([1], [67], 30)])))) \<le> 5"
  using loop_guard_bounds [where calls = "[([1], [65], 10), ([1], [66], 20), ([1], [67], 30)]" and t = 30 and th = "[1]"
      and rt = demo_rt] by (simp add: Let_def)

end
