(* ===== verification/InteropPlugin.thy ===== *)
theory InteropPlugin
  imports Messaging ExternalEffectGate
begin

text \<open>
  \<open>automation/interop/hermes_plugin/__init__.py\<close>: the hooks that the agent host calls before it
  dispatches a message, before it runs a tool and after the model has answered. They compose the
  kill switch, the envelopes, the loop guard and the external effect gate. What the network does with a
  message is an argument that may depend on all earlier attempts.
\<close>

section \<open>State and environment\<close>

datatype hook_effect =
    Sent ustr ustr
  | Direct_result ustr

record hook_state =
  hs_paused :: bool
  hs_guard :: loop_guard
  hs_effects :: "hook_effect list"

record 't hook_env =
  he_config :: file_read
  he_e2e_test_mode :: bool
  he_e2e_secret :: "ustr option"
  he_hmac :: "ustr \<Rightarrow> ustr \<Rightarrow> ustr"
  he_py :: py
  he_tz :: iso_tool
  he_text :: text_tools
  he_report :: "'t report_tools"
  he_float_repr :: "rat \<Rightarrow> ustr"
  he_deliver :: "hook_effect list \<Rightarrow> hook_effect \<Rightarrow> exn + unit"

type_synonym 'a hook_eff = "(hook_state, exn, 'a) eff"

record inbound_source =
  so_user_id :: ustr
  so_chat_id :: ustr
  so_thread_id :: "ustr option"
  so_is_bot :: bool

record inbound =
  in_text :: ustr
  in_source :: inbound_source

datatype dispatch = Allow | Rewrite ustr | Skip ustr

section \<open>Configuration\<close>

record interop_config =
  ic_agent_id :: ustr
  ic_owner_id :: ustr
  ic_agents_log_channel_id :: ustr
  ic_interop_channel_id :: ustr

text \<open>\<open>payload.get\<close> on a value that is no object is an \<open>AttributeError\<close>, here \<open>OtherError\<close>.\<close>

definition read_config :: "file_read \<Rightarrow> exn + interop_config" where
  "read_config f =
     bindE (read_json f) (\<lambda>payload. case payload of
       JObj kvs \<Rightarrow>
         (case (jget kvs ''agent_id'', jget kvs ''agents_log_channel_id'', jget kvs ''owner_id'') of
            (Some (JStr agent_id), Some (JStr channel_id), Some (JStr owner_id)) \<Rightarrow>
              Inr \<lparr>ic_agent_id = agent_id, ic_owner_id = owner_id, ic_agents_log_channel_id = channel_id,
                ic_interop_channel_id = (case jget kvs ''interop_channel_id'' of Some (JStr s) \<Rightarrow> s | _ \<Rightarrow> [])\<rparr>
          | _ \<Rightarrow> Inl ValueError)
     | _ \<Rightarrow> Inl OtherError)"

section \<open>Signed test events\<close>

text \<open>\<open>envelope["event"]\<close> and the four fields of it; None is the \<open>KeyError\<close> or \<open>TypeError\<close> that the
  function catches.\<close>

definition event_of :: "json \<Rightarrow> ((ustr \<times> json) list \<times> json) option" where
  "event_of envelope = (case envelope of
      JObj kvs \<Rightarrow> (case (jget kvs ''event'', jget kvs ''signature'') of
          (Some (JObj payload), Some signature) \<Rightarrow>
            if jget payload ''event_id'' = None \<or> jget payload ''user_id'' = None
               \<or> jget payload ''channel_id'' = None \<or> jget payload ''text'' = None
            then None else Some (payload, signature)
        | _ \<Rightarrow> None)
    | _ \<Rightarrow> None)"

definition looks_signed :: "json \<Rightarrow> bool" where
  "looks_signed envelope = (case envelope of
      JObj kvs \<Rightarrow> jget kvs ''event'' \<noteq> None \<and> jget kvs ''signature'' \<noteq> None | _ \<Rightarrow> False)"

text \<open>\<open>hmac.compare_digest\<close> raises \<open>TypeError\<close> unless the signature is an ASCII string. The fields of
  \<open>InboundEvent\<close> are strings; a field of another type is an error of the model.\<close>

definition check_signed :: "'t hook_env \<Rightarrow> (ustr \<times> json) list \<Rightarrow> json \<Rightarrow> ustr \<Rightarrow> exn + (ustr \<times> ustr) option" where
  "check_signed he payload signature secret =
     (case (jfield payload ''event_id'', jfield payload ''user_id'', jfield payload ''channel_id'',
            jfield payload ''text'', signature) of
        (JStr event_id, JStr user_id, JStr channel_id, JStr text, JStr sig) \<Rightarrow>
          if \<not> list_all (\<lambda>c. c < 128) sig then Inl TypeError
          else if accept_test_event (he_hmac he)
            \<lparr>ie_event_id = event_id, ie_user_id = user_id, ie_channel_id = channel_id, ie_text = text\<rparr> sig secret True
          then Inr (Some (text, user_id)) else Inr None
      | _ \<Rightarrow> Inl TypeError)"

text \<open>\<open>_signed_text_and_actor\<close>: text, actor, and whether a signed event was rejected.\<close>

definition signed_text_and_actor :: "'t hook_env \<Rightarrow> inbound \<Rightarrow> exn + ustr \<times> ustr \<times> bool" where
  "signed_text_and_actor he event =
     (let actor_id = so_user_id (in_source event) in
      if \<not> he_e2e_test_mode he then Inr (in_text event, actor_id, False)
      else (case rt_loads (he_report he) (in_text event) of
          None \<Rightarrow> Inr (in_text event, actor_id, False)
        | Some envelope \<Rightarrow> (case (event_of envelope, he_e2e_secret he) of
            (Some (payload, signature), Some secret) \<Rightarrow>
              bindE (check_signed he payload signature secret) (\<lambda>r. Inr (case r of
                Some (text, user_id) \<Rightarrow> (text, user_id, False)
              | None \<Rightarrow> ([], actor_id, True)))
          | _ \<Rightarrow> if looks_signed envelope then Inr ([], actor_id, True) else Inr (in_text event, actor_id, False))))"

section \<open>Dispatch\<close>

definition deliver :: "'t hook_env \<Rightarrow> hook_effect \<Rightarrow> unit hook_eff" where
  "deliver he eff = (\<lambda>st. (he_deliver he (hs_effects st) eff, st\<lparr>hs_effects := hs_effects st @ [eff]\<rparr>))"

definition CORRELATION_PREFIX :: ustr where "CORRELATION_PREFIX = lit ''coord-''"

definition response_channel_for :: "ustr \<Rightarrow> ustr \<Rightarrow> ustr \<Rightarrow> ustr" where
  "response_channel_for correlation_id source_channel_id interop_channel_id =
     (if starts_with correlation_id CORRELATION_PREFIX \<and> interop_channel_id \<noteq> [] then interop_channel_id
      else source_channel_id)"

definition KILL_COMMANDS :: "ustr list" where
  "KILL_COMMANDS = [lit ''!pause-agents'', lit ''!resume-agents'']"

definition handle_envelope :: "'t hook_env \<Rightarrow> interop_config \<Rightarrow> inbound \<Rightarrow> envelope \<Rightarrow> dispatch option hook_eff" where
  "handle_envelope he config event e =
     (if en_recipient_id e \<noteq> ic_agent_id config then ret None
      else if starts_with (en_intent e) (lit ''query_'') then
        bindM (liftE (response_for (he_py he) (he_tz he) e (ic_agent_id config))) (\<lambda>response.
        bindM (deliver he (Sent
            (response_channel_for (en_correlation_id e) (so_chat_id (in_source event)) (ic_interop_channel_id config))
            (format_envelope (he_float_repr he) response))) (\<lambda>_.
          ret (Some (Skip (lit ''interop_delegation_response'')))))
      else if starts_with (en_intent e) (lit ''response_'') then
        (if starts_with (en_correlation_id e) CORRELATION_PREFIX
         then ret (Some (Skip (lit ''interop_coordination_response'')))
         else bindM (deliver he (Direct_result (en_correlation_id e))) (\<lambda>_.
           ret (Some (Skip (lit ''interop_delegation_delivered'')))))
      else ret None)"

definition pass_on :: "inbound \<Rightarrow> ustr \<Rightarrow> dispatch" where
  "pass_on event text = (if text \<noteq> in_text event then Rewrite text else Allow)"

definition guard_bot :: "'t hook_env \<Rightarrow> inbound \<Rightarrow> ustr \<Rightarrow> rat \<Rightarrow> dispatch hook_eff" where
  "guard_bot he event text now = (\<lambda>st.
     let thread_id = (case so_thread_id (in_source event) of
           Some t \<Rightarrow> if t = [] then so_chat_id (in_source event) else t | None \<Rightarrow> so_chat_id (in_source event));
         (decision, g) = evaluate_reply (he_text he) (he_report he) (hs_guard st) thread_id text now
     in (Inr (if gd_suppressed decision
              then Skip (lit ''interop_'' @ (case gd_reason decision of Some r \<Rightarrow> r | None \<Rightarrow> lit ''None''))
              else pass_on event text), st\<lparr>hs_guard := g\<rparr>))"

definition switch_by :: "interop_config \<Rightarrow> ustr \<Rightarrow> ustr \<Rightarrow> dispatch hook_eff" where
  "switch_by config command actor_id = (\<lambda>st.
     let (result, paused) = handle (ic_owner_id config) command actor_id (hs_paused st) in
     (Inr (if ks_accepted result then Skip (lit ''interop_kill_switch'') else Allow), st\<lparr>hs_paused := paused\<rparr>))"

definition dispatch_open :: "'t hook_env \<Rightarrow> interop_config \<Rightarrow> inbound \<Rightarrow> ustr \<Rightarrow> rat \<Rightarrow> dispatch hook_eff" where
  "dispatch_open he config event text now =
     bindM (case parse_envelope (rt_loads (he_report he)) text of
              Some e \<Rightarrow> handle_envelope he config event e | None \<Rightarrow> ret None) (\<lambda>handled.
       case handled of
         Some d \<Rightarrow> ret d
       | None \<Rightarrow>
           if \<not> so_is_bot (in_source event) then ret (pass_on event text)
           else if starts_with text TEAM_NOTICE_PREFIX then ret (Skip (lit ''interop_coordination_notice''))
           else guard_bot he event text now)"

definition pre_gateway_dispatch :: "'t hook_env \<Rightarrow> inbound \<Rightarrow> rat \<Rightarrow> dispatch hook_eff" where
  "pre_gateway_dispatch he event now =
     bindM (liftE (signed_text_and_actor he event)) (\<lambda>(text, actor_id, injection_rejected).
       if injection_rejected then ret (Skip (lit ''interop_invalid_signature''))
       else bindM (liftE (read_config (he_config he))) (\<lambda>config.
         if strip text \<in> set KILL_COMMANDS then switch_by config (strip text) actor_id
         else (\<lambda>st. if hs_paused st then (Inr (Skip (lit ''interop_paused'')), st)
              else dispatch_open he config event text now st)))"

section \<open>The other hooks\<close>

definition transform_llm_output :: "'t hook_env \<Rightarrow> ustr \<Rightarrow> ustr hook_eff" where
  "transform_llm_output he response_text =
     bindM (liftE (read_config (he_config he))) (\<lambda>config.
       (\<lambda>st. (Inr (if hs_paused st then lit ''SILENT'' else response_text), st)))"

datatype tool_verdict = Tool_pass | Tool_block ustr

text \<open>\<open>pre_tool_call\<close>: the text of the denylist file and the approval log are read when the hook runs; the
  denylist is loaded before the configuration is read.\<close>

definition pre_tool_call ::
    "'t hook_env \<Rightarrow> tools \<Rightarrow> (ustr \<Rightarrow> bool) \<Rightarrow> ustr option \<Rightarrow> approval_log \<Rightarrow> ustr \<Rightarrow> json \<Rightarrow> exn + tool_verdict" where
  "pre_tool_call he tk compiles denylist alog tool_name args =
     (let call = \<lparr>tc_tool_name = tool_name, tc_arguments = (case args of JObj kvs \<Rightarrow> kvs | _ \<Rightarrow> [])\<rparr> in
      case load_denylist compiles denylist of
        Inl _ \<Rightarrow> Inr (Tool_block (lit ''BLOCKED: external-effect approval gate unavailable''))
      | Inr rules \<Rightarrow>
          bindE (read_config (he_config he)) (\<lambda>config.
          bindE (evaluate_tool_call tk call rules \<lparr>ac_approval_log = Some alog, ac_owner_id = ic_owner_id config,
                  ac_e2e_test_mode = he_e2e_test_mode he\<rparr>) (\<lambda>decision.
            if \<not> de_external_effect decision \<or> de_allowed decision then Inr Tool_pass
            else Inr (Tool_block (lit ''BLOCKED: owner approval required for '' @ de_target_id decision
              @ lit '' action='' @ de_action_hash decision)))))"

section \<open>A paused agent is silent\<close>

definition plain_event :: "'t hook_env \<Rightarrow> inbound \<Rightarrow> bool" where
  "plain_event he event \<longleftrightarrow>
     (case signed_text_and_actor he event of Inr (text, _, _) \<Rightarrow> strip text \<notin> set KILL_COMMANDS | Inl _ \<Rightarrow> True)"

text \<open>C22. While the agents are paused, a message that is no pause or resume command is neither dispatched nor
  answered: the hook skips it (or raises) and changes nothing, and what the model may still produce is
  replaced by SILENT.\<close>

theorem paused_is_silent:
  assumes "hs_paused st" and "plain_event he event"
    and "pre_gateway_dispatch he event now st = (r, st')" and "transform_llm_output he output st = (out, st'')"
  shows "st' = st \<and> (\<forall>d. r = Inr d \<longrightarrow> d \<in> {Skip (lit ''interop_paused''), Skip (lit ''interop_invalid_signature'')})
    \<and> st'' = st \<and> (\<forall>t. out = Inr t \<longrightarrow> t = lit ''SILENT'')"
proof -
  have "st' = st \<and> (\<forall>d. r = Inr d \<longrightarrow> d \<in> {Skip (lit ''interop_paused''), Skip (lit ''interop_invalid_signature'')})"
    using assms(1-3)
    by (auto simp: pre_gateway_dispatch_def plain_event_def bindM_app liftE_def ret_def raise_exn_def
        split: sum.splits if_splits prod.splits)
  moreover have "st'' = st \<and> (\<forall>t. out = Inr t \<longrightarrow> t = lit ''SILENT'')"
    using assms(1,4) by (auto simp: transform_llm_output_def bindM_app liftE_def raise_exn_def ret_def split: sum.splits)
  ultimately show ?thesis by blast
qed

definition demo_hooks :: "nat hook_env" where
  "demo_hooks = \<lparr>he_config = FileJson (JObj [(lit ''agent_id'', JStr (lit ''a'')), (lit ''owner_id'', JStr (lit ''1'')),
       (lit ''agents_log_channel_id'', JStr (lit ''9''))]),
     he_e2e_test_mode = False, he_e2e_secret = None, he_hmac = (\<lambda>k m. m), he_py = demo_py, he_tz = exact_tz,
     he_text = \<lparr>tt_nfkc_casefold = \<lambda>s. s, tt_hash = \<lambda>s. s, tt_isalnum = \<lambda>_. True, tt_ratio = \<lambda>_ _. 0\<rparr>,
     he_report = demo_rt\<lparr>rt_loads := \<lambda>_. None\<rparr>, he_float_repr = (\<lambda>_. []), he_deliver = (\<lambda>_ _. Inr ())\<rparr>"

definition demo_inbound :: "ustr \<Rightarrow> ustr \<Rightarrow> inbound" where
  "demo_inbound user text = \<lparr>in_text = text,
     in_source = \<lparr>so_user_id = user, so_chat_id = lit ''5'', so_thread_id = None, so_is_bot = True\<rparr>\<rparr>"

definition paused_state :: hook_state where
  "paused_state = \<lparr>hs_paused = True, hs_guard = [], hs_effects = []\<rparr>"

lemma demo_config: "read_config (he_config demo_hooks) = Inr \<lparr>ic_agent_id = lit ''a'', ic_owner_id = lit ''1'',
     ic_agents_log_channel_id = lit ''9'', ic_interop_channel_id = []\<rparr>"
  by (simp add: demo_hooks_def read_config_def read_json_def)

lemma demo_signed: "signed_text_and_actor demo_hooks (demo_inbound user text) = Inr (text, user, False)"
  by (simp add: signed_text_and_actor_def demo_hooks_def demo_inbound_def)

theorem paused_is_silent_witness:
  "pre_gateway_dispatch demo_hooks (demo_inbound (lit ''2'') [104, 105]) 0 paused_state =
     (Inr (Skip (lit ''interop_paused'')), paused_state)"
proof -
  have h: "strip [104, 105] = [104, 105]" by (simp add: strip_def lstrip_def rstrip_def is_space_def)
  have k: "strip [104, 105] \<notin> set KILL_COMMANDS" by (simp add: h KILL_COMMANDS_def lit_def)
  have p: "plain_event demo_hooks (demo_inbound (lit ''2'') [104, 105])" by (simp add: plain_event_def demo_signed k)
  obtain r st' where d: "pre_gateway_dispatch demo_hooks (demo_inbound (lit ''2'') [104, 105]) 0 paused_state = (r, st')"
    by force
  have r: "r = Inr (Skip (lit ''interop_paused''))"
    using d k by (simp add: pre_gateway_dispatch_def demo_signed demo_config bindM_app liftE_def ret_def paused_state_def)
  obtain out st'' where t: "transform_llm_output demo_hooks [] paused_state = (out, st'')" by force
  have "hs_paused paused_state" by (simp add: paused_state_def)
  from paused_is_silent [OF this p d t] d r show ?thesis by simp
qed

text \<open>C24. A pause or resume command changes the pause only if the acting user is the configured owner, and then
  the message goes no further; from anybody else it leaves the whole state alone and is dispatched like any
  message, even while the agents are paused. No other message changes the pause.\<close>

theorem pause_needs_owner:
  assumes "signed_text_and_actor he event = Inr (text, actor_id, False)" and "read_config (he_config he) = Inr config"
    and "pre_gateway_dispatch he event now st = (r, st')"
  shows "if strip text \<in> set KILL_COMMANDS then
      (if actor_id = ic_owner_id config
       then r = Inr (Skip (lit ''interop_kill_switch'')) \<and> st' = st\<lparr>hs_paused := (strip text = lit ''!pause-agents'')\<rparr>
       else r = Inr Allow \<and> st' = st)
    else hs_paused st' = hs_paused st"
proof -
  have eff: "hs_paused st'' = hs_paused st'" if "dispatch_open he config event text now st' = (x, st'')" for x st' st''
    using that
    by (auto simp: dispatch_open_def handle_envelope_def guard_bot_def deliver_def bindM_app liftE_def ret_def raise_exn_def
        Let_def split: option.splits sum.splits prod.splits if_splits)
  show ?thesis
  proof (cases "strip text \<in> set KILL_COMMANDS")
    case True
    with assms show ?thesis
      by (auto simp: pre_gateway_dispatch_def bindM_app liftE_def ret_def switch_by_def handle_def KILL_COMMANDS_def)
  next
    case False
    with assms eff show ?thesis
      by (auto simp: pre_gateway_dispatch_def bindM_app liftE_def ret_def split: if_splits)
  qed
qed

theorem pause_needs_owner_witness:
  "pre_gateway_dispatch demo_hooks (demo_inbound (lit ''2'') (lit ''!resume-agents'')) 0 paused_state = (Inr Allow, paused_state)"
proof -
  obtain r st' where d: "pre_gateway_dispatch demo_hooks (demo_inbound (lit ''2'') (lit ''!resume-agents'')) 0 paused_state = (r, st')"
    by force
  have h: "strip (lit ''!resume-agents'') = lit ''!resume-agents''"
    by (simp add: strip_def lstrip_def rstrip_def is_space_def lit_def)
  from pause_needs_owner [OF demo_signed demo_config d] d show ?thesis by (simp add: h KILL_COMMANDS_def)
qed

text \<open>C17. A tool call passes the hook only if the denylist loads and either no rule of it matches the call or
  the log records an approval of this very call; a denylist that does not load blocks every call.\<close>

theorem tool_hook_fails_closed:
  assumes "pre_tool_call he tk compiles denylist alog name args = Inr Tool_pass"
  shows "\<exists>rules config call. load_denylist compiles denylist = Inr rules \<and> rules \<noteq> []
    \<and> read_config (he_config he) = Inr config
    \<and> call = \<lparr>tc_tool_name = name, tc_arguments = (case args of JObj kvs \<Rightarrow> kvs | _ \<Rightarrow> [])\<rparr>
    \<and> (matching_rule tk call rules = None \<or>
       (\<exists>rl. matching_rule tk call rules = Some rl \<and>
          has_valid_approval alog (action_hash tk call (target_of rl call)) (target_of rl call)
            (ic_owner_id config) (he_e2e_test_mode he) = Inr True))"
proof -
  define call where "call = \<lparr>tc_tool_name = name, tc_arguments = (case args of JObj kvs \<Rightarrow> kvs | _ \<Rightarrow> [])\<rparr>"
  from assms obtain rules config d where l: "load_denylist compiles denylist = Inr rules"
    and c: "read_config (he_config he) = Inr config"
    and e: "evaluate_tool_call tk call rules \<lparr>ac_approval_log = Some alog, ac_owner_id = ic_owner_id config,
                  ac_e2e_test_mode = he_e2e_test_mode he\<rparr> = Inr d"
    and ok: "\<not> de_external_effect d \<or> de_allowed d"
    by (auto simp: pre_tool_call_def Let_def call_def split: sum.splits if_splits)
  from l have "rules \<noteq> []" by (auto simp: load_denylist_def split: if_splits)
  with l c e ok show ?thesis unfolding call_def [symmetric]
    by (auto simp: evaluate_tool_call_def Let_def split: option.splits if_splits)
qed

theorem tool_hook_fails_closed_witness:
  "\<exists>rules config. load_denylist (\<lambda>_. True) (Some sample_denylist) = Inr rules \<and> rules \<noteq> []
    \<and> read_config (he_config demo_hooks) = Inr config"
proof -
  have "pre_tool_call demo_hooks sample_tools (\<lambda>_. True) (Some sample_denylist) LogMissing (lit ''x'') JNull = Inr Tool_pass"
    by (simp add: pre_tool_call_def sample_denylist_rules demo_config evaluate_tool_call_def matching_rule_def sample_tools_def)
  from tool_hook_fails_closed [OF this] show ?thesis by blast
qed

end
