(* ===== verification/EntityContracts.thy ===== *)
theory EntityContracts
  imports CanonicalJson
begin

text \<open>
  \<open>automation/entity_preflight/contracts.py\<close>, \<open>normalize.py\<close> and the detection half of \<open>resolver.py\<close>:
  the data of the preflight of personal names before an external write, the checks its constructors
  make, the detection of hinted names, their Korean pronunciation variants and the substitution of
  resolved values. Confidences are rational numbers; \<open>str.casefold\<close> is an argument.
\<close>

section \<open>Contracts\<close>

datatype entity_kind =
    Entity_PERSON | Entity_ORGANIZATION | Entity_PROJECT | Entity_PLACE | Entity_ACCOUNT | Entity_OTHER

fun entity_kind_value :: "entity_kind \<Rightarrow> ustr" where
  "entity_kind_value Entity_PERSON = lit ''person''"
| "entity_kind_value Entity_ORGANIZATION = lit ''organization''"
| "entity_kind_value Entity_PROJECT = lit ''project''"
| "entity_kind_value Entity_PLACE = lit ''place''"
| "entity_kind_value Entity_ACCOUNT = lit ''account''"
| "entity_kind_value Entity_OTHER = lit ''other''"

datatype source_kind =
    Source_EXPLICIT_INPUT | Source_RELATIONSHIP_QUERY | Source_ADDRESSBOOK_ORGANIZATION
  | Source_ADDRESSBOOK_CONTACTS | Source_ADDRESSBOOK_HISTORY | Source_PERSONAL_RAG | Source_HERMES_MEMORY

fun source_kind_value :: "source_kind \<Rightarrow> ustr" where
  "source_kind_value Source_EXPLICIT_INPUT = lit ''explicit_input''"
| "source_kind_value Source_RELATIONSHIP_QUERY = lit ''relationship_query''"
| "source_kind_value Source_ADDRESSBOOK_ORGANIZATION = lit ''addressbook.organization''"
| "source_kind_value Source_ADDRESSBOOK_CONTACTS = lit ''addressbook.contacts''"
| "source_kind_value Source_ADDRESSBOOK_HISTORY = lit ''addressbook.history''"
| "source_kind_value Source_PERSONAL_RAG = lit ''personal_rag''"
| "source_kind_value Source_HERMES_MEMORY = lit ''hermes_memory''"

datatype decision_kind = Decide_AUTO_SELECTED | Decide_CONFIRMATION_REQUIRED | Decide_NOT_DETECTED

fun decision_kind_value :: "decision_kind \<Rightarrow> ustr" where
  "decision_kind_value Decide_AUTO_SELECTED = lit ''auto_selected''"
| "decision_kind_value Decide_CONFIRMATION_REQUIRED = lit ''confirmation_required''"
| "decision_kind_value Decide_NOT_DETECTED = lit ''not_detected''"

datatype decision_reason =
    Why_SINGLE_HIGH_CONFIDENCE | Why_CANDIDATE_CONFLICT | Why_LOW_CONFIDENCE | Why_NO_CANDIDATE | Why_NO_ENTITY

fun decision_reason_value :: "decision_reason \<Rightarrow> ustr" where
  "decision_reason_value Why_SINGLE_HIGH_CONFIDENCE = lit ''single_high_confidence''"
| "decision_reason_value Why_CANDIDATE_CONFLICT = lit ''candidate_conflict''"
| "decision_reason_value Why_LOW_CONFIDENCE = lit ''low_confidence''"
| "decision_reason_value Why_NO_CANDIDATE = lit ''no_candidate''"
| "decision_reason_value Why_NO_ENTITY = lit ''no_entity''"

datatype write_phase =
    Write_PREFLIGHTED | Write_AWAITING_CLARIFY | Write_READY_TO_WRITE | Write_IN_PROGRESS | Write_SUCCEEDED
  | Write_FAILED | Write_VERIFYING | Write_VERIFIED | Write_VERIFICATION_FAILED | Write_CANCELLED

datatype verification_outcome = Verify_MATCH | Verify_MISMATCH | Verify_NOT_FOUND | Verify_ERROR

fun verification_outcome_value :: "verification_outcome \<Rightarrow> ustr" where
  "verification_outcome_value Verify_MATCH = lit ''match''"
| "verification_outcome_value Verify_MISMATCH = lit ''mismatch''"
| "verification_outcome_value Verify_NOT_FOUND = lit ''not_found''"
| "verification_outcome_value Verify_ERROR = lit ''error''"

record detected_entity =
  dn_mention_id :: ustr
  dn_surface :: ustr
  dn_entity_kind :: entity_kind
  dn_start :: int
  dn_end :: int

definition make_entity :: "ustr \<Rightarrow> ustr \<Rightarrow> entity_kind \<Rightarrow> int \<Rightarrow> int \<Rightarrow> exn + detected_entity" where
  "make_entity mention_id surface kind start stop =
     (if mention_id = [] \<or> surface = [] \<or> start < 0 \<or> stop \<le> start then Inl ValueError
      else Inr \<lparr>dn_mention_id = mention_id, dn_surface = surface, dn_entity_kind = kind, dn_start = start, dn_end = stop\<rparr>)"

record relationship_query =
  rq_query_id :: ustr
  rq_subject_mention_id :: ustr
  rq_relation :: ustr
  rq_target_kind :: entity_kind
  rq_question :: ustr

definition make_query :: "ustr \<Rightarrow> ustr \<Rightarrow> ustr \<Rightarrow> entity_kind \<Rightarrow> ustr \<Rightarrow> exn + relationship_query" where
  "make_query query_id subject_mention_id relation target_kind question =
     (if query_id = [] \<or> subject_mention_id = [] \<or> relation = [] \<or> question = [] then Inl ValueError
      else Inr \<lparr>rq_query_id = query_id, rq_subject_mention_id = subject_mention_id, rq_relation = relation,
        rq_target_kind = target_kind, rq_question = question\<rparr>)"

record preflight_input =
  pi_request_id :: ustr
  pi_raw_text :: ustr
  pi_target_system :: ustr
  pi_operation :: ustr
  pi_entities :: "detected_entity list"
  pi_relationship_queries :: "relationship_query list"

definition slice :: "ustr \<Rightarrow> int \<Rightarrow> int \<Rightarrow> ustr" where
  "slice text start stop = take (nat stop - nat start) (drop (nat start) text)"

definition span_matches :: "ustr \<Rightarrow> detected_entity \<Rightarrow> bool" where
  "span_matches raw_text e \<longleftrightarrow> dn_end e \<le> int (length raw_text) \<and> slice raw_text (dn_start e) (dn_end e) = dn_surface e"

definition make_input ::
    "ustr \<Rightarrow> ustr \<Rightarrow> ustr \<Rightarrow> ustr \<Rightarrow> detected_entity list \<Rightarrow> relationship_query list \<Rightarrow> exn + preflight_input" where
  "make_input request_id raw_text target_system operation entities queries =
     (if request_id = [] \<or> raw_text = [] \<or> target_system = [] \<or> operation = [] then Inl ValueError
      else if \<not> distinct (map dn_mention_id entities) then Inl ValueError
      else if \<not> list_all (span_matches raw_text) entities then Inl ValueError
      else if \<not> distinct (map rq_query_id queries) then Inl ValueError
      else if \<not> list_all (\<lambda>q. rq_subject_mention_id q \<in> set (map dn_mention_id entities)) queries then Inl ValueError
      else Inr \<lparr>pi_request_id = request_id, pi_raw_text = raw_text, pi_target_system = target_system,
        pi_operation = operation, pi_entities = entities, pi_relationship_queries = queries\<rparr>)"

record resolution_candidate =
  rc_candidate_id :: ustr
  rc_mention_id :: ustr
  rc_source :: source_kind
  rc_normalized_value :: ustr
  rc_display_value :: ustr
  rc_confidence :: rat
  rc_source_ref :: ustr
  rc_relationship_query_id :: "ustr option"

definition candidate_ok :: "resolution_candidate \<Rightarrow> bool" where
  "candidate_ok c \<longleftrightarrow> rc_candidate_id c \<noteq> [] \<and> rc_mention_id c \<noteq> [] \<and> rc_normalized_value c \<noteq> []
     \<and> rc_display_value c \<noteq> [] \<and> rc_source_ref c \<noteq> [] \<and> 0 \<le> rc_confidence c \<and> rc_confidence c \<le> 1"

record selected_value =
  sv_mention_id :: ustr
  sv_normalized_value :: ustr
  sv_display_value :: ustr
  sv_confidence :: rat
  sv_supporting_candidate_ids :: "ustr list"

record audit_metadata =
  am_correlation_id :: ustr
  am_policy_version :: ustr
  am_requested_at :: ustr
  am_actor :: ustr
  am_purpose :: ustr
  am_input_sha256 :: ustr
  am_sensitive_audit_ref :: ustr

record preflight_decision =
  pd_request :: preflight_input
  pd_candidates :: "resolution_candidate list"
  pd_selected :: "selected_value list"
  pd_decision :: decision_kind
  pd_reason :: decision_reason
  pd_needs_confirmation :: bool
  pd_audit :: audit_metadata

record write_receipt =
  wr_external_system :: ustr
  wr_resource_id :: ustr
  wr_write_operation :: ustr
  wr_completed_at :: ustr

record verification_record =
  vr_external_system :: ustr
  vr_resource_id :: ustr
  vr_api_operation :: ustr
  vr_queried_at :: ustr
  vr_outcome :: verification_outcome
  vr_expected_fingerprint :: ustr
  vr_observed_fingerprint :: "ustr option"
  vr_sensitive_evidence_ref :: ustr

record external_write_state =
  ws_correlation_id :: ustr
  ws_phase :: write_phase
  ws_preflight_decision :: decision_kind
  ws_resource_id :: "ustr option"
  ws_failure_code :: "ustr option"
  ws_verification :: "verification_record option"

section \<open>Substitution\<close>

definition replacements_of :: "preflight_decision \<Rightarrow> (ustr, ustr) dict" where
  "replacements_of decision = dict_of
     [(dn_surface entity, sv_normalized_value selected).
        entity \<leftarrow> pi_entities (pd_request decision),
        selected \<leftarrow> pd_selected decision, sv_mention_id selected = dn_mention_id entity]"

definition longest_first :: "(ustr \<times> 'v) list \<Rightarrow> (ustr \<times> 'v) list" where
  "longest_first kvs = sort_key (\<lambda>(k, v). (- int (length k), k)) kvs"

definition replace_text :: "(ustr, ustr) dict \<Rightarrow> ustr \<Rightarrow> ustr" where
  "replace_text replacements text =
     foldl (\<lambda>normalized (surface, value). replace_str normalized surface value) text (longest_first replacements)"

fun replace_value :: "(ustr, ustr) dict \<Rightarrow> json \<Rightarrow> json"
  and replace_values :: "(ustr, ustr) dict \<Rightarrow> json list \<Rightarrow> json list"
  and replace_items :: "(ustr, ustr) dict \<Rightarrow> (ustr \<times> json) list \<Rightarrow> (ustr \<times> json) list" where
  "replace_value rs (JStr text) = JStr (replace_text rs text)"
| "replace_value rs (JArr vs) = JArr (replace_values rs vs)"
| "replace_value rs (JObj kvs) = JObj (replace_items rs kvs)"
| "replace_value rs JNull = JNull"
| "replace_value rs (JBool b) = JBool b"
| "replace_value rs (JInt i) = JInt i"
| "replace_value rs (JFloat q) = JFloat q"
| "replace_values rs [] = []"
| "replace_values rs (v # vs) = replace_value rs v # replace_values rs vs"
| "replace_items rs [] = []"
| "replace_items rs ((k, v) # kvs) = (k, replace_value rs v) # replace_items rs kvs"

definition normalized_payload :: "(ustr \<times> json) list \<Rightarrow> preflight_decision \<Rightarrow> (ustr \<times> json) list" where
  "normalized_payload payload decision = replace_items (replacements_of decision) payload"

section \<open>Detection\<close>

text \<open>The loop over \<open>raw_text.find(surface, position)\<close>.\<close>

function find_all :: "ustr \<Rightarrow> ustr \<Rightarrow> nat \<Rightarrow> nat list" where
  "find_all text sub start =
     (if sub = [] then [] else
      case find_from text sub start of
        None \<Rightarrow> []
      | Some position \<Rightarrow> position # find_all text sub (position + length sub))"
  by pat_completeness auto
termination
proof (relation "measure (\<lambda>(text, sub, start). Suc (length text) - start)", goal_cases)
  case (2 t s p q)
  from find_from_Some(1,2) [OF 2(2)] 2(1) have "p < q + length s" "q + length s \<le> length t"
    by (cases s; auto)+
  then show ?case by simp
qed simp

declare find_all.simps [simp del]

record span =
  sp_start :: nat
  sp_end :: nat
  sp_surface :: ustr
  sp_kind :: entity_kind

definition spans_of :: "ustr \<Rightarrow> ustr \<times> entity_kind \<Rightarrow> span list" where
  "spans_of raw_text hint = (case hint of (surface, kind) \<Rightarrow>
     map (\<lambda>p. \<lparr>sp_start = p, sp_end = p + length surface, sp_surface = surface, sp_kind = kind\<rparr>)
       (find_all raw_text surface 0))"

definition span_key :: "span \<Rightarrow> nat \<times> int \<times> ustr \<times> ustr" where
  "span_key s = (sp_start s, - int (sp_end s), sp_surface s, entity_kind_value (sp_kind s))"

text \<open>The loop that drops a span which starts before the end of the last selected one; the list is kept
  with its last element first.\<close>

fun select_spans :: "span list \<Rightarrow> span list \<Rightarrow> span list" where
  "select_spans selected [] = rev selected"
| "select_spans selected (s # ss) =
     (if selected = [] \<or> sp_end (hd selected) \<le> sp_start s then select_spans (s # selected) ss
      else select_spans selected ss)"

fun number_entities :: "nat \<Rightarrow> span list \<Rightarrow> exn + detected_entity list" where
  "number_entities i [] = Inr []"
| "number_entities i (s # ss) =
     bindE (make_entity (lit ''m-'' @ dec_nat i) (sp_surface s) (sp_kind s) (int (sp_start s)) (int (sp_end s))) (\<lambda>e.
     bindE (number_entities (Suc i) ss) (\<lambda>es. Inr (e # es)))"

definition detect_entities :: "ustr \<Rightarrow> (ustr, entity_kind) dict \<Rightarrow> exn + detected_entity list" where
  "detect_entities raw_text entity_hints =
     number_entities 1 (select_spans []
       (sort_key span_key (concat (map (spans_of raw_text) (longest_first entity_hints)))))"

section \<open>Pronunciation variants\<close>

definition HANGUL_BASE :: nat where "HANGUL_BASE = 44032"

definition HANGUL_LAST :: nat where "HANGUL_LAST = 55203"

definition W_VOWEL_PAIRS :: "(nat \<times> nat) list" where
  "W_VOWEL_PAIRS = [(9, 0), (10, 1), (14, 5), (15, 6)]"

definition vowel_variants :: "nat \<Rightarrow> nat list" where
  "vowel_variants vowel = concat (map (\<lambda>(full, reduced).
     if vowel = full then [reduced] else if vowel = reduced then [full] else []) W_VOWEL_PAIRS)"

definition compose_hangul :: "nat \<Rightarrow> nat \<Rightarrow> nat \<Rightarrow> nat" where
  "compose_hangul lead vowel tail = HANGUL_BASE + ((lead * 21 + vowel) * 28 + tail)"

text \<open>\<open>dict.fromkeys(xs)\<close> keeps the first occurrences.\<close>

fun keep_first :: "'a list \<Rightarrow> 'a list" where
  "keep_first [] = []"
| "keep_first (x # xs) = x # filter (\<lambda>y. y \<noteq> x) (keep_first xs)"

definition syllable_variants :: "nat \<Rightarrow> nat list" where
  "syllable_variants c =
     (if \<not> (HANGUL_BASE \<le> c \<and> c \<le> HANGUL_LAST) then []
      else let off = c - HANGUL_BASE; lead = off div (21 * 28); remainder = off mod (21 * 28);
               vowel = remainder div 28; tail = remainder mod 28;
               with_lead = (\<lambda>l. map (\<lambda>v. compose_hangul l v tail) (vowel_variants vowel)) in
        keep_first (with_lead lead
          @ (if lead = 11 then compose_hangul 18 vowel tail # with_lead 18 else [])
          @ (if lead = 18 then compose_hangul 11 vowel tail # with_lead 11 else [])))"

definition add_new :: "ustr list \<Rightarrow> ustr \<Rightarrow> ustr list" where
  "add_new variants candidate = (if candidate \<in> set variants then variants else variants @ [candidate])"

definition pronunciation_variants :: "(ustr \<Rightarrow> ustr) \<Rightarrow> ustr \<Rightarrow> ustr list" where
  "pronunciation_variants casefold surface =
     foldl add_new (surface # (if casefold surface = surface then [] else [casefold surface]))
       (concat (map (\<lambda>i. map (\<lambda>r. take i surface @ [r] @ drop (Suc i) surface) (syllable_variants (surface ! i)))
         [0..<length surface]))"

definition rewritten_question :: "(ustr \<Rightarrow> ustr) \<Rightarrow> preflight_input \<Rightarrow> detected_entity \<Rightarrow> relationship_query \<Rightarrow> ustr" where
  "rewritten_question casefold request entity query =
     lit ''raw_name='' @ dn_surface entity @ lit ''; pronunciation_variants=''
     @ join (lit ''|'') (pronunciation_variants casefold (dn_surface entity))
     @ lit ''; relation='' @ rq_relation query @ lit ''; target_kind='' @ entity_kind_value (rq_target_kind query)
     @ lit ''; action='' @ pi_operation request @ lit ''; target_system='' @ pi_target_system request
     @ lit ''; question='' @ rq_question query"

definition rewrite_relationship_queries :: "(ustr \<Rightarrow> ustr) \<Rightarrow> preflight_input \<Rightarrow> exn + relationship_query list" where
  "rewrite_relationship_queries casefold request =
     (let mentions = dict_of (map (\<lambda>e. (dn_mention_id e, e)) (pi_entities request)) in
      mapE (\<lambda>query. case dict_get mentions (rq_subject_mention_id query) of
          None \<Rightarrow> Inl KeyError
        | Some entity \<Rightarrow> make_query (rq_query_id query) (rq_subject_mention_id query) (rq_relation query)
            (rq_target_kind query) (rewritten_question casefold request entity query))
        (pi_relationship_queries request))"

section \<open>What is detected\<close>

lemma find_all_sound:
  "p \<in> set (find_all t s q) \<Longrightarrow> s \<noteq> [] \<and> p + length s \<le> length t \<and> take (length s) (drop p t) = s"
proof (induction t s q rule: find_all.induct)
  case (1 t s q)
  have "find_all t s q = (if s = [] then [] else case find_from t s q of None \<Rightarrow> []
      | Some x \<Rightarrow> x # find_all t s (x + length s))" by (rule find_all.simps)
  with "1.prems" obtain x where s: "s \<noteq> []" and f: "find_from t s q = Some x"
    and "p = x \<or> p \<in> set (find_all t s (x + length s))" by (auto split: if_splits option.splits)
  then consider "p = x" | "p \<in> set (find_all t s (x + length s))" by blast
  then show ?case
  proof cases
    case 1
    with s find_from_Some(2,3) [OF f] show ?thesis by simp
  next
    case 2
    from "1.IH" [OF s f 2] show ?thesis .
  qed
qed

lemma find_all_Nil: "find_all t s 0 = [] \<longleftrightarrow> s = [] \<or> \<not> contains t s"
  by (subst find_all.simps) (simp add: contains_def split: option.splits)

definition good_span :: "ustr \<Rightarrow> (ustr, entity_kind) dict \<Rightarrow> span \<Rightarrow> bool" where
  "good_span raw_text hints s \<longleftrightarrow> sp_surface s \<noteq> [] \<and> sp_end s = sp_start s + length (sp_surface s)
     \<and> sp_end s \<le> length raw_text \<and> take (length (sp_surface s)) (drop (sp_start s) raw_text) = sp_surface s
     \<and> (sp_surface s, sp_kind s) \<in> set hints"

lemma spans_of_good: "h \<in> set hints \<Longrightarrow> s \<in> set (spans_of raw_text h) \<Longrightarrow> good_span raw_text hints s"
  by (cases h) (auto simp: spans_of_def good_span_def dest: find_all_sound)

definition apart :: "span \<Rightarrow> span \<Rightarrow> bool" where
  "apart a b \<longleftrightarrow> sp_end a \<le> sp_start b"

lemma select_spans_apart:
  assumes "\<forall>s \<in> set sel \<union> set ss. sp_start s \<le> sp_end s" and "sorted_wrt apart (rev sel)"
  shows "sorted_wrt apart (select_spans sel ss) \<and> set (select_spans sel ss) \<subseteq> set sel \<union> set ss
    \<and> (select_spans sel ss = [] \<longleftrightarrow> sel = [] \<and> ss = [])"
  using assms
proof (induction ss arbitrary: sel)
  case Nil
  then show ?case by simp
next
  case (Cons s ss)
  show ?case
  proof (cases "sel = [] \<or> sp_end (hd sel) \<le> sp_start s")
    case True
    have "sorted_wrt apart (rev (s # sel))"
    proof (cases sel)
      case (Cons h t)
      have "\<forall>x \<in> set t. apart x h" using Cons.prems(2) by (auto simp: Cons sorted_wrt_append)
      moreover have "sp_start h \<le> sp_end h" "apart h s" using Cons.prems(1) True by (auto simp: Cons apart_def)
      ultimately have "\<forall>x \<in> set sel. apart x s" by (fastforce simp: Cons apart_def)
      with Cons.prems(2) show ?thesis by (simp add: sorted_wrt_append)
    qed simp
    with Cons.IH [of "s # sel"] Cons.prems(1) True show ?thesis by auto
  next
    case False
    with Cons.IH [of sel] Cons.prems show ?thesis by auto
  qed
qed

definition entity_of :: "nat \<Rightarrow> span \<Rightarrow> detected_entity" where
  "entity_of i s = \<lparr>dn_mention_id = lit ''m-'' @ dec_nat i, dn_surface = sp_surface s, dn_entity_kind = sp_kind s,
     dn_start = int (sp_start s), dn_end = int (sp_end s)\<rparr>"

lemma number_entities_map:
  "\<forall>s \<in> set ss. good_span raw_text hints s \<Longrightarrow>
     number_entities i ss = Inr (map (\<lambda>(k, s). entity_of (i + k) s) (zip [0..<length ss] ss))"
proof (induction ss arbitrary: i)
  case Nil
  then show ?case by simp
next
  case (Cons s ss)
  have m: "make_entity (lit ''m-'' @ dec_nat i) (sp_surface s) (sp_kind s) (int (sp_start s)) (int (sp_end s)) = Inr (entity_of i s)"
    using Cons.prems by (auto simp: make_entity_def entity_of_def good_span_def)
  have "zip [0..<length (s # ss)] (s # ss) = (0, s) # map (\<lambda>(k, s). (Suc k, s)) (zip [0..<length ss] ss)"
    by (simp add: upt_conv_Cons map_Suc_upt [symmetric] zip_map1 del: upt_Suc)
  with Cons m show ?case by (simp add: case_prod_unfold comp_def del: upt_Suc)
qed

lemma dec_nat_inj: "dec_nat i = dec_nat j \<longleftrightarrow> i = j"
  by (metis undec_dec_nat)

text \<open>C34. Detection always gives a well-formed list of entities: numbered apart, each span reading exactly
  its hinted surface in the text, in text order and without overlaps, so that the constructor of the
  request accepts them; and it is empty exactly when no non-empty hint occurs in the text.\<close>

theorem detect_wellformed:
  "\<exists>es. detect_entities raw_text hints = Inr es
    \<and> distinct (map dn_mention_id es) \<and> list_all (span_matches raw_text) es
    \<and> sorted_wrt (\<lambda>a b. dn_end a \<le> dn_start b) es
    \<and> (\<forall>e \<in> set es. (dn_surface e, dn_entity_kind e) \<in> set hints)
    \<and> (es = [] \<longleftrightarrow> (\<forall>(s, k) \<in> set hints. s = [] \<or> \<not> contains raw_text s))
    \<and> (is_Inr (make_input rid raw_text ts op es []) \<longleftrightarrow> rid \<noteq> [] \<and> raw_text \<noteq> [] \<and> ts \<noteq> [] \<and> op \<noteq> [])"
proof -
  define spans where "spans = sort_key span_key (concat (map (spans_of raw_text) (longest_first hints)))"
  define ss where "ss = select_spans [] spans"
  define es where "es = map (\<lambda>(k, s). entity_of (1 + k) s) (zip [0..<length ss] ss)"
  have set_spans: "set spans = (\<Union>h \<in> set hints. set (spans_of raw_text h))"
    by (simp add: spans_def longest_first_def)
  then have good: "\<forall>s \<in> set spans. good_span raw_text hints s" using spans_of_good by blast
  then have "\<forall>s \<in> set [] \<union> set spans. sp_start s \<le> sp_end s" by (auto simp: good_span_def)
  from select_spans_apart [OF this] have ap: "sorted_wrt apart ss" and sub: "set ss \<subseteq> set spans"
    and emp: "ss = [] \<longleftrightarrow> spans = []" by (auto simp: ss_def)
  have gss: "\<forall>s \<in> set ss. good_span raw_text hints s" using good sub by blast
  have d: "detect_entities raw_text hints = Inr es"
    using number_entities_map [OF gss, of 1] by (simp add: detect_entities_def spans_def [symmetric] ss_def [symmetric] es_def)
  have nth: "es ! i = entity_of (1 + i) (ss ! i)" if "i < length ss" for i using that by (simp add: es_def)
  have len: "length es = length ss" by (simp add: es_def)
  have ent: "\<exists>s \<in> set ss. \<exists>i. e = entity_of i s" if "e \<in> set es" for e
    using that by (auto simp: es_def dest: set_zip_rightD)
  have dist: "distinct (map dn_mention_id es)"
    by (auto simp: distinct_conv_nth len nth entity_of_def dec_nat_inj)
  have match: "list_all (span_matches raw_text) es"
  proof (unfold list_all_iff, intro ballI)
    fix e assume "e \<in> set es"
    with ent gss obtain s i where "good_span raw_text hints s" "e = entity_of i s" by blast
    then show "span_matches raw_text e"
      by (simp add: good_span_def span_matches_def slice_def entity_of_def flip: of_nat_add)
  qed
  have "sorted_wrt (\<lambda>a b. dn_end a \<le> dn_start b) es"
    using ap by (auto simp: sorted_wrt_iff_nth_less len nth entity_of_def apart_def)
  moreover have "\<forall>e \<in> set es. (dn_surface e, dn_entity_kind e) \<in> set hints"
    using ent gss by (fastforce simp: good_span_def entity_of_def)
  moreover have "es = [] \<longleftrightarrow> (\<forall>(s, k) \<in> set hints. s = [] \<or> \<not> contains raw_text s)"
  proof -
    have "es = [] \<longleftrightarrow> set spans = {}" using len emp by (metis length_0_conv set_empty)
    also have "\<dots> \<longleftrightarrow> (\<forall>(s, k) \<in> set hints. find_all raw_text s 0 = [])"
      by (auto simp: set_spans spans_of_def)
    finally show ?thesis by (simp add: find_all_Nil)
  qed
  moreover have "is_Inr (make_input rid raw_text ts op es []) \<longleftrightarrow> rid \<noteq> [] \<and> raw_text \<noteq> [] \<and> ts \<noteq> [] \<and> op \<noteq> []"
    using dist match by (simp add: make_input_def is_Inr_def)
  ultimately show ?thesis using d dist match by blast
qed

theorem detect_wellformed_witness:
  "\<exists>es. detect_entities (lit ''meet Kim'') [(lit ''Kim'', Entity_PERSON)] = Inr es \<and> es \<noteq> []
     \<and> list_all (span_matches (lit ''meet Kim'')) es"
proof -
  have c: "contains (lit ''meet Kim'') (lit ''Kim'')" by code_simp
  obtain es where "detect_entities (lit ''meet Kim'') [(lit ''Kim'', Entity_PERSON)] = Inr es"
    "list_all (span_matches (lit ''meet Kim'')) es"
    "es = [] \<longleftrightarrow> (\<forall>(s, k) \<in> set [(lit ''Kim'', Entity_PERSON)]. s = [] \<or> \<not> contains (lit ''meet Kim'') s)"
    using detect_wellformed [of "lit ''meet Kim''" "[(lit ''Kim'', Entity_PERSON)]" "[]" "[]" "[]"] by blast
  with c show ?thesis by auto
qed

text \<open>A replaced value is replaced again when a later, shorter surface occurs in it: with the mentions
  \<open>ab\<close> (to be written \<open>cd\<close>) and \<open>c\<close> (to be written \<open>x\<close>) the payload \<open>ab\<close> becomes \<open>xd\<close>.\<close>

lemma replacement_chains: "replace_text [(lit ''ab'', lit ''cd''), (lit ''c'', lit ''x'')] (lit ''ab'') = lit ''xd''"
  by (simp add: replace_text_def longest_first_def replace_str_def starts_with_def lit_def)

end
