(* ===== verification/EntityPolicy.thy ===== *)
theory EntityPolicy
  imports EntityContracts
begin

text \<open>
  \<open>automation/entity_preflight/policy.py\<close>, \<open>state.py\<close>, \<open>clarify.py\<close> and the event of \<open>audit.py\<close>: which
  candidate is chosen without asking, the states of an external write, the question to the owner, and
  what general logs may see. Scores are rationals; parsing and formatting of decimal numbers are arguments.
\<close>

section \<open>The policy file\<close>

record preflight_policy =
  pp_version :: ustr
  pp_auto_select_min_confidence :: rat
  pp_conflict_min_confidence :: rat
  pp_ambiguity_margin :: rat
  pp_source_weights :: "(source_kind, rat) dict"

definition all_sources :: "source_kind list" where
  "all_sources = [Source_EXPLICIT_INPUT, Source_RELATIONSHIP_QUERY, Source_ADDRESSBOOK_ORGANIZATION,
     Source_ADDRESSBOOK_CONTACTS, Source_ADDRESSBOOK_HISTORY, Source_PERSONAL_RAG, Source_HERMES_MEMORY]"

definition in_unit :: "rat \<Rightarrow> bool" where
  "in_unit q \<longleftrightarrow> 0 \<le> q \<and> q \<le> 1"

definition make_policy :: "ustr \<Rightarrow> rat \<Rightarrow> rat \<Rightarrow> rat \<Rightarrow> (source_kind, rat) dict \<Rightarrow> exn + preflight_policy" where
  "make_policy version auto_min conflict_min margin weights =
     (if version = [] \<or> \<not> list_all in_unit ([auto_min, conflict_min, margin] @ map snd weights) then Inl PolicyError
      else if conflict_min > auto_min then Inl PolicyError
      else Inr \<lparr>pp_version = version, pp_auto_select_min_confidence = auto_min,
        pp_conflict_min_confidence = conflict_min, pp_ambiguity_margin = margin, pp_source_weights = weights\<rparr>)"

fun py_float :: "(ustr \<Rightarrow> rat option) \<Rightarrow> json \<Rightarrow> exn + rat" where
  "py_float parse (JInt i) = Inr (of_int i)"
| "py_float parse (JBool b) = Inr (if b then 1 else 0)"
| "py_float parse (JFloat q) = Inr q"
| "py_float parse (JStr s) = (case parse s of Some q \<Rightarrow> Inr q | None \<Rightarrow> Inl ValueError)"
| "py_float parse _ = Inl TypeError"

definition source_kind_of :: "ustr \<Rightarrow> exn + source_kind" where
  "source_kind_of s = (case find (\<lambda>k. source_kind_value k = s) all_sources of
      Some k \<Rightarrow> Inr k | None \<Rightarrow> Inl ValueError)"

text \<open>\<open>payload[k]\<close> of any JSON value.\<close>

definition subscript :: "json \<Rightarrow> string \<Rightarrow> exn + json" where
  "subscript v k = (case v of
      JObj kvs \<Rightarrow> (case jget kvs k of Some x \<Rightarrow> Inr x | None \<Rightarrow> Inl KeyError)
    | _ \<Rightarrow> Inl TypeError)"

definition load_weights :: "(ustr \<Rightarrow> rat option) \<Rightarrow> json \<Rightarrow> exn + (source_kind, rat) dict" where
  "load_weights parse raw_weights = (case raw_weights of
      JObj kvs \<Rightarrow> bindE (mapE (\<lambda>(k, v). bindE (source_kind_of k) (\<lambda>s. bindE (py_float parse v) (\<lambda>q. Inr (s, q)))) kvs)
        (\<lambda>pairs. Inr (dict_of pairs))
    | _ \<Rightarrow> Inl OtherError)"

definition policy_of_json :: "(ustr \<Rightarrow> rat option) \<Rightarrow> (json \<Rightarrow> ustr) \<Rightarrow> json \<Rightarrow> exn + preflight_policy" where
  "policy_of_json parse str payload =
     bindE (subscript payload ''thresholds'') (\<lambda>thresholds.
     bindE (subscript payload ''source_weights'') (\<lambda>raw_weights.
     bindE (load_weights parse raw_weights) (\<lambda>weights.
       if \<not> list_all (\<lambda>s. s \<in> set (dict_keys weights)) all_sources then Inl PolicyError
       else
         bindE (subscript payload ''version'') (\<lambda>version.
         bindE (bindE (subscript thresholds ''auto_select_min_confidence'') (py_float parse)) (\<lambda>auto_min.
         bindE (bindE (subscript thresholds ''conflict_min_confidence'') (py_float parse)) (\<lambda>conflict_min.
         bindE (bindE (subscript thresholds ''ambiguity_margin'') (py_float parse)) (\<lambda>margin.
           make_policy (str version) auto_min conflict_min margin weights)))))))"

text \<open>\<open>except (OSError, KeyError, TypeError, JSONDecodeError, ValueError)\<close>: every one becomes \<open>PolicyError\<close>.\<close>

definition load_policy :: "(ustr \<Rightarrow> rat option) \<Rightarrow> (json \<Rightarrow> ustr) \<Rightarrow> file_read \<Rightarrow> exn + preflight_policy" where
  "load_policy parse str f =
     (case (case f of
         FileMissing \<Rightarrow> Inl OSError | FileOSError \<Rightarrow> Inl OSError | FileNotUtf8 \<Rightarrow> Inl UnicodeDecodeError
       | FileNotJson \<Rightarrow> Inl JSONDecodeError | FileJson v \<Rightarrow> policy_of_json parse str v) of
        Inr p \<Rightarrow> Inr p
      | Inl e \<Rightarrow> Inl (if value_error e \<or> e \<in> {OSError, KeyError, TypeError} then PolicyError else e))"

section \<open>The decision\<close>

text \<open>A loaded policy has a weight for every source, so the lookup cannot fail.\<close>

definition weight_of :: "preflight_policy \<Rightarrow> source_kind \<Rightarrow> rat" where
  "weight_of policy s = (case dict_get (pp_source_weights policy) s of Some q \<Rightarrow> q | None \<Rightarrow> 0)"

definition effective_confidence :: "resolution_candidate \<Rightarrow> preflight_policy \<Rightarrow> rat" where
  "effective_confidence c policy = rc_confidence c * weight_of policy (rc_source c)"

type_synonym ranked = "(rat \<times> ustr \<times> resolution_candidate list) list"

definition group_candidates :: "resolution_candidate list \<Rightarrow> (ustr, resolution_candidate list) dict" where
  "group_candidates cs = foldl (\<lambda>grouped c.
     dict_set grouped (rc_normalized_value c)
       ((case dict_get grouped (rc_normalized_value c) of Some g \<Rightarrow> g | None \<Rightarrow> []) @ [c])) [] cs"

definition group_score :: "preflight_policy \<Rightarrow> resolution_candidate list \<Rightarrow> rat" where
  "group_score policy g = Max ((\<lambda>c. effective_confidence c policy) ` set g)"

definition rank_groups :: "resolution_candidate list \<Rightarrow> preflight_policy \<Rightarrow> ranked" where
  "rank_groups cs policy = sort_key (\<lambda>(score, normalized, g). (- score, normalized))
     (map (\<lambda>(normalized, g). (group_score policy g, normalized, g)) (group_candidates cs))"

text \<open>\<open>max(xs, key=f)\<close> gives the first element with the greatest key.\<close>

fun first_max :: "('a \<Rightarrow> rat) \<Rightarrow> 'a \<Rightarrow> 'a list \<Rightarrow> 'a" where
  "first_max f best [] = best"
| "first_max f best (x # xs) = first_max f (if f x > f best then x else best) xs"

text \<open>\<open>round(x, 6)\<close>, half to even.\<close>

definition round6 :: "rat \<Rightarrow> rat" where
  "round6 q = (let x = q * 1000000; lo = \<lfloor>x\<rfloor>; d = x - of_int lo in
     of_int (if d < 1/2 then lo else if d > 1/2 then lo + 1 else if even lo then lo else lo + 1) / 1000000)"

text \<open>One turn of the loop over the entities: a selected value, or the reason why there is none.\<close>

definition resolve_mention ::
    "preflight_policy \<Rightarrow> resolution_candidate list \<Rightarrow> detected_entity \<Rightarrow> decision_reason + selected_value" where
  "resolve_mention policy candidates entity =
     (case rank_groups (filter (\<lambda>c. rc_mention_id c = dn_mention_id entity) candidates) policy of
        [] \<Rightarrow> Inl Why_NO_CANDIDATE
      | (top_score, normalized, supporting) # rest \<Rightarrow>
          if (case rest of [] \<Rightarrow> False
              | (second_score, _) # _ \<Rightarrow> second_score \<ge> pp_conflict_min_confidence policy
                  \<or> top_score - second_score < pp_ambiguity_margin policy)
          then Inl Why_CANDIDATE_CONFLICT
          else if top_score < pp_auto_select_min_confidence policy then Inl Why_LOW_CONFIDENCE
          else
            let best = first_max (\<lambda>c. effective_confidence c policy) (hd supporting) (tl supporting) in
            Inr \<lparr>sv_mention_id = dn_mention_id entity, sv_normalized_value = normalized,
              sv_display_value = rc_display_value best, sv_confidence = round6 top_score,
              sv_supporting_candidate_ids = map rc_candidate_id supporting\<rparr>)"

definition lefts :: "('a + 'b) list \<Rightarrow> 'a list" where
  "lefts xs = List.map_filter (\<lambda>x. case x of Inl a \<Rightarrow> Some a | Inr _ \<Rightarrow> None) xs"

definition rights :: "('a + 'b) list \<Rightarrow> 'b list" where
  "rights xs = List.map_filter (\<lambda>x. case x of Inl _ \<Rightarrow> None | Inr b \<Rightarrow> Some b) xs"

definition worst_reason :: "decision_reason list \<Rightarrow> decision_reason" where
  "worst_reason reasons =
     (if Why_CANDIDATE_CONFLICT \<in> set reasons then Why_CANDIDATE_CONFLICT
      else if Why_LOW_CONFIDENCE \<in> set reasons then Why_LOW_CONFIDENCE else Why_NO_CANDIDATE)"

definition check_candidates :: "preflight_input \<Rightarrow> resolution_candidate list \<Rightarrow> exn + unit" where
  "check_candidates request candidates =
     (let mention_ids = map dn_mention_id (pi_entities request);
          query_mentions = dict_of (map (\<lambda>q. (rq_query_id q, rq_subject_mention_id q)) (pi_relationship_queries request)) in
      if \<not> distinct (map rc_candidate_id candidates) then Inl ValueError
      else if \<not> list_all (\<lambda>c. rc_mention_id c \<in> set mention_ids) candidates then Inl ValueError
      else if list_ex (\<lambda>c. case rc_relationship_query_id c of
            None \<Rightarrow> False | Some q \<Rightarrow> dict_get query_mentions q \<noteq> Some (rc_mention_id c)) candidates
        then Inl ValueError
      else Inr ())"

definition decide ::
    "preflight_input \<Rightarrow> resolution_candidate list \<Rightarrow> audit_metadata \<Rightarrow> preflight_policy \<Rightarrow> exn + preflight_decision" where
  "decide request candidates audit policy =
     (if am_policy_version audit \<noteq> pp_version policy then Inl PolicyError
      else bindE (check_candidates request candidates) (\<lambda>_.
        let base = \<lparr>pd_request = request, pd_candidates = candidates, pd_selected = [], pd_decision = Decide_NOT_DETECTED,
              pd_reason = Why_NO_ENTITY, pd_needs_confirmation = False, pd_audit = audit\<rparr> in
        if pi_entities request = [] then Inr base
        else
          let outcomes = map (resolve_mention policy candidates) (pi_entities request);
              reasons = lefts outcomes; selected = rights outcomes in
          if reasons \<noteq> [] then
            Inr (base\<lparr>pd_selected := selected, pd_decision := Decide_CONFIRMATION_REQUIRED,
              pd_reason := worst_reason reasons, pd_needs_confirmation := True\<rparr>)
          else
            Inr (base\<lparr>pd_selected := selected, pd_decision := Decide_AUTO_SELECTED,
              pd_reason := Why_SINGLE_HIGH_CONFIDENCE\<rparr>)))"

section \<open>The states of a write\<close>

fun allowed_phases :: "write_phase \<Rightarrow> write_phase list" where
  "allowed_phases Write_PREFLIGHTED = [Write_AWAITING_CLARIFY, Write_READY_TO_WRITE]"
| "allowed_phases Write_AWAITING_CLARIFY = [Write_READY_TO_WRITE, Write_CANCELLED]"
| "allowed_phases Write_READY_TO_WRITE = [Write_IN_PROGRESS]"
| "allowed_phases Write_IN_PROGRESS = [Write_SUCCEEDED, Write_FAILED]"
| "allowed_phases Write_SUCCEEDED = [Write_VERIFYING]"
| "allowed_phases Write_VERIFYING = [Write_VERIFIED, Write_VERIFICATION_FAILED]"
| "allowed_phases _ = []"

definition initial_state :: "preflight_decision \<Rightarrow> external_write_state" where
  "initial_state decision =
     \<lparr>ws_correlation_id = am_correlation_id (pd_audit decision),
      ws_phase = (if pd_decision decision = Decide_NOT_DETECTED then Write_READY_TO_WRITE
        else if pd_needs_confirmation decision then Write_AWAITING_CLARIFY else Write_READY_TO_WRITE),
      ws_preflight_decision = pd_decision decision,
      ws_resource_id = None, ws_failure_code = None, ws_verification = None\<rparr>"

definition transition ::
    "external_write_state \<Rightarrow> write_phase \<Rightarrow> ustr option \<Rightarrow> ustr option \<Rightarrow> verification_record option
      \<Rightarrow> exn + external_write_state" where
  "transition st phase resource_id failure_code verification =
     (if phase \<notin> set (allowed_phases (ws_phase st)) then Inl ValueError
      else if phase = Write_SUCCEEDED \<and> (resource_id = None \<or> resource_id = Some []) then Inl ValueError
      else if phase \<in> {Write_FAILED, Write_VERIFICATION_FAILED} \<and> (failure_code = None \<or> failure_code = Some [])
        then Inl ValueError
      else if phase \<in> {Write_VERIFIED, Write_VERIFICATION_FAILED} \<and>
          (case verification of None \<Rightarrow> True
           | Some v \<Rightarrow> phase \<noteq> (if vr_outcome v = Verify_MATCH then Write_VERIFIED else Write_VERIFICATION_FAILED))
        then Inl ValueError
      else Inr (st\<lparr>ws_phase := phase,
        ws_resource_id := (if resource_id \<noteq> None then resource_id else ws_resource_id st),
        ws_failure_code := failure_code, ws_verification := verification\<rparr>))"

inductive write_run :: "preflight_decision \<Rightarrow> write_phase list \<Rightarrow> external_write_state \<Rightarrow> bool" for d where
  initial: "write_run d [ws_phase (initial_state d)] (initial_state d)"
| move: "write_run d ps st \<Longrightarrow> transition st p r f v = Inr st' \<Longrightarrow> write_run d (ps @ [p]) st'"

section \<open>The question to the owner\<close>

definition reason_label :: "decision_reason \<Rightarrow> ustr" where
  "reason_label r = (case r of
      Why_CANDIDATE_CONFLICT \<Rightarrow> [49436, 47196, 32, 45796, 47480, 32, 54980, 48372, 44032, 32, 44221,
        54633, 54633, 45768, 45796]
    | Why_LOW_CONFIDENCE \<Rightarrow> [44032, 51109, 32, 50976, 47141, 54620, 32, 54980, 48372, 46020, 32, 51088,
        46041, 32, 49440, 53469, 32, 54616, 54620, 50640, 32, 47803, 32, 48120, 52841, 45768, 45796]
    | Why_NO_CANDIDATE \<Rightarrow> [50612, 46500, 32, 54980, 48372, 50896, 50640, 49436, 46020, 32, 44050, 51012,
        32, 52286, 51648, 32, 47803, 54664, 49845, 45768, 45796]
    | _ \<Rightarrow> [44256, 50976, 47749, 49324, 47484, 32, 54869, 51221, 54616, 51648, 32, 47803, 54664, 49845,
        45768, 45796])"

text \<open>\<open>f"{x:.2f}"\<close> is the argument \<open>fmt2\<close>.\<close>

definition candidate_line :: "(rat \<Rightarrow> ustr) \<Rightarrow> nat \<Rightarrow> resolution_candidate \<Rightarrow> ustr" where
  "candidate_line fmt2 index c =
     lit ''  '' @ dec_nat index @ lit '') '' @ rc_display_value c @ lit '' [source='' @ source_kind_value (rc_source c)
     @ lit '' confidence='' @ fmt2 (rc_confidence c) @ lit '']''"

definition mention_block :: "(rat \<Rightarrow> ustr) \<Rightarrow> preflight_decision \<Rightarrow> detected_entity \<Rightarrow> ustr list" where
  "mention_block fmt2 decision entity =
     (let header = lit ''- '' @ [39] @ dn_surface entity @ [39] @ lit ''('' @ entity_kind_value (dn_entity_kind entity)
            @ lit '')'' @ [32, 54980, 48372, 58];
          candidates = sort_key (\<lambda>c. (- rc_confidence c, rc_normalized_value c, rc_candidate_id c))
            (filter (\<lambda>c. rc_mention_id c = dn_mention_id entity) (pd_candidates decision)) in
      if candidates = [] then [header, [32, 32, 50630, 51020, 32, 8212, 32, 51221, 44508, 54868, 32, 44050, 51012,
        32, 51649, 51217, 32, 50508, 47140, 51452, 49464, 50836, 46]]
      else header # map (\<lambda>(rank, c). candidate_line fmt2 rank c) (zip [1..<Suc (length candidates)] candidates))"

text \<open>\<open>_mention_block\<close> looks the entity up by its mention id: the first one with it.\<close>

definition render_clarify :: "(rat \<Rightarrow> ustr) \<Rightarrow> preflight_decision \<Rightarrow> exn + ustr" where
  "render_clarify fmt2 decision =
     (if \<not> pd_needs_confirmation decision then Inl ValueError
      else
        let entities = pi_entities (pd_request decision);
            resolved = map sv_mention_id (pd_selected decision);
            unresolved = filter (\<lambda>m. m \<notin> set resolved) (map dn_mention_id entities);
            blocks = map (\<lambda>m. case find (\<lambda>e. dn_mention_id e = m) entities of
              Some e \<Rightarrow> mention_block fmt2 decision e | None \<Rightarrow> []) unresolved in
        Inr (join [10]
          ([lit ''ENTITY-CLARIFY '' @ reason_label (pd_reason decision) @ [32, 8212, 32, 50808, 48512, 32, 50416,
        44592, 47484, 32, 49884, 51089, 54616, 51648, 32, 50506, 50520, 49845, 45768, 45796, 46],
            lit ''reason='' @ decision_reason_value (pd_reason decision) @ lit '' correlation_id=''
              @ am_correlation_id (pd_audit decision)]
           @ concat blocks @ [[51060, 32, 45824, 54868, 50640, 49436, 32, 47582, 45716, 32, 44050, 51012, 32, 50508,
        47140, 51452, 49464, 50836, 32, 40, 49849, 51064, 32, 47532, 50529, 49496, 51060, 32, 50500, 45768, 46972,
        32, 45824, 54868, 32, 45813, 48320, 51004, 47196, 32, 54869, 51221, 54633, 45768, 45796, 41, 46]])))"

section \<open>What general logs see\<close>

definition count_sources :: "resolution_candidate list \<Rightarrow> (ustr \<times> json) list" where
  "count_sources cs = map (\<lambda>(k, n). (k, JInt n)) (foldl (\<lambda>counts c.
     let k = source_kind_value (rc_source c) in
     dict_set counts k ((case dict_get counts k of Some n \<Rightarrow> n | None \<Rightarrow> 0) + 1)) [] cs)"

definition operational_event :: "preflight_decision \<Rightarrow> json" where
  "operational_event d = JObj
     [(lit ''event'', JStr (lit ''entity_preflight_decision'')),
      (lit ''correlation_id'', JStr (am_correlation_id (pd_audit d))),
      (lit ''policy_version'', JStr (am_policy_version (pd_audit d))),
      (lit ''target_system'', JStr (pi_target_system (pd_request d))),
      (lit ''operation'', JStr (pi_operation (pd_request d))),
      (lit ''entity_count'', JInt (int (length (pi_entities (pd_request d))))),
      (lit ''entity_types'', JArr (map JStr (sort (remdups (map (\<lambda>e. entity_kind_value (dn_entity_kind e))
        (pi_entities (pd_request d))))))),
      (lit ''candidate_count'', JInt (int (length (pd_candidates d)))),
      (lit ''candidate_sources'', JObj (count_sources (pd_candidates d))),
      (lit ''selected_count'', JInt (int (length (pd_selected d)))),
      (lit ''decision'', JStr (decision_kind_value (pd_decision d))),
      (lit ''reason'', JStr (decision_reason_value (pd_reason d))),
      (lit ''needs_confirmation'', JBool (pd_needs_confirmation d)),
      (lit ''input_sha256'', JStr (am_input_sha256 (pd_audit d)))]"

section \<open>Only clear winners are selected\<close>

lemma group_candidates_get:
  "wf_dict (group_candidates cs) \<and> dict_get (group_candidates cs) k =
     (case filter (\<lambda>c. rc_normalized_value c = k) cs of [] \<Rightarrow> None | c # g \<Rightarrow> Some (c # g))"
proof (induction cs arbitrary: k rule: rev_induct)
  case Nil
  then show ?case by (simp add: group_candidates_def)
next
  case (snoc c cs)
  have step: "group_candidates (cs @ [c]) = dict_set (group_candidates cs) (rc_normalized_value c)
      ((case dict_get (group_candidates cs) (rc_normalized_value c) of Some g \<Rightarrow> g | None \<Rightarrow> []) @ [c])"
    by (simp add: group_candidates_def)
  show ?case unfolding step using snoc.IH [of k] snoc.IH [of "rc_normalized_value c"]
    by (auto split: list.splits)
qed

lemma in_ranked:
  "(score, n, g) \<in> set (rank_groups cs policy) \<longleftrightarrow>
     g = filter (\<lambda>c. rc_normalized_value c = n) cs \<and> g \<noteq> [] \<and> score = group_score policy g"
proof -
  have "(score, n, g) \<in> set (rank_groups cs policy) \<longleftrightarrow> (n, g) \<in> set (group_candidates cs) \<and> score = group_score policy g"
    by (force simp: rank_groups_def)
  also have "(n, g) \<in> set (group_candidates cs) \<longleftrightarrow> dict_get (group_candidates cs) n = Some g"
    using dict_get_iff [of "group_candidates cs" n g] group_candidates_get [of cs n] by blast
  finally show ?thesis using group_candidates_get [of cs n] by (auto split: list.splits)
qed

lemma ranked_distinct: "distinct (map (\<lambda>(s, n, g). n) (rank_groups cs policy))"
proof -
  let ?third = "\<lambda>(s, n, g). n" and ?xs = "map (\<lambda>(normalized, g). (group_score policy g, normalized, g)) (group_candidates cs)"
  have sort: "distinct (map ?third (sort_key k ?xs)) \<longleftrightarrow> distinct (map ?third ?xs)"
    for k :: "rat \<times> ustr \<times> resolution_candidate list \<Rightarrow> rat \<times> ustr"
    by (simp only: distinct_map distinct_sort set_sort)
  have "map ?third ?xs = map fst (group_candidates cs)" by (simp add: case_prod_unfold)
  moreover have "distinct (map fst (group_candidates cs))" using group_candidates_get [of cs] by (simp add: wf_dict_def)
  ultimately show ?thesis unfolding rank_groups_def by (simp only: sort)
qed

lemma ranked_descending:
  "rank_groups cs policy = (s, n, g) # rest \<Longrightarrow>
     (\<forall>(s', n', g') \<in> set rest. s' \<le> s) \<and> (\<forall>s2 n2 g2 rest'. rest = (s2, n2, g2) # rest' \<longrightarrow> (\<forall>(s', n', g') \<in> set rest. s' \<le> s2))"
proof -
  assume r: "rank_groups cs policy = (s, n, g) # rest"
  have "sorted (map (\<lambda>(score, normalized, g). (- score, normalized)) (rank_groups cs policy))"
    by (simp add: rank_groups_def)
  with r show ?thesis by (fastforce simp: less_eq_prod_def)
qed

lemma group_score_ge: "c \<in> set g \<Longrightarrow> effective_confidence c policy \<le> group_score policy g"
  by (simp add: group_score_def)

lemma group_score_in: "g \<noteq> [] \<Longrightarrow> \<exists>c \<in> set g. group_score policy g = effective_confidence c policy"
proof -
  assume "g \<noteq> []"
  then have "group_score policy g \<in> (\<lambda>c. effective_confidence c policy) ` set g"
    unfolding group_score_def by (intro Max_in) auto
  then show ?thesis by blast
qed

definition clear_winner :: "preflight_policy \<Rightarrow> resolution_candidate list \<Rightarrow> ustr \<Rightarrow> bool" where
  "clear_winner policy cs value \<longleftrightarrow> (\<exists>c \<in> set cs. rc_normalized_value c = value
     \<and> effective_confidence c policy \<ge> pp_auto_select_min_confidence policy
     \<and> (\<forall>c' \<in> set cs. effective_confidence c' policy \<le> effective_confidence c policy)
     \<and> (\<forall>c' \<in> set cs. rc_normalized_value c' \<noteq> value \<longrightarrow>
          effective_confidence c' policy < pp_conflict_min_confidence policy
          \<and> effective_confidence c' policy + pp_ambiguity_margin policy \<le> effective_confidence c policy))"

lemma resolve_mention_winner:
  assumes "resolve_mention policy candidates entity = Inr v"
  shows "sv_mention_id v = dn_mention_id entity \<and>
    clear_winner policy (filter (\<lambda>c. rc_mention_id c = dn_mention_id entity) candidates) (sv_normalized_value v)"
proof -
  define cs where "cs = filter (\<lambda>c. rc_mention_id c = dn_mention_id entity) candidates"
  from assms obtain top n g rest where r: "rank_groups cs policy = (top, n, g) # rest"
    and sec: "\<not> (case rest of [] \<Rightarrow> False | (second_score, _) # _ \<Rightarrow> second_score \<ge> pp_conflict_min_confidence policy
        \<or> top - second_score < pp_ambiguity_margin policy)"
    and top: "top \<ge> pp_auto_select_min_confidence policy"
    and v: "sv_mention_id v = dn_mention_id entity" "sv_normalized_value v = n"
    by (auto simp: resolve_mention_def cs_def [symmetric] Let_def split: list.splits prod.splits if_splits)
  from r have "(top, n, g) \<in> set (rank_groups cs policy)" by simp
  then have g: "g = filter (\<lambda>c. rc_normalized_value c = n) cs" "g \<noteq> []" "top = group_score policy g"
    by (auto simp: in_ranked)
  from group_score_in [OF g(2)] obtain c where c: "c \<in> set g" "effective_confidence c policy = top" using g(3) by metis
  have other: "\<exists>s h. (s, rc_normalized_value c', h) \<in> set rest \<and> effective_confidence c' policy \<le> s"
    if c': "c' \<in> set cs" "rc_normalized_value c' \<noteq> n" for c'
  proof -
    define h where "h = filter (\<lambda>c. rc_normalized_value c = rc_normalized_value c') cs"
    have "c' \<in> set h" using c' by (simp add: h_def)
    then have "h \<noteq> []" by auto
    then have "(group_score policy h, rc_normalized_value c', h) \<in> set (rank_groups cs policy)"
      by (simp add: in_ranked h_def)
    with r c'(2) have "(group_score policy h, rc_normalized_value c', h) \<in> set rest" by auto
    with group_score_ge [OF \<open>c' \<in> set h\<close>] show ?thesis by blast
  qed
  have small: "effective_confidence c' policy < pp_conflict_min_confidence policy
      \<and> effective_confidence c' policy + pp_ambiguity_margin policy \<le> top"
    if c': "c' \<in> set cs" "rc_normalized_value c' \<noteq> n" for c'
  proof -
    from other [OF that] obtain s h where sh: "(s, rc_normalized_value c', h) \<in> set rest" "effective_confidence c' policy \<le> s"
      by blast
    then obtain s2 n2 g2 rest' where rest: "rest = (s2, n2, g2) # rest'" by (cases rest) auto
    with ranked_descending [OF r] sh(1) have "s \<le> s2" by fastforce
    with sec rest sh(2) show ?thesis by auto
  qed
  have le: "effective_confidence c' policy \<le> top" if c': "c' \<in> set cs" for c'
  proof (cases "rc_normalized_value c' = n")
    case True
    with c' g have "c' \<in> set g" by simp
    with g(3) group_score_ge show ?thesis by blast
  next
    case False
    from other [OF c' this] ranked_descending [OF r] show ?thesis by fastforce
  qed
  from c g have "c \<in> set cs" "rc_normalized_value c = n" by auto
  with c(2) top small le v show ?thesis
    unfolding clear_winner_def cs_def [symmetric] by blast
qed

lemma lefts_Nil: "lefts xs = [] \<Longrightarrow> \<exists>ys. xs = map Inr ys \<and> rights xs = ys"
proof (induction xs)
  case Nil
  then show ?case by (simp add: rights_def List.map_filter_def)
next
  case (Cons x xs)
  then show ?case by (cases x) (auto simp: lefts_def rights_def List.map_filter_simps)
qed

text \<open>C19. A decision that asks nobody has exactly one selected value for every mention, in order, and each is a
  clear winner among the candidates of its mention: backed by a candidate of the best weighted confidence,
  at least the floor for automatic choice, while every other value stays below the conflict floor and
  behind by the ambiguity margin.\<close>

theorem decide_selects_clear_winners:
  assumes "decide request candidates audit policy = Inr d" and "\<not> pd_needs_confirmation d"
  shows "list_all2 (\<lambda>entity v. sv_mention_id v = dn_mention_id entity \<and>
      clear_winner policy (filter (\<lambda>c. rc_mention_id c = dn_mention_id entity) candidates) (sv_normalized_value v))
    (pi_entities request) (pd_selected d)"
proof (cases "pi_entities request = []")
  case True
  with assms(1) show ?thesis by (auto simp: decide_def Let_def split: if_splits)
next
  case False
  define outcomes where "outcomes = map (resolve_mention policy candidates) (pi_entities request)"
  from assms False have "lefts outcomes = []" and sel: "pd_selected d = rights outcomes"
    by (auto simp: decide_def Let_def outcomes_def split: if_splits)
  from lefts_Nil [OF this(1)] obtain ys where ys: "outcomes = map Inr ys" "pd_selected d = ys" using sel by auto
  then have "list_all2 (\<lambda>entity v. resolve_mention policy candidates entity = Inr v) (pi_entities request) (pd_selected d)"
    by (auto simp: outcomes_def list_all2_conv_all_nth map_equality_iff dest: map_eq_imp_length_eq)
  then show ?thesis by (rule list_all2_mono) (rule resolve_mention_winner)
qed

section \<open>Runs of a write\<close>

fun phase_rank :: "write_phase \<Rightarrow> nat" where
  "phase_rank Write_PREFLIGHTED = 0"
| "phase_rank Write_AWAITING_CLARIFY = 1"
| "phase_rank Write_READY_TO_WRITE = 2"
| "phase_rank Write_IN_PROGRESS = 3"
| "phase_rank Write_SUCCEEDED = 4"
| "phase_rank Write_VERIFYING = 5"
| "phase_rank Write_FAILED = 6"
| "phase_rank Write_VERIFIED = 6"
| "phase_rank Write_VERIFICATION_FAILED = 6"
| "phase_rank Write_CANCELLED = 6"

lemma allowed_rank: "q \<in> set (allowed_phases p) \<Longrightarrow> phase_rank p < phase_rank q"
  by (cases p) auto

lemma transition_Inr:
  "transition st p r f v = Inr st' \<Longrightarrow> p \<in> set (allowed_phases (ws_phase st)) \<and> ws_phase st' = p
    \<and> ws_verification st' = v \<and> ws_failure_code st' = f
    \<and> (ws_resource_id st' = None \<longrightarrow> ws_resource_id st = None \<and> p \<noteq> Write_SUCCEEDED)
    \<and> (p = Write_VERIFIED \<longrightarrow> (\<exists>x. v = Some x \<and> vr_outcome x = Verify_MATCH))
    \<and> (p \<in> {Write_FAILED, Write_VERIFICATION_FAILED} \<longrightarrow> f \<noteq> None \<and> f \<noteq> Some [])"
  by (auto simp: transition_def split: if_splits option.splits)

lemma allowed_pred:
  "Write_VERIFIED \<in> set (allowed_phases p) \<Longrightarrow> p = Write_VERIFYING"
  "Write_VERIFICATION_FAILED \<in> set (allowed_phases p) \<Longrightarrow> p = Write_VERIFYING"
  "Write_VERIFYING \<in> set (allowed_phases p) \<Longrightarrow> p = Write_SUCCEEDED"
  by (cases p; simp)+

definition phase_facts :: "external_write_state \<Rightarrow> bool" where
  "phase_facts st \<longleftrightarrow>
     (ws_phase st \<in> {Write_SUCCEEDED, Write_VERIFYING, Write_VERIFIED, Write_VERIFICATION_FAILED} \<longrightarrow> ws_resource_id st \<noteq> None)
   \<and> (ws_phase st = Write_VERIFIED \<longrightarrow> (\<exists>v. ws_verification st = Some v \<and> vr_outcome v = Verify_MATCH))
   \<and> (ws_phase st \<in> {Write_FAILED, Write_VERIFICATION_FAILED} \<longrightarrow> ws_failure_code st \<noteq> None \<and> ws_failure_code st \<noteq> Some [])"

lemma transition_facts:
  assumes tr: "transition st p r f v = Inr st'" and facts: "phase_facts st"
  shows "phase_facts st'"
proof -
  note t = transition_Inr [OF tr]
  have "ws_resource_id st' \<noteq> None" if "p \<in> {Write_SUCCEEDED, Write_VERIFYING, Write_VERIFIED, Write_VERIFICATION_FAILED}"
  proof
    assume none: "ws_resource_id st' = None"
    with t have "ws_resource_id st = None" "p \<noteq> Write_SUCCEEDED" "p \<in> set (allowed_phases (ws_phase st))" by blast+
    with that allowed_pred [of "ws_phase st"] have "ws_phase st \<in> {Write_SUCCEEDED, Write_VERIFYING}" by blast
    with facts \<open>ws_resource_id st = None\<close> show False unfolding phase_facts_def by blast
  qed
  with t show ?thesis unfolding phase_facts_def by metis
qed

text \<open>C37. An external write goes through its phases at most once each: after at most six phases it is at an
  end. In every reachable state a succeeded write has a resource id, a verified one an API record that
  matches, and a failed one a failure code.\<close>

theorem write_run_ends:
  assumes "write_run d ps st"
  shows "sorted_wrt (\<lambda>p q. phase_rank p < phase_rank q) ps \<and> length ps \<le> 6 \<and> last ps = ws_phase st \<and> phase_facts st"
proof -
  have "ps \<noteq> [] \<and> last ps = ws_phase st \<and> sorted_wrt (\<lambda>p q. phase_rank p < phase_rank q) ps \<and> phase_facts st
      \<and> (\<forall>p \<in> set ps. phase_rank p \<in> {1..6} \<and> phase_rank p \<le> phase_rank (ws_phase st))"
    using assms
  proof (induction rule: write_run.induct)
    case initial
    then show ?case by (simp add: initial_state_def phase_facts_def)
  next
    case (move ps st p r f v st')
    note t = transition_Inr [OF move.hyps(2)]
    from move.IH have last: "last ps = ws_phase st" and sorted: "sorted_wrt (\<lambda>p q. phase_rank p < phase_rank q) ps"
      and facts: "phase_facts st" and rng: "\<forall>q \<in> set ps. phase_rank q \<in> {1..6} \<and> phase_rank q \<le> phase_rank (ws_phase st)"
      by blast+
    from t allowed_rank have rk: "phase_rank (ws_phase st) < phase_rank p" by blast
    have p6: "phase_rank p \<le> 6" by (cases p) auto
    have less: "\<forall>q \<in> set ps. phase_rank q < phase_rank p" using rk rng by fastforce
    have f': "phase_facts st'" by (rule transition_facts [OF move.hyps(2) facts])
    from t have p: "ws_phase st' = p" by blast
    have "sorted_wrt (\<lambda>p q. phase_rank p < phase_rank q) (ps @ [p])" using sorted less by (simp add: sorted_wrt_append)
    moreover have "\<forall>q \<in> set (ps @ [p]). phase_rank q \<in> {1..6} \<and> phase_rank q \<le> phase_rank (ws_phase st')"
      using rng less rk p6 p by fastforce
    ultimately show ?case using f' p by simp
  qed
  moreover have "sorted_wrt (<) (map phase_rank ps)" "set (map phase_rank ps) \<subseteq> {1..6}"
    using calculation by (auto simp: sorted_wrt_map)
  then have "distinct (map phase_rank ps)" "set (map phase_rank ps) \<subseteq> {1..6}"
    by (simp_all only: strict_sorted_iff)
  then have "length ps \<le> 6"
    by (metis card_atLeastAtMost card_mono diff_Suc_1 distinct_card finite_atLeastAtMost length_map)
  ultimately show ?thesis by blast
qed

section \<open>Logs see no names\<close>

definition redact :: "preflight_decision \<Rightarrow> preflight_decision" where
  "redact d = d\<lparr>
     pd_request := (pd_request d)\<lparr>pi_request_id := [], pi_raw_text := [], pi_relationship_queries := [],
       pi_entities := map (\<lambda>e. e\<lparr>dn_mention_id := [], dn_surface := [], dn_start := 0, dn_end := 0\<rparr>) (pi_entities (pd_request d))\<rparr>,
     pd_candidates := map (\<lambda>c. c\<lparr>rc_candidate_id := [], rc_mention_id := [], rc_normalized_value := [], rc_display_value := [],
       rc_confidence := 0, rc_source_ref := [], rc_relationship_query_id := None\<rparr>) (pd_candidates d),
     pd_selected := map (\<lambda>_. \<lparr>sv_mention_id = [], sv_normalized_value = [], sv_display_value = [], sv_confidence = 0,
       sv_supporting_candidate_ids = []\<rparr>) (pd_selected d),
     pd_audit := (pd_audit d)\<lparr>am_requested_at := [], am_actor := [], am_purpose := [], am_sensitive_audit_ref := []\<rparr>\<rparr>"

text \<open>C38. The event of the general log is the same when every raw text, surface, query, candidate and selected
  value, confidence, source reference and actor of the decision is blanked, so it tells nothing of them
  beyond the hash of the input that the audit data carries.\<close>

theorem event_is_redacted:
  "operational_event (redact d) = operational_event d"
  by (simp add: operational_event_def redact_def comp_def count_sources_def foldl_map)

section \<open>Examples\<close>

definition demo_candidate :: "ustr \<Rightarrow> rat \<Rightarrow> resolution_candidate" where
  "demo_candidate v q = \<lparr>rc_candidate_id = v, rc_mention_id = lit ''m-1'', rc_source = Source_PERSONAL_RAG,
     rc_normalized_value = v, rc_display_value = v, rc_confidence = q, rc_source_ref = lit ''r'',
     rc_relationship_query_id = None\<rparr>"

definition demo_policy :: preflight_policy where
  "demo_policy = \<lparr>pp_version = lit ''v1'', pp_auto_select_min_confidence = 85/100, pp_conflict_min_confidence = 65/100,
     pp_ambiguity_margin = 15/100, pp_source_weights = map (\<lambda>s. (s, 1)) all_sources\<rparr>"

definition demo_request :: preflight_input where
  "demo_request = \<lparr>pi_request_id = lit ''r'', pi_raw_text = lit ''kim'', pi_target_system = lit ''t'', pi_operation = lit ''o'',
     pi_entities = [\<lparr>dn_mention_id = lit ''m-1'', dn_surface = lit ''kim'', dn_entity_kind = Entity_PERSON,
       dn_start = 0, dn_end = 3\<rparr>], pi_relationship_queries = []\<rparr>"

definition demo_audit :: audit_metadata where
  "demo_audit = \<lparr>am_correlation_id = lit ''c'', am_policy_version = lit ''v1'', am_requested_at = [], am_actor = [],
     am_purpose = [], am_input_sha256 = [], am_sensitive_audit_ref = []\<rparr>"

lemma demo_decide: "\<exists>d. decide demo_request [demo_candidate (lit ''a'') (9/10), demo_candidate (lit ''b'') (1/2)] demo_audit demo_policy
     = Inr d \<and> \<not> pd_needs_confirmation d \<and> map sv_normalized_value (pd_selected d) = [lit ''a'']"
  by (simp add: decide_def demo_request_def demo_candidate_def demo_audit_def demo_policy_def check_candidates_def
      resolve_mention_def rank_groups_def group_candidates_def group_score_def effective_confidence_def weight_of_def
      all_sources_def dict_set_def dict_get_def lefts_def rights_def List.map_filter_simps)

theorem decide_selects_clear_winners_witness:
  "clear_winner demo_policy [demo_candidate (lit ''a'') (9/10), demo_candidate (lit ''b'') (1/2)] (lit ''a'')"
proof -
  from demo_decide obtain d where d: "decide demo_request [demo_candidate (lit ''a'') (9/10), demo_candidate (lit ''b'') (1/2)]
      demo_audit demo_policy = Inr d" and n: "\<not> pd_needs_confirmation d" and v: "map sv_normalized_value (pd_selected d) = [lit ''a'']"
    by (elim exE conjE)
  from v obtain w where "pd_selected d = [w]" "sv_normalized_value w = lit ''a''" by auto
  with decide_selects_clear_winners [OF d n] show ?thesis by (simp add: demo_request_def demo_candidate_def)
qed

theorem write_run_ends_witness:
  "\<exists>d st. write_run d [Write_READY_TO_WRITE, Write_IN_PROGRESS, Write_SUCCEEDED] st \<and> phase_facts st
    \<and> ws_resource_id st = Some (lit ''7'')"
proof -
  obtain d :: preflight_decision where d: "\<not> pd_needs_confirmation d"
    by (rule exE [OF demo_decide]) (elim conjE)
  define s0 where "s0 = initial_state d"
  have p: "ws_phase s0 = Write_READY_TO_WRITE" using d by (simp add: s0_def initial_state_def)
  have 0: "write_run d [Write_READY_TO_WRITE] s0" using write_run.initial [of d] p by (simp add: s0_def)
  define s1 where "s1 = s0\<lparr>ws_phase := Write_IN_PROGRESS, ws_failure_code := None, ws_verification := None\<rparr>"
  have "transition s0 Write_IN_PROGRESS None None None = Inr s1" by (simp add: transition_def p s1_def)
  from write_run.move [OF 0 this] have 1: "write_run d [Write_READY_TO_WRITE, Write_IN_PROGRESS] s1" by simp
  define s2 where "s2 = s1\<lparr>ws_phase := Write_SUCCEEDED, ws_resource_id := Some (lit ''7'')\<rparr>"
  have "transition s1 Write_SUCCEEDED (Some (lit ''7'')) None None = Inr s2" by (simp add: transition_def s1_def s2_def)
  from write_run.move [OF 1 this] have 2: "write_run d [Write_READY_TO_WRITE, Write_IN_PROGRESS, Write_SUCCEEDED] s2" by simp
  have "ws_resource_id s2 = Some (lit ''7'')" by (simp add: s2_def)
  with write_run_ends [OF 2] 2 show ?thesis by blast
qed

end
