(* ===== verification/EntityGate.thy ===== *)
theory EntityGate
  imports EntityPolicy
begin

text \<open>
  \<open>automation/entity_preflight/gate.py\<close> with \<open>gate_audit.py\<close> and \<open>gate_quality.py\<close>: the guarded external
  write. It claims an idempotency key, resolves the names, records the decision, writes once and
  reads the result back. The connector, the candidate sources, the two audit logs and the policy file
  are arguments; what the connector and the logs answer may depend on everything they saw before.
\<close>

section \<open>Records of the private store and of the metrics\<close>

fun write_phase_value :: "write_phase \<Rightarrow> ustr" where
  "write_phase_value Write_PREFLIGHTED = lit ''preflighted''"
| "write_phase_value Write_AWAITING_CLARIFY = lit ''awaiting_clarify''"
| "write_phase_value Write_READY_TO_WRITE = lit ''ready_to_write''"
| "write_phase_value Write_IN_PROGRESS = lit ''write_in_progress''"
| "write_phase_value Write_SUCCEEDED = lit ''write_succeeded''"
| "write_phase_value Write_FAILED = lit ''write_failed''"
| "write_phase_value Write_VERIFYING = lit ''verifying''"
| "write_phase_value Write_VERIFIED = lit ''verified''"
| "write_phase_value Write_VERIFICATION_FAILED = lit ''verification_failed''"
| "write_phase_value Write_CANCELLED = lit ''cancelled''"

record gate_audit_input =
  gi_request :: preflight_input
  gi_payload :: "(ustr \<times> json) list"
  gi_correlation_id :: ustr
  gi_timestamp :: ustr

definition sensitive_audit_ref :: "ustr \<Rightarrow> ustr" where
  "sensitive_audit_ref correlation_id = lit ''private://entity-preflight/'' @ correlation_id"

definition fingerprint :: "(rat \<Rightarrow> ustr) \<Rightarrow> (ustr \<Rightarrow> ustr) \<Rightarrow> (ustr \<times> json) list \<Rightarrow> ustr" where
  "fingerprint fr sha payload = lit ''sha256:'' @ sha (canonical fr (JObj payload))"

definition candidate_json :: "resolution_candidate \<Rightarrow> json" where
  "candidate_json c = JObj
     [(lit ''candidate_id'', JStr (rc_candidate_id c)), (lit ''confidence'', JFloat (rc_confidence c)),
      (lit ''display_value'', JStr (rc_display_value c)), (lit ''normalized_value'', JStr (rc_normalized_value c)),
      (lit ''rationale'', JStr (source_kind_value (rc_source c))), (lit ''source_ref'', JStr (rc_source_ref c))]"

definition decision_record :: "gate_audit_input \<Rightarrow> preflight_decision \<Rightarrow> (ustr \<times> json) list \<Rightarrow> json" where
  "decision_record ai decision payload = JObj
     [(lit ''event'', JStr (lit ''entity_preflight_decision'')),
      (lit ''decision_id'', JStr (gi_correlation_id ai)),
      (lit ''raw_text'', JStr (pi_raw_text (gi_request ai))),
      (lit ''normalized_payload'', JObj payload),
      (lit ''decision_method'', JStr (decision_reason_value (pd_reason decision))),
      (lit ''chosen_candidates'', JArr (map (\<lambda>v. JObj [(lit ''mention_id'', JStr (sv_mention_id v)),
         (lit ''normalized_value'', JStr (sv_normalized_value v))]) (pd_selected decision))),
      (lit ''candidates'', JArr (map candidate_json (pd_candidates decision))),
      (lit ''timestamp'', JStr (gi_timestamp ai)),
      (lit ''target_system'', JStr (pi_target_system (gi_request ai))),
      (lit ''task_id'', JStr (pi_request_id (gi_request ai)))]"

definition failure_record :: "gate_audit_input \<Rightarrow> json" where
  "failure_record ai = JObj
     [(lit ''event'', JStr (lit ''entity_preflight_failure'')),
      (lit ''raw_text'', JStr (pi_raw_text (gi_request ai))),
      (lit ''task_id'', JStr (pi_request_id (gi_request ai))),
      (lit ''target_system'', JStr (pi_target_system (gi_request ai))),
      (lit ''timestamp'', JStr (gi_timestamp ai))]"

definition verification_json :: "gate_audit_input \<Rightarrow> write_phase \<Rightarrow> verification_record \<Rightarrow> json" where
  "verification_json ai phase v = JObj
     [(lit ''event'', JStr (lit ''entity_preflight_verification'')),
      (lit ''decision_id'', JStr (gi_correlation_id ai)),
      (lit ''task_id'', JStr (pi_request_id (gi_request ai))),
      (lit ''target_system'', JStr (pi_target_system (gi_request ai))),
      (lit ''timestamp'', JStr (gi_timestamp ai)),
      (lit ''phase'', JStr (write_phase_value phase)),
      (lit ''resource_id'', JStr (vr_resource_id v)),
      (lit ''outcome'', JStr (verification_outcome_value (vr_outcome v)))]"

datatype quality_decision = Q_AUTO_NORMALIZED | Q_CONFIRMATION_REQUESTED | Q_UNRESOLVED | Q_ERROR

fun quality_decision_value :: "quality_decision \<Rightarrow> ustr" where
  "quality_decision_value Q_AUTO_NORMALIZED = lit ''auto_normalized''"
| "quality_decision_value Q_CONFIRMATION_REQUESTED = lit ''confirmation_requested''"
| "quality_decision_value Q_UNRESOLVED = lit ''unresolved''"
| "quality_decision_value Q_ERROR = lit ''error''"

datatype confidence_bucket = Bucket_NONE | Bucket_LOW | Bucket_MEDIUM | Bucket_HIGH | Bucket_VERY_HIGH

fun bucket_value :: "confidence_bucket \<Rightarrow> ustr" where
  "bucket_value Bucket_NONE = lit ''none''"
| "bucket_value Bucket_LOW = lit ''low''"
| "bucket_value Bucket_MEDIUM = lit ''medium''"
| "bucket_value Bucket_HIGH = lit ''high''"
| "bucket_value Bucket_VERY_HIGH = lit ''very_high''"

record quality_observation =
  qo_latency_ms :: int
  qo_external_write_blocked :: bool
  qo_verification :: "verification_outcome option"

record quality_record =
  qr_decision_id :: ustr
  qr_sensitive_audit_ref :: ustr
  qr_channel :: ustr
  qr_surface :: ustr
  qr_decision :: quality_decision
  qr_reason :: ustr
  qr_confidence_bucket :: confidence_bucket
  qr_source_kinds :: "ustr list"
  qr_entity_count :: int
  qr_latency_ms :: int
  qr_external_write_blocked :: bool
  qr_verification :: "verification_outcome option"
  qr_policy_version :: ustr

definition quality_to_event :: "quality_record \<Rightarrow> json" where
  "quality_to_event r = JObj
     [(lit ''event'', JStr (lit ''entity_preflight_quality'')),
      (lit ''decision_id'', JStr (qr_decision_id r)),
      (lit ''sensitive_audit_ref'', JStr (qr_sensitive_audit_ref r)),
      (lit ''channel'', JStr (qr_channel r)),
      (lit ''surface'', JStr (qr_surface r)),
      (lit ''decision'', JStr (quality_decision_value (qr_decision r))),
      (lit ''reason'', JStr (qr_reason r)),
      (lit ''confidence_bucket'', JStr (bucket_value (qr_confidence_bucket r))),
      (lit ''source_kinds'', JArr (map JStr (qr_source_kinds r))),
      (lit ''entity_count'', JInt (qr_entity_count r)),
      (lit ''latency_ms'', JInt (qr_latency_ms r)),
      (lit ''external_write_blocked'', JBool (qr_external_write_blocked r)),
      (lit ''verification'', (case qr_verification r of None \<Rightarrow> JNull | Some v \<Rightarrow> JStr (verification_outcome_value v))),
      (lit ''policy_version'', JStr (qr_policy_version r))]"

definition quality_decision_of :: "preflight_decision \<Rightarrow> quality_decision option" where
  "quality_decision_of d = (case pd_decision d of
      Decide_AUTO_SELECTED \<Rightarrow> Some Q_AUTO_NORMALIZED
    | Decide_CONFIRMATION_REQUIRED \<Rightarrow> Some (if pd_reason d = Why_NO_CANDIDATE then Q_UNRESOLVED else Q_CONFIRMATION_REQUESTED)
    | Decide_NOT_DETECTED \<Rightarrow> None)"

definition bucket_of :: "rat option \<Rightarrow> confidence_bucket" where
  "bucket_of confidence = (case confidence of
      None \<Rightarrow> Bucket_NONE
    | Some q \<Rightarrow> if q < 1/2 then Bucket_LOW else if q < 7/10 then Bucket_MEDIUM
        else if q < 85/100 then Bucket_HIGH else Bucket_VERY_HIGH)"

definition quality_of :: "preflight_decision \<Rightarrow> quality_observation \<Rightarrow> quality_record option" where
  "quality_of d ob = (case quality_decision_of d of
      None \<Rightarrow> None
    | Some kind \<Rightarrow> Some
       \<lparr>qr_decision_id = am_correlation_id (pd_audit d),
        qr_sensitive_audit_ref = am_sensitive_audit_ref (pd_audit d),
        qr_channel = pi_target_system (pd_request d), qr_surface = pi_operation (pd_request d),
        qr_decision = kind, qr_reason = decision_reason_value (pd_reason d),
        qr_confidence_bucket = bucket_of (if pd_selected d = [] then None else Some (Min (sv_confidence ` set (pd_selected d)))),
        qr_source_kinds = sort (remdups (map (\<lambda>c. source_kind_value (rc_source c)) (pd_candidates d))),
        qr_entity_count = int (length (pi_entities (pd_request d))),
        qr_latency_ms = qo_latency_ms ob, qr_external_write_blocked = qo_external_write_blocked ob,
        qr_verification = qo_verification ob, qr_policy_version = am_policy_version (pd_audit d)\<rparr>)"

definition error_quality :: "gate_audit_input \<Rightarrow> quality_observation \<Rightarrow> quality_record" where
  "error_quality ai ob =
     \<lparr>qr_decision_id = gi_correlation_id ai, qr_sensitive_audit_ref = sensitive_audit_ref (gi_correlation_id ai),
      qr_channel = pi_target_system (gi_request ai), qr_surface = pi_operation (gi_request ai),
      qr_decision = Q_ERROR, qr_reason = lit ''resolver_unavailable'', qr_confidence_bucket = Bucket_NONE,
      qr_source_kinds = [], qr_entity_count = int (length (pi_entities (gi_request ai))),
      qr_latency_ms = qo_latency_ms ob, qr_external_write_blocked = qo_external_write_blocked ob,
      qr_verification = qo_verification ob, qr_policy_version = lit ''unknown''\<rparr>"

text \<open>\<open>QualityDecision(s)\<close> and the like: the member with the value, or a \<open>ValueError\<close>.\<close>

definition member_of :: "('a \<Rightarrow> ustr) \<Rightarrow> 'a list \<Rightarrow> ustr \<Rightarrow> exn + 'a" where
  "member_of value members s = (case find (\<lambda>m. value m = s) members of Some m \<Rightarrow> Inr m | None \<Rightarrow> Inl ValueError)"

definition event_string :: "(ustr \<times> json) list \<Rightarrow> string \<Rightarrow> ustr" where
  "event_string event k = (case jget event k of Some (JStr s) \<Rightarrow> s | _ \<Rightarrow> [])"

definition event_integer :: "(ustr \<times> json) list \<Rightarrow> string \<Rightarrow> int" where
  "event_integer event k = (case jget event k of Some (JInt i) \<Rightarrow> i | _ \<Rightarrow> 0)"

definition decode_quality_event :: "(json \<Rightarrow> ustr) \<Rightarrow> (ustr \<times> json) list \<Rightarrow> exn + quality_record option" where
  "decode_quality_event str event =
     (if jget event ''event'' \<noteq> Some (JStr (lit ''entity_preflight_quality'')) then Inr None
      else
        bindE (member_of quality_decision_value [Q_AUTO_NORMALIZED, Q_CONFIRMATION_REQUESTED, Q_UNRESOLVED, Q_ERROR]
            (event_string event ''decision'')) (\<lambda>decision.
        bindE (member_of bucket_value [Bucket_NONE, Bucket_LOW, Bucket_MEDIUM, Bucket_HIGH, Bucket_VERY_HIGH]
            (event_string event ''confidence_bucket'')) (\<lambda>bucket.
        bindE (case jget event ''verification'' of
            None \<Rightarrow> Inr None
          | Some JNull \<Rightarrow> Inr None
          | Some v \<Rightarrow> bindE (member_of verification_outcome_value
              [Verify_MATCH, Verify_MISMATCH, Verify_NOT_FOUND, Verify_ERROR] (str v)) (\<lambda>o'. Inr (Some o'))) (\<lambda>outcome.
          Inr (Some \<lparr>qr_decision_id = event_string event ''decision_id'',
            qr_sensitive_audit_ref = event_string event ''sensitive_audit_ref'',
            qr_channel = event_string event ''channel'', qr_surface = event_string event ''surface'',
            qr_decision = decision, qr_reason = event_string event ''reason'', qr_confidence_bucket = bucket,
            qr_source_kinds = (case jget event ''source_kinds'' of Some (JArr vs) \<Rightarrow> map str vs | _ \<Rightarrow> []),
            qr_entity_count = event_integer event ''entity_count'', qr_latency_ms = event_integer event ''latency_ms'',
            qr_external_write_blocked = (jget event ''external_write_blocked'' = Some (JBool True)),
            qr_verification = outcome, qr_policy_version = event_string event ''policy_version''\<rparr>)))))"

section \<open>The guard\<close>

type_synonym candidate_source = "preflight_input \<Rightarrow> relationship_query option \<Rightarrow> exn + resolution_candidate list"

record guard_request =
  gr_request :: preflight_input
  gr_payload :: "(ustr \<times> json) list"
  gr_sources :: "candidate_source list"
  gr_idempotency_key :: ustr
  gr_actor :: ustr
  gr_purpose :: ustr
  gr_requested_at :: ustr

record guarded_result =
  gd_decision :: preflight_decision
  gd_payload :: "(ustr \<times> json) list"
  gd_receipt :: write_receipt
  gd_verification :: verification_record
  gd_state :: external_write_state
  gd_replayed :: bool

datatype stored_result =
    Stored_write guarded_result
  | Clarification_recorded
  | Failure_recorded ustr
  | In_progress

datatype gate_error =
    Clarification_required ustr bool
  | Preflight_unavailable ustr
  | Verification_failed verification_outcome
  | Raised exn

text \<open>What was asked of the connector, with the key of the request it was asked for.\<close>

datatype connector_call =
    Call_write ustr "(ustr \<times> json) list"
  | Call_requery ustr write_receipt ustr

record gate_world =
  gw_store :: "(ustr, stored_result) dict"
  gw_private :: "json list"
  gw_operational :: "json list"
  gw_calls :: "connector_call list"

record gate_env =
  ge_policy_file :: file_read
  ge_parse_float :: "ustr \<Rightarrow> rat option"
  ge_str :: "json \<Rightarrow> ustr"
  ge_casefold :: "ustr \<Rightarrow> ustr"
  ge_fmt2 :: "rat \<Rightarrow> ustr"
  ge_float_repr :: "rat \<Rightarrow> ustr"
  ge_sha256 :: "ustr \<Rightarrow> ustr"
  ge_elapsed_ms :: int
  ge_has_logger :: bool
  ge_append_fails :: "json list \<Rightarrow> json \<Rightarrow> exn option"
  ge_emit_fails :: "json list \<Rightarrow> json \<Rightarrow> exn option"
  ge_write :: "connector_call list \<Rightarrow> (ustr \<times> json) list \<Rightarrow> exn + write_receipt"
  ge_requery :: "connector_call list \<Rightarrow> write_receipt \<Rightarrow> ustr \<Rightarrow> exn + verification_record"

type_synonym 'a gate_eff = "(gate_world, gate_error, 'a) eff"

definition raised :: "exn + 'a \<Rightarrow> 'a gate_eff" where
  "raised r = (case r of Inl e \<Rightarrow> raise_exn (Raised e) | Inr x \<Rightarrow> ret x)"

definition append_private :: "gate_env \<Rightarrow> json \<Rightarrow> unit gate_eff" where
  "append_private ge event = (\<lambda>w. case ge_append_fails ge (gw_private w) event of
      Some e \<Rightarrow> (Inl (Raised e), w)
    | None \<Rightarrow> (Inr (), w\<lparr>gw_private := gw_private w @ [event]\<rparr>))"

definition emit_operational :: "gate_env \<Rightarrow> json \<Rightarrow> unit gate_eff" where
  "emit_operational ge event = (\<lambda>w.
     if \<not> ge_has_logger ge then (Inr (), w)
     else case ge_emit_fails ge (gw_operational w) event of
       Some e \<Rightarrow> (Inl (Raised e), w)
     | None \<Rightarrow> (Inr (), w\<lparr>gw_operational := gw_operational w @ [event]\<rparr>))"

definition emit_quality :: "gate_env \<Rightarrow> quality_record option \<Rightarrow> unit gate_eff" where
  "emit_quality ge r = (case r of None \<Rightarrow> ret () | Some q \<Rightarrow> emit_operational ge (quality_to_event q))"

definition store_result :: "ustr \<Rightarrow> stored_result \<Rightarrow> unit gate_eff" where
  "store_result key result = (\<lambda>w. (Inr (), w\<lparr>gw_store := dict_set (gw_store w) key result\<rparr>))"

definition connector_write :: "gate_env \<Rightarrow> ustr \<Rightarrow> (ustr \<times> json) list \<Rightarrow> write_receipt gate_eff" where
  "connector_write ge key payload = (\<lambda>w.
     let r = ge_write ge (gw_calls w) payload; w' = w\<lparr>gw_calls := gw_calls w @ [Call_write key payload]\<rparr> in
     (case r of Inl e \<Rightarrow> Inl (Raised e) | Inr x \<Rightarrow> Inr x, w'))"

definition connector_requery :: "gate_env \<Rightarrow> ustr \<Rightarrow> write_receipt \<Rightarrow> ustr \<Rightarrow> verification_record gate_eff" where
  "connector_requery ge key receipt fp = (\<lambda>w.
     let r = ge_requery ge (gw_calls w) receipt fp; w' = w\<lparr>gw_calls := gw_calls w @ [Call_requery key receipt fp]\<rparr> in
     (case r of Inl e \<Rightarrow> Inl (Raised e) | Inr x \<Rightarrow> Inr x, w'))"

definition audit_metadata_of :: "gate_env \<Rightarrow> guard_request \<Rightarrow> ustr \<Rightarrow> audit_metadata" where
  "audit_metadata_of ge gr policy_version =
     \<lparr>am_correlation_id = gr_idempotency_key gr, am_policy_version = policy_version,
      am_requested_at = gr_requested_at gr, am_actor = gr_actor gr, am_purpose = gr_purpose gr,
      am_input_sha256 = lit ''sha256:'' @ ge_sha256 ge (pi_raw_text (gr_request gr)),
      am_sensitive_audit_ref = sensitive_audit_ref (gr_idempotency_key gr)\<rparr>"

definition audit_input_of :: "guard_request \<Rightarrow> gate_audit_input" where
  "audit_input_of gr = \<lparr>gi_request = gr_request gr, gi_payload = gr_payload gr,
     gi_correlation_id = gr_idempotency_key gr, gi_timestamp = gr_requested_at gr\<rparr>"

definition resolve_with_sources ::
    "gate_env \<Rightarrow> candidate_source list \<Rightarrow> preflight_policy \<Rightarrow> preflight_input \<Rightarrow> audit_metadata \<Rightarrow> exn + preflight_decision" where
  "resolve_with_sources ge sources policy request audit =
     bindE (rewrite_relationship_queries (ge_casefold ge) request) (\<lambda>rewritten.
       let queries = (if rewritten = [] then [None] else map Some rewritten) in
       bindE (mapE (\<lambda>(source, query). source request query) (List.product sources queries)) (\<lambda>found.
         decide request (concat found) audit policy))"

definition resolve_guarded :: "gate_env \<Rightarrow> guard_request \<Rightarrow> exn + preflight_decision" where
  "resolve_guarded ge gr =
     (if pi_entities (gr_request gr) = [] then
        Inr \<lparr>pd_request = gr_request gr, pd_candidates = [], pd_selected = [], pd_decision = Decide_NOT_DETECTED,
          pd_reason = Why_NO_ENTITY, pd_needs_confirmation = False,
          pd_audit = audit_metadata_of ge gr (lit ''not_applicable'')\<rparr>
      else bindE (load_policy (ge_parse_float ge) (ge_str ge) (ge_policy_file ge)) (\<lambda>policy.
        resolve_with_sources ge (gr_sources gr) policy (gr_request gr) (audit_metadata_of ge gr (pp_version policy))))"

definition replay :: "stored_result \<Rightarrow> guarded_result gate_eff" where
  "replay previous = (case previous of
      Stored_write result \<Rightarrow> ret (result\<lparr>gd_replayed := True\<rparr>)
    | Clarification_recorded \<Rightarrow> raise_exn (Clarification_required
        (lit ''ENTITY-CLARIFY '' @ [51060, 48120, 32, 54869, 51064, 51012, 32, 50836, 52397, 54664, 49845, 45768, 45796, 46]) False)
    | Failure_recorded code \<Rightarrow> raise_exn (Preflight_unavailable code)
    | In_progress \<Rightarrow> raise_exn (Preflight_unavailable (lit ''request_in_progress'')))"

definition resolver_failure :: "exn \<Rightarrow> bool" where
  "resolver_failure e \<longleftrightarrow> value_error e \<or> e \<in> {DataSourceFailure, TimeoutError}"

definition observe :: "gate_env \<Rightarrow> bool \<Rightarrow> verification_outcome option \<Rightarrow> quality_observation" where
  "observe ge blocked v = \<lparr>qo_latency_ms = ge_elapsed_ms ge, qo_external_write_blocked = blocked, qo_verification = v\<rparr>"

definition record_failure :: "gate_env \<Rightarrow> gate_audit_input \<Rightarrow> unit gate_eff" where
  "record_failure ge ai =
     bindM (append_private ge (failure_record ai)) (\<lambda>_.
       emit_quality ge (Some (error_quality ai (observe ge True None))))"

definition finish_unverified ::
    "gate_env \<Rightarrow> guard_request \<Rightarrow> preflight_decision \<Rightarrow> external_write_state \<Rightarrow> verification_record \<Rightarrow> guarded_result gate_eff" where
  "finish_unverified ge gr decision st v =
     bindM (raised (transition st Write_VERIFICATION_FAILED None
         (Some (lit ''verification_'' @ verification_outcome_value (vr_outcome v))) (Some v))) (\<lambda>st'.
     bindM (append_private ge (verification_json (audit_input_of gr) (ws_phase st') v)) (\<lambda>_.
     bindM (emit_quality ge (quality_of decision (observe ge False (Some (vr_outcome v))))) (\<lambda>_.
     bindM (store_result (gr_idempotency_key gr) (Failure_recorded (lit ''verification''))) (\<lambda>_.
       raise_exn (Verification_failed (vr_outcome v))))))"

definition finish_verified ::
    "gate_env \<Rightarrow> guard_request \<Rightarrow> preflight_decision \<Rightarrow> (ustr \<times> json) list \<Rightarrow> write_receipt \<Rightarrow> external_write_state
      \<Rightarrow> verification_record \<Rightarrow> guarded_result gate_eff" where
  "finish_verified ge gr decision payload receipt st v =
     bindM (raised (transition st Write_VERIFIED None None (Some v))) (\<lambda>st'.
       let result = \<lparr>gd_decision = decision, gd_payload = payload, gd_receipt = receipt, gd_verification = v,
             gd_state = st', gd_replayed = False\<rparr> in
       bindM (append_private ge (verification_json (audit_input_of gr) (ws_phase st') v)) (\<lambda>_.
       bindM (emit_quality ge (quality_of decision (observe ge False (Some (vr_outcome v))))) (\<lambda>_.
       bindM (store_result (gr_idempotency_key gr) (Stored_write result)) (\<lambda>_. ret result))))"

definition write_and_verify ::
    "gate_env \<Rightarrow> guard_request \<Rightarrow> preflight_decision \<Rightarrow> (ustr \<times> json) list \<Rightarrow> guarded_result gate_eff" where
  "write_and_verify ge gr decision payload =
     bindM (raised (transition (initial_state decision) Write_IN_PROGRESS None None None)) (\<lambda>s1.
     bindM (connector_write ge (gr_idempotency_key gr) payload) (\<lambda>receipt.
     bindM (raised (transition s1 Write_SUCCEEDED (Some (wr_resource_id receipt)) None None)) (\<lambda>s2.
     bindM (raised (transition s2 Write_VERIFYING None None None)) (\<lambda>s3.
     bindM (connector_requery ge (gr_idempotency_key gr) receipt
         (fingerprint (ge_float_repr ge) (ge_sha256 ge) payload)) (\<lambda>v.
       if vr_outcome v \<noteq> Verify_MATCH then finish_unverified ge gr decision s3 v
       else finish_verified ge gr decision payload receipt s3 v)))))"

definition ask_owner :: "gate_env \<Rightarrow> guard_request \<Rightarrow> preflight_decision \<Rightarrow> guarded_result gate_eff" where
  "ask_owner ge gr decision =
     bindM (emit_quality ge (quality_of decision (observe ge True None))) (\<lambda>_.
     bindM (store_result (gr_idempotency_key gr) Clarification_recorded) (\<lambda>_.
     bindM (raised (render_clarify (ge_fmt2 ge) decision)) (\<lambda>txt.
       raise_exn (Clarification_required txt True))))"

definition guard_claimed :: "gate_env \<Rightarrow> guard_request \<Rightarrow> guarded_result gate_eff" where
  "guard_claimed ge gr =
     (case resolve_guarded ge gr of
        Inl e \<Rightarrow>
          if resolver_failure e then
            bindM (record_failure ge (audit_input_of gr)) (\<lambda>_.
            bindM (store_result (gr_idempotency_key gr) (Failure_recorded (lit ''resolver_unavailable''))) (\<lambda>_.
              raise_exn (Preflight_unavailable (lit ''resolver_unavailable''))))
          else raise_exn (Raised e)
      | Inr decision \<Rightarrow>
          let payload = normalized_payload (gr_payload gr) decision in
          bindM (append_private ge (decision_record (audit_input_of gr) decision payload)) (\<lambda>_.
          bindM (emit_operational ge (operational_event decision)) (\<lambda>_.
            if pd_needs_confirmation decision then ask_owner ge gr decision
            else write_and_verify ge gr decision payload)))"

definition guarded_write :: "gate_env \<Rightarrow> guard_request \<Rightarrow> guarded_result gate_eff" where
  "guarded_write ge gr = (\<lambda>w. case dict_get (gw_store w) (gr_idempotency_key gr) of
      Some previous \<Rightarrow> replay previous w
    | None \<Rightarrow> guard_claimed ge gr (w\<lparr>gw_store := dict_set (gw_store w) (gr_idempotency_key gr) In_progress\<rparr>))"

section \<open>Effects of the steps\<close>

text \<open>A step that asks nothing of the connector and forgets no key; its own errors are passed-on exceptions.\<close>

definition keeps_keys :: "gate_world \<Rightarrow> gate_world \<Rightarrow> bool" where
  "keeps_keys w w' \<longleftrightarrow> (\<forall>k. dict_get (gw_store w) k \<noteq> None \<longrightarrow> dict_get (gw_store w') k \<noteq> None)"

definition quiet :: "gate_world \<Rightarrow> gate_world \<Rightarrow> bool" where
  "quiet w w' \<longleftrightarrow> gw_calls w' = gw_calls w \<and> gw_store w' = gw_store w"

lemma keeps_keys_refl [simp]: "keeps_keys w w"
  by (simp add: keeps_keys_def)

lemma keeps_keys_trans: "keeps_keys a b \<Longrightarrow> keeps_keys b c \<Longrightarrow> keeps_keys a c"
  by (auto simp: keeps_keys_def)

lemma quiet_refl [simp]: "quiet w w"
  by (simp add: quiet_def)

lemma wp_raised [simp]: "wp (raised r) Q E w \<longleftrightarrow> (case r of Inl e \<Rightarrow> E (Raised e) w | Inr x \<Rightarrow> Q x w)"
  by (simp add: raised_def split: sum.splits)

lemma wp_append_private:
  "(\<And>w'. quiet w w' \<Longrightarrow> Q () w') \<Longrightarrow> (\<And>e. E (Raised e) w) \<Longrightarrow> wp (append_private ge ev) Q E w"
  by (simp add: append_private_def wp_def quiet_def split: option.splits)

lemma wp_emit_operational:
  "(\<And>w'. quiet w w' \<Longrightarrow> Q () w') \<Longrightarrow> (\<And>e. E (Raised e) w) \<Longrightarrow> wp (emit_operational ge ev) Q E w"
  by (simp add: emit_operational_def wp_def quiet_def split: option.splits)

lemma wp_emit_quality:
  "(\<And>w'. quiet w w' \<Longrightarrow> Q () w') \<Longrightarrow> (\<And>e. E (Raised e) w) \<Longrightarrow> wp (emit_quality ge q) Q E w"
  by (auto simp: emit_quality_def intro: wp_emit_operational split: option.splits)

lemma wp_store_result [simp]:
  "wp (store_result k r) Q E w \<longleftrightarrow> Q () (w\<lparr>gw_store := dict_set (gw_store w) k r\<rparr>)"
  by (simp add: store_result_def wp_def)

lemma wp_connector_write:
  "wp (connector_write ge k p) Q E w \<longleftrightarrow>
     (case ge_write ge (gw_calls w) p of
        Inl e \<Rightarrow> E (Raised e) (w\<lparr>gw_calls := gw_calls w @ [Call_write k p]\<rparr>)
      | Inr x \<Rightarrow> Q x (w\<lparr>gw_calls := gw_calls w @ [Call_write k p]\<rparr>))"
  by (simp add: connector_write_def wp_def Let_def split: sum.splits)

lemma wp_connector_requery:
  "wp (connector_requery ge k rc fp) Q E w \<longleftrightarrow>
     (case ge_requery ge (gw_calls w) rc fp of
        Inl e \<Rightarrow> E (Raised e) (w\<lparr>gw_calls := gw_calls w @ [Call_requery k rc fp]\<rparr>)
      | Inr x \<Rightarrow> Q x (w\<lparr>gw_calls := gw_calls w @ [Call_requery k rc fp]\<rparr>))"
  by (simp add: connector_requery_def wp_def Let_def split: sum.splits)

lemmas gate_wp = wp_append_private wp_emit_operational wp_emit_quality

lemma finish_unverified_wp:
  assumes "\<And>e w'. keeps_keys w w' \<Longrightarrow> gw_calls w' = gw_calls w \<Longrightarrow> (\<forall>t b. e \<noteq> Clarification_required t b) \<Longrightarrow>
      (\<forall>c. e \<noteq> Preflight_unavailable c) \<Longrightarrow> E e w'"
  shows "wp (finish_unverified ge gr d st v) Q E w"
  unfolding finish_unverified_def
  by (simp split: sum.splits) (intro conjI allI impI gate_wp assms; simp add: quiet_def keeps_keys_def assms)

definition verified_result ::
    "guard_request \<Rightarrow> preflight_decision \<Rightarrow> (ustr \<times> json) list \<Rightarrow> write_receipt \<Rightarrow> verification_record \<Rightarrow> guarded_result \<Rightarrow> bool" where
  "verified_result gr d payload receipt v g \<longleftrightarrow> gd_decision g = d \<and> gd_payload g = payload \<and> gd_receipt g = receipt
     \<and> gd_verification g = v \<and> \<not> gd_replayed g \<and> ws_phase (gd_state g) = Write_VERIFIED \<and> ws_verification (gd_state g) = Some v"

lemma finish_verified_wp:
  assumes "\<And>e w'. keeps_keys w w' \<Longrightarrow> gw_calls w' = gw_calls w \<Longrightarrow> (\<forall>t b. e \<noteq> Clarification_required t b) \<Longrightarrow>
      (\<forall>c. e \<noteq> Preflight_unavailable c) \<Longrightarrow> E e w'"
    and "\<And>g w'. gw_store w' = dict_set (gw_store w) (gr_idempotency_key gr) (Stored_write g) \<Longrightarrow> gw_calls w' = gw_calls w \<Longrightarrow>
      verified_result gr d payload receipt v g \<Longrightarrow> Q g w'"
  shows "wp (finish_verified ge gr d payload receipt st v) Q E w"
  unfolding finish_verified_def Let_def
  by (simp split: sum.splits)
    (intro conjI allI impI gate_wp assms; auto simp: quiet_def keeps_keys_def assms verified_result_def dest: transition_Inr)

text \<open>What a guarded write asked of the connector: nothing, or one write and then at most one read.\<close>

definition asked :: "ustr \<Rightarrow> gate_world \<Rightarrow> gate_world \<Rightarrow> bool" where
  "asked key w w' \<longleftrightarrow> gw_calls w' = gw_calls w \<or>
     (\<exists>p rest. gw_calls w' = gw_calls w @ Call_write key p # rest \<and> (rest = [] \<or> (\<exists>rc fp. rest = [Call_requery key rc fp])))"

definition quiet_error :: "gate_error \<Rightarrow> bool" where
  "quiet_error e \<longleftrightarrow> (\<exists>t b. e = Clarification_required t b) \<or> (\<exists>c. e = Preflight_unavailable c)"

definition failed_run :: "ustr \<Rightarrow> gate_world \<Rightarrow> gate_error \<Rightarrow> gate_world \<Rightarrow> bool" where
  "failed_run key w e w' \<longleftrightarrow> keeps_keys w w' \<and> asked key w w' \<and> (quiet_error e \<longrightarrow> gw_calls w' = gw_calls w)"

definition written_run :: "gate_env \<Rightarrow> guard_request \<Rightarrow> preflight_decision \<Rightarrow> gate_world \<Rightarrow> guarded_result \<Rightarrow> gate_world \<Rightarrow> bool" where
  "written_run ge gr d w g w' \<longleftrightarrow> (\<exists>receipt v. let payload = normalized_payload (gr_payload gr) d in
     vr_outcome v = Verify_MATCH \<and> verified_result gr d payload receipt v g
     \<and> gw_calls w' = gw_calls w @ [Call_write (gr_idempotency_key gr) payload,
         Call_requery (gr_idempotency_key gr) receipt (fingerprint (ge_float_repr ge) (ge_sha256 ge) payload)]
     \<and> gw_store w' = dict_set (gw_store w) (gr_idempotency_key gr) (Stored_write g))"

lemma asked_refl [simp]: "asked k w w"
  by (simp add: asked_def)

lemma failed_raised: "keeps_keys w w' \<Longrightarrow> asked k w w' \<Longrightarrow> failed_run k w (Raised e) w'"
  by (simp add: failed_run_def quiet_error_def)

lemma write_and_verify_wp:
  assumes E: "\<And>e w'. failed_run (gr_idempotency_key gr) w e w' \<Longrightarrow> E e w'"
    and Q: "\<And>g w'. written_run ge gr d w g w' \<Longrightarrow> Q g w'"
  shows "wp (write_and_verify ge gr d (normalized_payload (gr_payload gr) d)) Q E w"
proof -
  let ?key = "gr_idempotency_key gr" and ?p = "normalized_payload (gr_payload gr) d"
  let ?fp = "fingerprint (ge_float_repr ge) (ge_sha256 ge) ?p"
  define w1 where "w1 = w\<lparr>gw_calls := gw_calls w @ [Call_write ?key ?p]\<rparr>"
  have c1: "gw_calls w1 = gw_calls w @ [Call_write ?key ?p]" "gw_store w1 = gw_store w" by (simp_all add: w1_def)
  have err: "E (Raised e) w'" if "gw_calls w' = gw_calls w \<or> gw_calls w' = gw_calls w1
      \<or> (\<exists>rc fp. gw_calls w' = gw_calls w1 @ [Call_requery ?key rc fp])" "gw_store w' = gw_store w" for e w'
    using that by (intro E failed_raised) (auto simp: keeps_keys_def asked_def c1)
  have fin: "wp (if vr_outcome v \<noteq> Verify_MATCH then finish_unverified ge gr d s3 v
        else finish_verified ge gr d ?p receipt s3 v) Q E w2"
    if w2: "w2 = w1\<lparr>gw_calls := gw_calls w1 @ [Call_requery ?key receipt ?fp]\<rparr>" for w2 v s3 receipt
  proof (cases "vr_outcome v = Verify_MATCH")
    case True
    have "wp (finish_verified ge gr d ?p receipt s3 v) Q E w2"
    proof (rule finish_verified_wp)
      show "E e w'" if "keeps_keys w2 w'" "gw_calls w' = gw_calls w2" "\<forall>t b. e \<noteq> Clarification_required t b"
        "\<forall>c. e \<noteq> Preflight_unavailable c" for e w'
        using that by (intro E) (auto simp: failed_run_def quiet_error_def asked_def w2 c1 keeps_keys_def)
      show "Q g w'" if "gw_store w' = dict_set (gw_store w2) ?key (Stored_write g)" "gw_calls w' = gw_calls w2"
        "verified_result gr d ?p receipt v g" for g w'
        using that True by (intro Q) (auto simp: written_run_def Let_def w2 c1)
    qed
    with True show ?thesis by simp
  next
    case False
    have "wp (finish_unverified ge gr d s3 v) Q E w2"
      by (rule finish_unverified_wp, rule E) (auto simp: failed_run_def quiet_error_def asked_def w2 c1 keeps_keys_def)
    with False show ?thesis by simp
  qed
  show ?thesis
    unfolding write_and_verify_def
    by (auto simp: wp_connector_write wp_connector_requery w1_def [symmetric] c1(2) intro!: err fin
        split: sum.splits split del: if_split)
qed

lemma ask_owner_wp:
  assumes E: "\<And>e w'. failed_run (gr_idempotency_key gr) w e w' \<Longrightarrow> E e w'"
  shows "wp (ask_owner ge gr d) Q E w"
  unfolding ask_owner_def
  by (simp, rule wp_emit_quality)
    (auto intro!: E simp: failed_run_def quiet_def asked_def keeps_keys_def quiet_error_def split: sum.splits)

lemma guard_claimed_wp:
  assumes E: "\<And>e w'. failed_run (gr_idempotency_key gr) w e w' \<Longrightarrow> E e w'"
    and Q: "\<And>g d w'. resolve_guarded ge gr = Inr d \<Longrightarrow> \<not> pd_needs_confirmation d \<Longrightarrow> written_run ge gr d w g w' \<Longrightarrow> Q g w'"
  shows "wp (guard_claimed ge gr) Q E w"
proof (cases "resolve_guarded ge gr")
  case (Inl e)
  then show ?thesis
    by (auto simp: guard_claimed_def record_failure_def intro!: gate_wp E)
      (auto simp: failed_run_def quiet_def asked_def keeps_keys_def quiet_error_def)
next
  case (Inr d)
  let ?p = "normalized_payload (gr_payload gr) d"
  have E': "E e w'" if "quiet w w0" "failed_run (gr_idempotency_key gr) w0 e w'" for e w0 w'
    using that by (intro E) (simp add: failed_run_def quiet_def asked_def keeps_keys_def)
  have raised: "E (Raised e) w0" if "quiet w w0" for e w0
    using that by (intro E') (auto simp: failed_run_def quiet_error_def)
  have step: "wp (if pd_needs_confirmation d then ask_owner ge gr d else write_and_verify ge gr d ?p) Q E w0"
    if q: "quiet w w0" for w0
  proof (cases "pd_needs_confirmation d")
    case True
    have "wp (ask_owner ge gr d) Q E w0" by (rule ask_owner_wp) (rule E' [OF q])
    with True show ?thesis by simp
  next
    case False
    have "wp (write_and_verify ge gr d ?p) Q E w0"
    proof (rule write_and_verify_wp)
      show "E e w'" if "failed_run (gr_idempotency_key gr) w0 e w'" for e w' using E' [OF q that] .
      show "Q g w'" if "written_run ge gr d w0 g w'" for g w'
        using that q by (intro Q [OF Inr False]) (simp add: written_run_def quiet_def)
    qed
    with False show ?thesis by simp
  qed
  have "wp (append_private ge (decision_record (audit_input_of gr) d ?p))
      (\<lambda>_. wp (emit_operational ge (operational_event d))
        (\<lambda>_. wp (if pd_needs_confirmation d then ask_owner ge gr d else write_and_verify ge gr d ?p) Q E) E) E w"
  proof (rule wp_append_private)
    fix w0 assume q0: "quiet w w0"
    show "wp (emit_operational ge (operational_event d))
        (\<lambda>_. wp (if pd_needs_confirmation d then ask_owner ge gr d else write_and_verify ge gr d ?p) Q E) E w0"
    proof (rule wp_emit_operational)
      fix w1 assume "quiet w0 w1"
      with q0 have "quiet w w1" by (simp add: quiet_def)
      then show "wp (if pd_needs_confirmation d then ask_owner ge gr d else write_and_verify ge gr d ?p) Q E w1"
        by (rule step)
    qed (rule raised [OF q0])
  qed (rule raised [OF quiet_refl])
  with Inr show ?thesis by (simp add: guard_claimed_def Let_def split del: if_split)
qed

section \<open>Properties\<close>

text \<open>C18. A guarded write that returns a new result resolved every name without asking, wrote exactly the
  payload with the selected values, read it back with the fingerprint of that payload and found a match; it
  keeps the result, so that the same key gives the same result again and asks nothing of the connector.\<close>

theorem guarded_write_verified:
  assumes "guarded_write ge gr w = (Inr g, w')" and "dict_get (gw_store w) (gr_idempotency_key gr) = None"
  shows "\<exists>d. resolve_guarded ge gr = Inr d \<and> \<not> pd_needs_confirmation d
    \<and> gd_payload g = normalized_payload (gr_payload gr) d
    \<and> vr_outcome (gd_verification g) = Verify_MATCH \<and> ws_phase (gd_state g) = Write_VERIFIED
    \<and> gw_calls w' = gw_calls w @ [Call_write (gr_idempotency_key gr) (gd_payload g),
        Call_requery (gr_idempotency_key gr) (gd_receipt g) (fingerprint (ge_float_repr ge) (ge_sha256 ge) (gd_payload g))]
    \<and> guarded_write ge' gr w' = (Inr (g\<lparr>gd_replayed := True\<rparr>), w')"
proof -
  let ?w0 = "w\<lparr>gw_store := dict_set (gw_store w) (gr_idempotency_key gr) In_progress\<rparr>"
  from assms have r: "guard_claimed ge gr ?w0 = (Inr g, w')" by (simp add: guarded_write_def)
  have "wp (guard_claimed ge gr) (\<lambda>g w'. \<exists>d. resolve_guarded ge gr = Inr d \<and> \<not> pd_needs_confirmation d
      \<and> written_run ge gr d ?w0 g w') (\<lambda>_ _. True) ?w0"
    by (rule guard_claimed_wp) blast+
  from wp_D1 [OF this r] obtain d where "resolve_guarded ge gr = Inr d" "\<not> pd_needs_confirmation d"
    and wr: "written_run ge gr d ?w0 g w'" by blast
  moreover from wr have "guarded_write ge' gr w' = (Inr (g\<lparr>gd_replayed := True\<rparr>), w')"
    by (auto simp: written_run_def Let_def guarded_write_def replay_def ret_def)
  ultimately show ?thesis by (auto simp: written_run_def verified_result_def Let_def)
qed

text \<open>C21. When the guard asks the owner or is unavailable, nothing was asked of the connector.\<close>

theorem blocked_writes_nothing:
  assumes "guarded_write ge gr w = (Inl e, w')" and "quiet_error e"
  shows "gw_calls w' = gw_calls w"
proof (cases "dict_get (gw_store w) (gr_idempotency_key gr)")
  case (Some r)
  with assms(1) show ?thesis by (cases r) (auto simp: guarded_write_def replay_def ret_def raise_exn_def)
next
  case None
  let ?w0 = "w\<lparr>gw_store := dict_set (gw_store w) (gr_idempotency_key gr) In_progress\<rparr>"
  from assms None have r: "guard_claimed ge gr ?w0 = (Inl e, w')" by (simp add: guarded_write_def)
  have "wp (guard_claimed ge gr) (\<lambda>_ _. True) (failed_run (gr_idempotency_key gr) ?w0) ?w0"
    by (rule guard_claimed_wp) blast+
  from wp_D2 [OF this r] assms(2) show ?thesis by (simp add: failed_run_def)
qed

definition writes_for :: "ustr \<Rightarrow> gate_world \<Rightarrow> nat" where
  "writes_for key w = length (filter (\<lambda>c. case c of Call_write k p \<Rightarrow> k = key | _ \<Rightarrow> False) (gw_calls w))"

definition once_ok :: "gate_world \<Rightarrow> bool" where
  "once_ok w \<longleftrightarrow> (\<forall>k. writes_for k w \<le> 1 \<and> (writes_for k w > 0 \<longrightarrow> dict_get (gw_store w) k \<noteq> None))"

lemma guarded_write_once: "once_ok w \<Longrightarrow> once_ok (snd (guarded_write ge gr w))"
proof (cases "dict_get (gw_store w) (gr_idempotency_key gr)")
  case (Some r)
  then have "snd (guarded_write ge gr w) = w"
    by (cases r) (simp_all add: guarded_write_def replay_def ret_def raise_exn_def)
  then show "once_ok w \<Longrightarrow> ?thesis" by simp
next
  case None
  assume ok: "once_ok w"
  let ?key = "gr_idempotency_key gr"
  let ?w0 = "w\<lparr>gw_store := dict_set (gw_store w) ?key In_progress\<rparr>"
  have zero: "writes_for ?key w = 0" using ok None unfolding once_ok_def by (metis gr0I)
  have step: "once_ok w'" if k: "keeps_keys ?w0 w'" and a: "asked ?key ?w0 w'" for w'
  proof (unfold once_ok_def, intro allI)
    fix k
    have keep: "dict_get (gw_store w) k \<noteq> None \<or> k = ?key \<Longrightarrow> dict_get (gw_store w') k \<noteq> None"
      using k by (auto simp: keeps_keys_def)
    have "writes_for k w' = writes_for k w \<or> k = ?key \<and> writes_for k w' = Suc (writes_for k w)"
      using a by (auto simp: asked_def writes_for_def split: if_splits)
    with ok zero keep show "writes_for k w' \<le> 1 \<and> (writes_for k w' > 0 \<longrightarrow> dict_get (gw_store w') k \<noteq> None)"
      unfolding once_ok_def by (metis One_nat_def le_refl)
  qed
  have "wp (guard_claimed ge gr) (\<lambda>_. once_ok) (\<lambda>_. once_ok) ?w0"
  proof (rule guard_claimed_wp)
    show "once_ok w'" if "failed_run ?key ?w0 e w'" for e w' using that step by (simp add: failed_run_def)
    show "once_ok w'" if "written_run ge gr d ?w0 g w'" for g d w'
      using that by (intro step) (auto simp: written_run_def Let_def keeps_keys_def asked_def)
  qed
  with None show "once_ok (snd (guarded_write ge gr w))"
    by (auto simp: guarded_write_def wp_def split: prod.splits sum.splits)
qed

text \<open>C3. However often guarded writes are attempted, and whatever the connector, the sources and the logs do
  in between, the connector is asked to write at most once for each idempotency key.\<close>

theorem guarded_writes_at_most_once:
  "length (filter (\<lambda>c. case c of Call_write k p \<Rightarrow> k = key | _ \<Rightarrow> False)
     (gw_calls (foldl (\<lambda>w (ge, gr). snd (guarded_write ge gr w))
        \<lparr>gw_store = [], gw_private = [], gw_operational = [], gw_calls = []\<rparr> attempts))) \<le> 1"
proof -
  have "once_ok (foldl (\<lambda>w (ge, gr). snd (guarded_write ge gr w))
        \<lparr>gw_store = [], gw_private = [], gw_operational = [], gw_calls = []\<rparr> attempts)"
  proof (induction attempts rule: rev_induct)
    case Nil
    then show ?case by (simp add: once_ok_def writes_for_def)
  next
    case (snoc a attempts)
    then show ?case using guarded_write_once by (cases a) simp
  qed
  then show ?thesis by (simp add: once_ok_def writes_for_def)
qed

section \<open>A run\<close>

definition demo_policy_file :: json where
  "demo_policy_file = JObj
     [(lit ''version'', JStr (lit ''v1'')),
      (lit ''thresholds'', JObj [(lit ''auto_select_min_confidence'', JFloat (85/100)),
         (lit ''conflict_min_confidence'', JFloat (65/100)), (lit ''ambiguity_margin'', JFloat (15/100))]),
      (lit ''source_weights'', JObj (map (\<lambda>s. (source_kind_value s, JInt 1)) all_sources))]"

definition demo_str :: "json \<Rightarrow> ustr" where
  "demo_str v = (case v of JStr s \<Rightarrow> s | _ \<Rightarrow> [])"

lemma demo_load: "load_policy (\<lambda>_. None) demo_str (FileJson demo_policy_file) = Inr demo_policy"
proof -
  have w: "load_weights (\<lambda>_. None) (JObj (map (\<lambda>s. (source_kind_value s, JInt 1)) all_sources))
      = Inr (map (\<lambda>s. (s, 1)) all_sources)"
    by (simp add: load_weights_def all_sources_def source_kind_of_def dict_of_def dict_set_def)
  show ?thesis
    by (simp add: load_policy_def policy_of_json_def demo_policy_file_def subscript_def w make_policy_def demo_policy_def demo_str_def)
      (simp add: all_sources_def dict_keys_def in_unit_def)
qed

definition demo_gate :: gate_env where
  "demo_gate = \<lparr>ge_policy_file = FileJson demo_policy_file, ge_parse_float = \<lambda>_. None, ge_str = demo_str,
     ge_casefold = \<lambda>s. s, ge_fmt2 = \<lambda>_. [], ge_float_repr = \<lambda>_. [], ge_sha256 = \<lambda>s. s, ge_elapsed_ms = 1,
     ge_has_logger = True, ge_append_fails = \<lambda>_ _. None, ge_emit_fails = \<lambda>_ _. None,
     ge_write = \<lambda>_ _. Inr \<lparr>wr_external_system = lit ''t'', wr_resource_id = lit ''7'', wr_write_operation = lit ''o'', wr_completed_at = []\<rparr>,
     ge_requery = \<lambda>_ _ fp. Inr \<lparr>vr_external_system = lit ''t'', vr_resource_id = lit ''7'', vr_api_operation = [], vr_queried_at = [],
       vr_outcome = Verify_MATCH, vr_expected_fingerprint = fp, vr_observed_fingerprint = Some fp, vr_sensitive_evidence_ref = []\<rparr>\<rparr>"

definition demo_guard :: "rat \<Rightarrow> guard_request" where
  "demo_guard q = \<lparr>gr_request = demo_request, gr_payload = [(lit ''to'', JStr (lit ''kim''))],
     gr_sources = [\<lambda>_ _. Inr [demo_candidate (lit ''a'') q]], gr_idempotency_key = lit ''k'', gr_actor = [], gr_purpose = [],
     gr_requested_at = []\<rparr>"

definition empty_world :: gate_world where
  "empty_world = \<lparr>gw_store = [], gw_private = [], gw_operational = [], gw_calls = []\<rparr>"

lemma demo_resolve: "resolve_guarded demo_gate (demo_guard q) =
    decide demo_request [demo_candidate (lit ''a'') q] (audit_metadata_of demo_gate (demo_guard q) (lit ''v1'')) demo_policy"
  using demo_load
  by (simp add: resolve_guarded_def demo_gate_def demo_guard_def resolve_with_sources_def rewrite_relationship_queries_def
      demo_request_def demo_policy_def)

lemma demo_decided: "\<exists>d. decide demo_request [demo_candidate (lit ''a'') q] (audit_metadata_of demo_gate (demo_guard q) (lit ''v1'')) demo_policy
    = Inr d \<and> pd_needs_confirmation d = (q < 85/100) \<and> pd_decision d \<noteq> Decide_NOT_DETECTED"
  by (simp add: decide_def demo_request_def demo_candidate_def audit_metadata_of_def demo_policy_def check_candidates_def
      resolve_mention_def rank_groups_def group_candidates_def group_score_def effective_confidence_def weight_of_def
      all_sources_def dict_set_def dict_get_def lefts_def rights_def List.map_filter_simps)

lemma demo_write: "\<exists>g w'. guarded_write demo_gate (demo_guard (9/10)) empty_world = (Inr g, w')"
proof -
  from demo_decided [of "9/10"] obtain d where d: "resolve_guarded demo_gate (demo_guard (9/10)) = Inr d"
    "pd_needs_confirmation d = ((9/10::rat) < 85/100)" "pd_decision d \<noteq> Decide_NOT_DETECTED"
    unfolding demo_resolve by (elim exE conjE) blast
  then have "\<not> pd_needs_confirmation d" by simp
  with d(1,3) show ?thesis
    by (simp add: guarded_write_def guard_claimed_def empty_world_def Let_def bindM_app append_private_def
        emit_operational_def demo_gate_def write_and_verify_def initial_state_def transition_def raised_def ret_def
        connector_write_def connector_requery_def finish_verified_def emit_quality_def store_result_def split: option.splits)
qed

theorem guarded_write_verified_witness:
  "\<exists>g w'. guarded_write demo_gate (demo_guard (9/10)) empty_world = (Inr g, w')
     \<and> guarded_write demo_gate (demo_guard (9/10)) w' = (Inr (g\<lparr>gd_replayed := True\<rparr>), w')"
proof -
  from demo_write obtain g w' where g: "guarded_write demo_gate (demo_guard (9/10)) empty_world = (Inr g, w')"
    by (elim exE)
  have "dict_get (gw_store empty_world) (gr_idempotency_key (demo_guard (9/10))) = None" by (simp add: empty_world_def)
  from guarded_write_verified [OF g this, of demo_gate]
  have "guarded_write demo_gate (demo_guard (9/10)) w' = (Inr (g\<lparr>gd_replayed := True\<rparr>), w')" by (elim exE conjE)
  show ?thesis by (rule exI [of _ g], rule exI [of _ w'], rule conjI) fact+
qed

theorem blocked_writes_nothing_witness:
  "\<exists>e w'. guarded_write demo_gate (demo_guard (1/2)) empty_world = (Inl e, w') \<and> quiet_error e \<and> gw_calls w' = []"
proof -
  from demo_decided [of "1/2"] obtain d where d: "resolve_guarded demo_gate (demo_guard (1/2)) = Inr d"
    "pd_needs_confirmation d = ((1/2::rat) < 85/100)" unfolding demo_resolve by (elim exE conjE) blast
  then have n: "pd_needs_confirmation d" by simp
  have "\<exists>t w'. guarded_write demo_gate (demo_guard (1/2)) empty_world = (Inl (Clarification_required t True), w')"
    using d(1) n
    by (simp add: guarded_write_def guard_claimed_def empty_world_def Let_def bindM_app append_private_def
        emit_operational_def demo_gate_def ask_owner_def render_clarify_def raised_def ret_def raise_exn_def
        emit_quality_def store_result_def split: option.splits)
  then obtain t w' where e: "guarded_write demo_gate (demo_guard (1/2)) empty_world = (Inl (Clarification_required t True), w')"
    by blast
  have q: "quiet_error (Clarification_required t True)" unfolding quiet_error_def by blast
  from blocked_writes_nothing [OF e q] e q show ?thesis by (auto simp: empty_world_def)
qed

text \<open>A quality record survives its event: what the metrics read back from the log is what was written.\<close>

lemma quality_roundtrip:
  assumes "\<And>s. str (JStr s) = s"
  shows "\<exists>event. quality_to_event r = JObj event \<and> decode_quality_event str event = Inr (Some r)"
proof -
  have d: "member_of quality_decision_value [Q_AUTO_NORMALIZED, Q_CONFIRMATION_REQUESTED, Q_UNRESOLVED, Q_ERROR]
      (quality_decision_value x) = Inr x" for x by (cases x) (simp_all add: member_of_def)
  have b: "member_of bucket_value [Bucket_NONE, Bucket_LOW, Bucket_MEDIUM, Bucket_HIGH, Bucket_VERY_HIGH] (bucket_value x) = Inr x"
    for x by (cases x) (simp_all add: member_of_def)
  have v: "member_of verification_outcome_value [Verify_MATCH, Verify_MISMATCH, Verify_NOT_FOUND, Verify_ERROR]
      (verification_outcome_value x) = Inr x" for x by (cases x) (simp_all add: member_of_def)
  show ?thesis using assms
    by (cases "qr_verification r")
      (simp_all add: quality_to_event_def decode_quality_event_def event_string_def event_integer_def d b v comp_def)
qed

lemma quality_roundtrip_witness:
  "\<exists>event. quality_to_event (error_quality (audit_input_of (demo_guard 1)) (observe demo_gate True (Some Verify_ERROR))) = JObj event
    \<and> decode_quality_event demo_str event
        = Inr (Some (error_quality (audit_input_of (demo_guard 1)) (observe demo_gate True (Some Verify_ERROR))))"
  by (rule quality_roundtrip) (simp add: demo_str_def)

end
