(* ===== verification/MemoryFile.thy ===== *)
theory MemoryFile
  imports Lines "HOL-Library.Sublist"
begin

text \<open>
  \<open>automation/memory_curator\<close>: \<open>model.py\<close>, \<open>curator.py\<close>, \<open>reclaim.py\<close>, the digest of \<open>binding.py\<close> and
  \<open>deletion.py\<close>. The native memory of the agent is two capped Markdown files whose entries are separated
  by lines with a lone section sign. The curator parses them, removes duplicates without losing
  information, ranks entries by what removing them frees, and deletes one entry under the file's lock.
  SHA-256 and \<open>str.casefold\<close> are arguments.
\<close>

section \<open>Files\<close>

datatype memory_kind = Kind_memory | Kind_user

fun memory_kind_value :: "memory_kind \<Rightarrow> ustr" where
  "memory_kind_value Kind_memory = lit ''memory''"
| "memory_kind_value Kind_user = lit ''user''"

lemma memory_kind_value_inj [simp]: "memory_kind_value k = memory_kind_value k' \<longleftrightarrow> k = k'"
  by (cases k; cases k') auto

fun CAPS :: "memory_kind \<Rightarrow> nat" where
  "CAPS Kind_memory = 2200"
| "CAPS Kind_user = 1375"

text \<open>A \<open>MemoryEntry\<close> is its text.\<close>

record memory_file =
  mf_kind :: memory_kind
  mf_entries :: "ustr list"

definition SECTION_SIGN :: nat where "SECTION_SIGN = 167"

definition JOIN :: ustr where "JOIN = [10, SECTION_SIGN, 10]"

definition char_count :: "memory_file \<Rightarrow> nat" where
  "char_count f = length (join JOIN (mf_entries f))"

definition char_cap :: "memory_file \<Rightarrow> nat" where
  "char_cap f = CAPS (mf_kind f)"

definition fill_ratio :: "memory_file \<Rightarrow> rat" where
  "fill_ratio f = of_nat (char_count f) / of_nat (char_cap f)"

text \<open>\<open>_SECTION_LINE\<close>, that is \<open>^\s*\<section>\s*$\<close>: one section sign among white space.\<close>

definition section_line :: "ustr \<Rightarrow> bool" where
  "section_line l \<longleftrightarrow> filter (\<lambda>c. \<not> is_space c) l = [SECTION_SIGN]"

definition flush_entry :: "ustr list \<Rightarrow> ustr list" where
  "flush_entry buffer = (let body = strip (join [10] buffer) in if body = [] then [] else [body])"

fun parse_lines :: "ustr list \<Rightarrow> ustr list \<Rightarrow> ustr list" where
  "parse_lines buffer [] = flush_entry buffer"
| "parse_lines buffer (l # ls) =
     (if section_line l then flush_entry buffer @ parse_lines [] ls else parse_lines (buffer @ [l]) ls)"

definition parse_memory_file :: "memory_kind \<Rightarrow> ustr \<Rightarrow> memory_file" where
  "parse_memory_file kind source = \<lparr>mf_kind = kind, mf_entries = parse_lines [] (splitlines source)\<rparr>"

definition serialize_memory_file :: "memory_file \<Rightarrow> ustr" where
  "serialize_memory_file f = join JOIN (mf_entries f)"

section \<open>Curation\<close>

text \<open>\<open>NEAR_CAP_RATIO\<close> as a rational: the quotients that are compared with it have denominator 2200 or
  1375, and the division of the source is correctly rounded, so the comparison is the same.\<close>

definition NEAR_CAP_RATIO :: rat where "NEAR_CAP_RATIO = 85 / 100"

definition DURABLE_CUES :: "ustr list" where
  "DURABLE_CUES =
    [[50896, 52825],
     [44508, 52825],
     [49440, 54840],
     [44208, 51221],
     [48169, 52840],
     [51221, 52293],
     [54637, 49345],
     [51208, 45824],
     [50526, 51004, 47196],
     [51008, 54812],
     [48176, 47140],
     [54616, 44592, 47196],
     [54616, 45716, 32, 44163, 51012],
     [50864, 49440, 54620, 45796],
     [51648, 54693, 54620, 45796]]"

record curation_plan =
  cp_kind :: memory_kind
  cp_original_chars :: nat
  cp_compacted :: memory_file
  cp_compacted_chars :: nat
  cp_char_cap :: nat
  cp_promotion_candidates :: "ustr list"
  cp_near_cap :: bool

definition headroom_after :: "curation_plan \<Rightarrow> int" where
  "headroom_after p = int (cp_char_cap p) - int (cp_compacted_chars p)"

definition freed_chars :: "curation_plan \<Rightarrow> int" where
  "freed_chars p = int (cp_original_chars p) - int (cp_compacted_chars p)"

definition normalize_entry :: "(ustr \<Rightarrow> ustr) \<Rightarrow> ustr \<Rightarrow> ustr" where
  "normalize_entry casefold source = casefold (join [32] (split_ws source))"

definition is_durable :: "ustr \<Rightarrow> bool" where
  "is_durable source \<longleftrightarrow> list_ex (contains source) DURABLE_CUES"

text \<open>The loop of \<open>curate\<close> over \<open>memory_file.entries\<close>, with the set \<open>seen\<close>.\<close>

fun keep_unseen :: "(ustr \<Rightarrow> ustr) \<Rightarrow> ustr set \<Rightarrow> ustr list \<Rightarrow> ustr list" where
  "keep_unseen casefold seen [] = []"
| "keep_unseen casefold seen (e # es) =
     (let key = normalize_entry casefold e in
      if key \<in> seen then keep_unseen casefold seen es
      else e # keep_unseen casefold (insert key seen) es)"

definition curate :: "(ustr \<Rightarrow> ustr) \<Rightarrow> memory_file \<Rightarrow> curation_plan" where
  "curate casefold f =
     (let compacted = \<lparr>mf_kind = mf_kind f, mf_entries = keep_unseen casefold {} (mf_entries f)\<rparr> in
      \<lparr>cp_kind = mf_kind f, cp_original_chars = char_count f, cp_compacted = compacted,
       cp_compacted_chars = char_count compacted, cp_char_cap = char_cap f,
       cp_promotion_candidates = filter is_durable (mf_entries compacted),
       cp_near_cap = (fill_ratio compacted \<ge> NEAR_CAP_RATIO)\<rparr>)"

section \<open>Reclaim\<close>

text \<open>The preimage is the UTF-8 encoding of the fields with NUL bytes between them; the argument is
  SHA-256 of the encoding of its text, in hexadecimal.\<close>

definition entry_digest :: "(ustr \<Rightarrow> ustr) \<Rightarrow> memory_kind \<Rightarrow> ustr \<Rightarrow> ustr" where
  "entry_digest sha256 kind entry_text =
     sha256 (lit ''mc-entry-v1'' @ [0] @ memory_kind_value kind @ [0] @ entry_text)"

definition without :: "nat \<Rightarrow> 'a list \<Rightarrow> 'a list" where
  "without i xs = take i xs @ drop (Suc i) xs"

definition reclaimable_chars :: "memory_file \<Rightarrow> int \<Rightarrow> exn + int" where
  "reclaimable_chars f i =
     (if \<not> (0 \<le> i \<and> i < int (length (mf_entries f))) then Inl IndexError
      else Inr (int (char_count f) - int (char_count (f\<lparr>mf_entries := without (nat i) (mf_entries f)\<rparr>))))"

fun first_unclaimed :: "nat \<Rightarrow> ustr list \<Rightarrow> ustr \<Rightarrow> nat set \<Rightarrow> nat option" where
  "first_unclaimed i [] source claimed = None"
| "first_unclaimed i (e # es) source claimed =
     (if e = source \<and> i \<notin> claimed then Some i else first_unclaimed (Suc i) es source claimed)"

type_synonym ranked_entry = "memory_kind \<times> nat \<times> ustr"

type_synonym rank_key = "int \<times> ustr \<times> ustr"

fun decorate :: "(ustr \<Rightarrow> ustr) \<Rightarrow> memory_file \<Rightarrow> memory_kind \<Rightarrow> nat set \<Rightarrow> ustr list
    \<Rightarrow> exn + (rank_key \<times> ranked_entry) list" where
  "decorate sha256 f kind claimed [] = Inr []"
| "decorate sha256 f kind claimed (e # es) =
     (case first_unclaimed 0 (mf_entries f) e claimed of
        None \<Rightarrow> Inl ValueError
      | Some i \<Rightarrow>
          bindE (reclaimable_chars f (int i)) (\<lambda>chars.
          bindE (decorate sha256 f kind (insert i claimed) es) (\<lambda>rest.
            Inr (((- chars, memory_kind_value kind, entry_digest sha256 kind e), kind, i, e) # rest))))"

fun decorate_kinds :: "(ustr \<Rightarrow> ustr) \<Rightarrow> (memory_kind, memory_file) dict \<Rightarrow> (memory_kind, ustr list) dict
    \<Rightarrow> exn + (rank_key \<times> ranked_entry) list" where
  "decorate_kinds sha256 files [] = Inr []"
| "decorate_kinds sha256 files ((kind, es) # rest) =
     (case dict_get files kind of
        None \<Rightarrow> Inl KeyError
      | Some f \<Rightarrow>
          bindE (decorate sha256 f kind {} es) (\<lambda>now.
          bindE (decorate_kinds sha256 files rest) (\<lambda>later. Inr (now @ later))))"

definition order_by_reclaim :: "(ustr \<Rightarrow> ustr) \<Rightarrow> (memory_kind, ustr list) dict
    \<Rightarrow> (memory_kind, memory_file) dict \<Rightarrow> exn + ranked_entry list" where
  "order_by_reclaim sha256 candidates files =
     bindE (decorate_kinds sha256 files candidates) (\<lambda>decorated. Inr (map snd (sort_key fst decorated)))"

section \<open>Well-formed entries\<close>

text \<open>What parsing makes of an entry: it is not blank, has no white space at its ends, no line boundary
  but line feeds, and no line that would separate entries.\<close>

definition entry_ok :: "ustr \<Rightarrow> bool" where
  "entry_ok e \<longleftrightarrow> e \<noteq> [] \<and> strip e = e \<and> only_nl e \<and> list_all (\<lambda>l. \<not> section_line l) (nl_lines e)"

lemma section_line_dense: "section_line l \<longleftrightarrow> dense l = [SECTION_SIGN]"
  by (simp add: section_line_def dense_def)

lemma flush_entry_ok:
  assumes "list_all break_free buffer" and "list_all (\<lambda>l. \<not> section_line l) buffer"
  shows "list_all entry_ok (flush_entry buffer)"
proof (cases "buffer = [] \<or> strip (join [10] buffer) = []")
  case False
  let ?b = "strip (join [10] buffer)"
  have only: "only_nl (join [10] buffer)" using assms(1) by (rule only_nl_join)
  have "only_nl ?b" using only set_strip [of "join [10] buffer"] unfolding only_nl_def by blast
  moreover have "nl_lines (join [10] buffer) = buffer"
    using assms(1) False by (intro nl_lines_join) (auto simp: list_all_iff list_ex_iff line_break_def)
  then have "dense ` set (nl_lines ?b) \<subseteq> dense ` set buffer" using strip_lines [of "join [10] buffer"] by simp
  then have "list_all (\<lambda>l. \<not> section_line l) (nl_lines ?b)"
    using assms(2) unfolding section_line_dense list_all_iff by fastforce
  ultimately show ?thesis using False by (simp add: flush_entry_def Let_def entry_ok_def)
qed (auto simp: flush_entry_def strip_def lstrip_def rstrip_def)

lemma parse_lines_ok:
  "list_all break_free ls \<Longrightarrow> list_all break_free buffer \<Longrightarrow> list_all (\<lambda>l. \<not> section_line l) buffer \<Longrightarrow>
     list_all entry_ok (parse_lines buffer ls)"
proof (induction ls arbitrary: buffer)
  case Nil
  then show ?case by (simp add: flush_entry_ok)
next
  case (Cons l ls)
  then show ?case using flush_entry_ok [of buffer] by (cases "section_line l") simp_all
qed

lemma parse_ok: "list_all entry_ok (mf_entries (parse_memory_file kind source))"
  using parse_lines_ok [OF splitlines_break_free, of "[]" source] by (simp add: parse_memory_file_def)

section \<open>Serialization is undone by parsing\<close>

lemma section_sign_line: "section_line [SECTION_SIGN]" "break_free [SECTION_SIGN]"
  by (simp_all add: section_line_def SECTION_SIGN_def is_space_def line_break_def)

lemma parse_lines_append:
  "list_all (\<lambda>l. \<not> section_line l) ls \<Longrightarrow> parse_lines buffer (ls @ rest) = parse_lines (buffer @ ls) rest"
  by (induction ls arbitrary: buffer) simp_all

lemma flush_entry_lines: "entry_ok e \<Longrightarrow> flush_entry (nl_lines e) = [e]"
  by (simp add: flush_entry_def join_nl_lines entry_ok_def)

lemma entry_lines:
  assumes "entry_ok e"
  shows "list_all break_free (nl_lines e)" "last (nl_lines e) \<noteq> []" "list_all (\<lambda>l. \<not> section_line l) (nl_lines e)"
proof -
  from assms have e: "e \<noteq> []" "strip e = e" "only_nl e" by (simp_all add: entry_ok_def)
  then show "list_all break_free (nl_lines e)" using nl_lines_break_free by blast
  have "\<not> is_space (last e)" using strip_ends [of e] e by simp
  then have "last e \<noteq> 10" by (auto simp: is_space_def)
  then show "last (nl_lines e) \<noteq> []" using last_nl_lines e by blast
qed (use assms in \<open>simp add: entry_ok_def\<close>)

lemma parse_serialized: "list_all entry_ok es \<Longrightarrow> parse_lines [] (splitlines (join JOIN es)) = es"
proof (induction JOIN es rule: join.induct)
  case 1
  then show ?case by (simp add: splitlines_def flush_entry_def strip_def lstrip_def rstrip_def)
next
  case (2 e)
  then have e: "entry_ok e" by simp
  have "splitlines e = nl_lines e"
    using splitlines_join [OF entry_lines(1) [OF e] nl_lines_ne entry_lines(2) [OF e]] by (simp add: join_nl_lines)
  with e show ?case
    using parse_lines_append [OF entry_lines(3) [OF e], of "[]" "[]"] by (simp add: flush_entry_lines)
next
  case (3 e e' es)
  then have e: "entry_ok e" by simp
  have "join JOIN (e # e' # es) = join [10] (nl_lines e) @ 10 # [SECTION_SIGN] @ 10 # join JOIN (e' # es)"
    by (simp add: join_nl_lines JOIN_def)
  moreover have "splitlines (join [10] (nl_lines e) @ 10 # [SECTION_SIGN] @ 10 # R) = nl_lines e @ [SECTION_SIGN] # splitlines R" for R
    using splitlines_join_append [OF entry_lines(1) [OF e] nl_lines_ne]
      splitlines_Cons_line [OF section_sign_line(2)] by simp
  ultimately have "splitlines (join JOIN (e # e' # es)) = nl_lines e @ [SECTION_SIGN] # splitlines (join JOIN (e' # es))"
    by (simp only:)
  then show ?case
    using 3 parse_lines_append [OF entry_lines(3) [OF e], of "[]"] e
    by (simp add: section_sign_line(1) flush_entry_lines)
qed

lemma parse_serialize: "list_all entry_ok (mf_entries f) \<Longrightarrow> parse_memory_file (mf_kind f) (serialize_memory_file f) = f"
  by (simp add: parse_memory_file_def serialize_memory_file_def parse_serialized)

text \<open>Parsing a memory file gives well-formed entries, and writing what was parsed and parsing it
  again gives the same file: what the curator rewrites is what it has read.\<close>

lemma memory_file_stable:
  "list_all entry_ok (mf_entries (parse_memory_file kind source))
    \<and> parse_memory_file kind (serialize_memory_file (parse_memory_file kind source)) = parse_memory_file kind source"
  using parse_serialize [OF parse_ok, of kind source] parse_ok [of kind source] by (simp add: parse_memory_file_def)

section \<open>Compaction loses nothing\<close>

lemma keep_unseen_props:
  "subseq (keep_unseen cf seen es) es
    \<and> distinct (map (normalize_entry cf) (keep_unseen cf seen es))
    \<and> normalize_entry cf ` set (keep_unseen cf seen es) = normalize_entry cf ` set es - seen"
proof (induction cf seen es rule: keep_unseen.induct)
  case (2 cf seen e es)
  show ?case
  proof (cases "normalize_entry cf e \<in> seen")
    case True
    with 2 show ?thesis by (auto simp: Let_def)
  next
    case False
    with 2 show ?thesis by (auto simp: Let_def)
  qed
qed simp

lemma keep_unseen_id:
  "distinct (map (normalize_entry cf) es) \<Longrightarrow> normalize_entry cf ` set es \<inter> seen = {} \<Longrightarrow> keep_unseen cf seen es = es"
  by (induction es arbitrary: seen) (auto simp: Let_def)

lemma length_join_sep: "es \<noteq> [] \<Longrightarrow> length (join sep es) = sum_list (map length es) + length sep * (length es - 1)"
  by (induction sep es rule: join.induct) auto

lemma subseq_join_length: "subseq xs ys \<Longrightarrow> length (join sep xs) \<le> length (join sep ys)"
proof (cases "xs = []")
  case False
  assume sub: "subseq xs ys"
  then have ne: "ys \<noteq> []" using False by auto
  have "sum_list (map length xs) \<le> sum_list (map length ys)" using sub by (induction rule: list_emb.induct) auto
  moreover have "length xs - 1 \<le> length ys - 1" using sub by (simp add: list_emb_length diff_le_mono)
  ultimately show ?thesis using False ne by (simp add: length_join_sep add_mono mult_le_mono2)
qed simp

text \<open>Compaction loses no information and frees no more than duplicates: the kept entries are entries
  of the file in their order, one for every normalized text, no two alike; the file does not grow, and
  compacting it again changes nothing. What is proposed for promotion is kept.\<close>

lemma curate_lossless:
  "subseq (mf_entries (cp_compacted (curate cf f))) (mf_entries f)
    \<and> normalize_entry cf ` set (mf_entries (cp_compacted (curate cf f))) = normalize_entry cf ` set (mf_entries f)
    \<and> distinct (map (normalize_entry cf) (mf_entries (cp_compacted (curate cf f))))
    \<and> freed_chars (curate cf f) \<ge> 0
    \<and> cp_compacted (curate cf (cp_compacted (curate cf f))) = cp_compacted (curate cf f)
    \<and> set (cp_promotion_candidates (curate cf f)) \<subseteq> set (mf_entries (cp_compacted (curate cf f)))"
  using keep_unseen_props [of cf "{}" "mf_entries f"] keep_unseen_id [of cf "keep_unseen cf {} (mf_entries f)" "{}"]
    subseq_join_length [of "keep_unseen cf {} (mf_entries f)" "mf_entries f" JOIN]
  by (simp add: curate_def Let_def freed_chars_def char_count_def)

section \<open>What removing an entry frees\<close>

lemma sum_list_without: "i < length xs \<Longrightarrow> sum_list (map length xs) = length (xs ! i) + sum_list (map length (without i xs))"
proof -
  assume i: "i < length xs"
  have "sum_list (map length xs) = sum_list (map length (take i xs @ xs ! i # drop (Suc i) xs))"
    using id_take_nth_drop [OF i] by simp
  then show ?thesis by (simp add: without_def)
qed

lemma length_without: "i < length xs \<Longrightarrow> length (without i xs) = length xs - 1"
  by (simp add: without_def)

text \<open>Removing an entry frees its characters, and the separator when it was not the only one.\<close>

lemma reclaimable_entry:
  assumes "i < length (mf_entries f)"
  shows "reclaimable_chars f (int i) = Inr (int (length (mf_entries f ! i))
    + (if length (mf_entries f) = 1 then 0 else int (length JOIN)))"
proof (cases "length (mf_entries f) = 1")
  case True
  then obtain e where "mf_entries f = [e]" by (auto simp: length_Suc_conv)
  with assms show ?thesis by (simp add: reclaimable_chars_def char_count_def without_def)
next
  case False
  have ne: "mf_entries f \<noteq> []" using assms by auto
  have ne': "without i (mf_entries f) \<noteq> []"
    using assms False length_without [OF assms] by (metis One_nat_def Suc_pred diff_is_0_eq le_antisym less_Suc0 length_greater_0_conv list.size(3) ne not_le)
  have k: "length (mf_entries f) - 1 = Suc (length (without i (mf_entries f)) - 1)"
    using length_without [OF assms] assms False ne' by (cases "without i (mf_entries f)") auto
  show ?thesis
    using assms False k sum_list_without [OF assms]
    by (simp add: reclaimable_chars_def char_count_def length_join_sep [OF ne] length_join_sep [OF ne'])
qed

end
