(* ===== verification/RecordCodec.thy ===== *)
theory RecordCodec
  imports CanonicalJson
begin

text \<open>
  What the strict codecs of the state files share: an object whose entries are parsed one by one into a
  dictionary, and what sorting the keys on the way to the disk does to a record.
\<close>

lemma map_of_sort: "wf_dict kvs \<Longrightarrow> map_of (sort_key fst kvs) = map_of kvs"
  by (intro map_of_inject_set [THEN iffD2]) (simp_all add: wf_dict_def distinct_map)

lemma dict_get_sort: "wf_dict kvs \<Longrightarrow> dict_get (sort_key fst kvs) k = dict_get kvs k"
  by (simp add: dict_get_def map_of_sort)

lemma wf_dict_sort [simp]: "wf_dict (sort_key fst kvs) \<longleftrightarrow> wf_dict kvs"
  by (simp add: wf_dict_def distinct_map)

lemma jfield_sort: "wf_dict kvs \<Longrightarrow> jfield (sort_key fst kvs) k = jfield kvs k"
  by (simp add: jfield_def jget_def dict_get_sort)

lemma jfield_sorted: "wf_dict kvs \<Longrightarrow> jfield (sort_key fst (sort_keys_items kvs)) k = sort_keys (jfield kvs k)"
  using sorted_items_get [of kvs "lit k"] by (auto simp: jfield_def jget_def split: option.splits)

lemma key_set_sorted: "key_set (sort_key fst (sort_keys_items kvs)) = key_set kvs"
  by (simp add: sort_keys_items_map image_image case_prod_beta)

lemma insort_map: "insort_key f (g x) (map g xs) = map g (insort_key (\<lambda>y. f (g y)) x xs)"
  by (induction xs) auto

lemma sort_key_map: "sort_key f (map g xs) = map g (sort_key (\<lambda>y. f (g y)) xs)"
  by (induction xs) (simp_all add: insort_map)

lemma sort_keys_jopt [simp]: "sort_keys (jopt v) = jopt v"
  by (cases v) simp_all

section \<open>Objects of records\<close>

text \<open>The loop of a parser over \<open>payload.items()\<close>, with the parser of one entry as argument.\<close>

fun parse_items :: "(ustr \<Rightarrow> json \<Rightarrow> 'e + 'a) \<Rightarrow> (ustr, 'a) dict \<Rightarrow> (ustr \<times> json) list \<Rightarrow> 'e + (ustr, 'a) dict" where
  "parse_items entry acc [] = Inr acc"
| "parse_items entry acc ((key, raw) # rest) = bindE (entry key raw) (\<lambda>r. parse_items entry (dict_set acc key r) rest)"

definition object_of :: "('a \<Rightarrow> json) \<Rightarrow> (ustr, 'a) dict \<Rightarrow> json" where
  "object_of ser d = JObj (map (\<lambda>(k, r). (k, ser r)) d)"

lemma parse_items_append:
  "list_all (\<lambda>(k, r). entry k (ser r) = Inr r) rs \<Longrightarrow> wf_dict (acc @ rs) \<Longrightarrow>
     parse_items entry acc (map (\<lambda>(k, r). (k, ser r)) rs) = Inr (acc @ rs)"
proof (induction rs arbitrary: acc)
  case (Cons kr rs)
  obtain k r where kr: "kr = (k, r)" by (cases kr)
  with Cons.prems have "k \<notin> set (dict_keys acc)" by (auto simp: wf_dict_def dict_keys_def)
  then have "dict_set acc k r = acc @ [(k, r)]" by (rule dict_set_new)
  with Cons kr show ?case by simp
qed simp

lemma sort_object: "sort_keys (object_of ser d) = object_of (\<lambda>r. sort_keys (ser r)) (sort_key fst d)"
  by (simp add: object_of_def sort_keys_items_map sort_key_map comp_def case_prod_beta)

lemma parse_saved_items:
  assumes "list_all (\<lambda>(k, r). entry k (sort_keys (ser r)) = Inr r) d" and "wf_dict d"
    and "sort_keys (object_of ser d) = JObj kvs"
  shows "parse_items entry [] kvs = Inr (sort_key fst d)"
proof -
  have "kvs = map (\<lambda>(k, r). (k, sort_keys (ser r))) (sort_key fst d)"
    using assms(3) [unfolded sort_object, unfolded object_of_def] by simp
  then show ?thesis
    using assms(1,2) parse_items_append [of entry "\<lambda>r. sort_keys (ser r)" "sort_key fst d" "[]"]
    by (simp add: list_all_sort_key)
qed

lemma parse_items_wf:
  assumes "parse_items entry acc kvs = Inr d" and "wf_dict acc" and "list_all (\<lambda>(k, r). P k r) acc"
    and "\<And>k raw r. entry k raw = Inr r \<Longrightarrow> P k r"
  shows "wf_dict d \<and> list_all (\<lambda>(k, r). P k r) d"
  using assms(1-3)
proof (induction kvs arbitrary: acc)
  case (Cons kv kvs)
  obtain k raw where kv: "kv = (k, raw)" by (cases kv)
  with Cons.prems obtain r where r: "entry k raw = Inr r" "parse_items entry (dict_set acc k r) kvs = Inr d" by auto
  have "set (dict_set acc k r) \<subseteq> insert (k, r) (set acc)"
    unfolding dict_set_def by (induction acc) auto
  then have "list_all (\<lambda>(k, r). P k r) (dict_set acc k r)"
    using Cons.prems(3) assms(4) [OF r(1)] by (fastforce simp: list_all_iff)
  with Cons.IH [OF r(2)] Cons.prems(2) show ?case by simp
qed simp

end
