(* ===== verification/RelocationRecord.thy ===== *)
theory RelocationRecord
  imports MemoryFile RecordCodec
begin

text \<open>
  \<open>automation/memory_relocate/model.py\<close> and \<open>binding.py\<close>: the record of one memory entry on its way from
  the native memory to a note, the state file that holds the records, and the hash the owner approves.
  The codec refuses what it does not know: an object must have exactly the documented keys.
\<close>

section \<open>Records\<close>

datatype relocation_status =
    Reloc_proposed | Reloc_posted | Reloc_approved | Reloc_written | Reloc_ingested
  | Reloc_reconciled | Reloc_abandoned

fun relocation_status_value :: "relocation_status \<Rightarrow> ustr" where
  "relocation_status_value Reloc_proposed = lit ''proposed''"
| "relocation_status_value Reloc_posted = lit ''posted''"
| "relocation_status_value Reloc_approved = lit ''approved''"
| "relocation_status_value Reloc_written = lit ''written''"
| "relocation_status_value Reloc_ingested = lit ''ingested''"
| "relocation_status_value Reloc_reconciled = lit ''reconciled''"
| "relocation_status_value Reloc_abandoned = lit ''abandoned''"

record relocation =
  rr_version :: int
  rr_source_kind :: memory_kind
  rr_entry_sha256 :: ustr
  rr_note_relpath :: ustr
  rr_note_plan_sha256 :: ustr
  rr_reclaimable_chars :: int
  rr_action_hash :: ustr
  rr_status :: relocation_status
  rr_kind :: ustr
  rr_surface :: ustr
  rr_channel_id :: ustr
  rr_policy_version :: int
  rr_message_id :: "ustr option"
  rr_created_at :: ustr
  rr_approved_at :: "ustr option"
  rr_written_at :: "ustr option"
  rr_reconciled_at :: "ustr option"
  rr_remote_ref :: "ustr option"
  rr_note_content_sha256 :: "ustr option"
  rr_rag_source_key :: "ustr option"
  rr_rag_fingerprint :: "ustr option"
  rr_backup_path :: "ustr option"
  rr_last_block_reason :: "ustr option"

record relocation_state =
  rs_version :: int
  rs_relocations :: "(ustr, relocation) dict"

definition STATE_VERSION :: int where "STATE_VERSION = 1"

definition RECORD_KEYS :: "ustr list" where
  "RECORD_KEYS =
    [lit ''version'',
     lit ''source_kind'',
     lit ''entry_sha256'',
     lit ''note_relpath'',
     lit ''note_plan_sha256'',
     lit ''reclaimable_chars'',
     lit ''action_hash'',
     lit ''status'',
     lit ''kind'',
     lit ''surface'',
     lit ''channel_id'',
     lit ''policy_version'',
     lit ''message_id'',
     lit ''created_at'',
     lit ''approved_at'',
     lit ''written_at'',
     lit ''reconciled_at'',
     lit ''remote_ref'',
     lit ''note_content_sha256'',
     lit ''rag_source_key'',
     lit ''rag_fingerprint'',
     lit ''backup_path'',
     lit ''last_block_reason'']"

definition empty_state :: relocation_state where
  "empty_state = \<lparr>rs_version = STATE_VERSION, rs_relocations = []\<rparr>"

definition record_key :: "memory_kind \<Rightarrow> ustr \<Rightarrow> ustr" where
  "record_key source_kind entry_sha256 = memory_kind_value source_kind @ lit '':'' @ entry_sha256"

abbreviation key_of :: "relocation \<Rightarrow> ustr" where
  "key_of r \<equiv> record_key (rr_source_kind r) (rr_entry_sha256 r)"

section \<open>Parsing\<close>

definition string_field :: "json \<Rightarrow> exn + ustr" where
  "string_field v = (case v of JStr s \<Rightarrow> Inr s | _ \<Rightarrow> Inl RelocationError)"

definition string_or_none_field :: "json \<Rightarrow> exn + ustr option" where
  "string_or_none_field v = (case v of JNull \<Rightarrow> Inr None | JStr s \<Rightarrow> Inr (Some s) | _ \<Rightarrow> Inl RelocationError)"

definition integer_field :: "json \<Rightarrow> exn + int" where
  "integer_field v = (case v of JInt i \<Rightarrow> Inr i | _ \<Rightarrow> Inl RelocationError)"

definition require_version :: "json \<Rightarrow> exn + int" where
  "require_version v = bindE (integer_field v) (\<lambda>parsed.
     if parsed \<noteq> STATE_VERSION then Inl RelocationError else Inr parsed)"

definition memory_kind_field :: "json \<Rightarrow> exn + memory_kind" where
  "memory_kind_field v =
     (if v = JStr (lit ''memory'') then Inr Kind_memory
      else if v = JStr (lit ''user'') then Inr Kind_user
      else Inl RelocationError)"

definition relocation_status_field :: "json \<Rightarrow> exn + relocation_status" where
  "relocation_status_field v =
     (case find (\<lambda>s. v = JStr (relocation_status_value s))
        [Reloc_proposed, Reloc_posted, Reloc_approved, Reloc_written, Reloc_ingested, Reloc_reconciled, Reloc_abandoned] of
        Some s \<Rightarrow> Inr s
      | None \<Rightarrow> Inl RelocationError)"

definition parse_fields :: "(ustr \<times> json) list \<Rightarrow> exn + relocation" where
  "parse_fields kvs =
     bindE (require_version (jfield kvs ''version'')) (\<lambda>version.
     bindE (memory_kind_field (jfield kvs ''source_kind'')) (\<lambda>source_kind.
     bindE (string_field (jfield kvs ''entry_sha256'')) (\<lambda>entry_sha256.
     bindE (string_field (jfield kvs ''note_relpath'')) (\<lambda>note_relpath.
     bindE (string_field (jfield kvs ''note_plan_sha256'')) (\<lambda>note_plan_sha256.
     bindE (integer_field (jfield kvs ''reclaimable_chars'')) (\<lambda>reclaimable_chars.
     bindE (string_field (jfield kvs ''action_hash'')) (\<lambda>action_hash.
     bindE (relocation_status_field (jfield kvs ''status'')) (\<lambda>status.
     bindE (string_field (jfield kvs ''kind'')) (\<lambda>kind.
     bindE (string_field (jfield kvs ''surface'')) (\<lambda>surface.
     bindE (string_field (jfield kvs ''channel_id'')) (\<lambda>channel_id.
     bindE (integer_field (jfield kvs ''policy_version'')) (\<lambda>policy_version.
     bindE (string_or_none_field (jfield kvs ''message_id'')) (\<lambda>message_id.
     bindE (string_field (jfield kvs ''created_at'')) (\<lambda>created_at.
     bindE (string_or_none_field (jfield kvs ''approved_at'')) (\<lambda>approved_at.
     bindE (string_or_none_field (jfield kvs ''written_at'')) (\<lambda>written_at.
     bindE (string_or_none_field (jfield kvs ''reconciled_at'')) (\<lambda>reconciled_at.
     bindE (string_or_none_field (jfield kvs ''remote_ref'')) (\<lambda>remote_ref.
     bindE (string_or_none_field (jfield kvs ''note_content_sha256'')) (\<lambda>note_content_sha256.
     bindE (string_or_none_field (jfield kvs ''rag_source_key'')) (\<lambda>rag_source_key.
     bindE (string_or_none_field (jfield kvs ''rag_fingerprint'')) (\<lambda>rag_fingerprint.
     bindE (string_or_none_field (jfield kvs ''backup_path'')) (\<lambda>backup_path.
     bindE (string_or_none_field (jfield kvs ''last_block_reason'')) (\<lambda>last_block_reason.
     Inr
      \<lparr>rr_version = version,
       rr_source_kind = source_kind,
       rr_entry_sha256 = entry_sha256,
       rr_note_relpath = note_relpath,
       rr_note_plan_sha256 = note_plan_sha256,
       rr_reclaimable_chars = reclaimable_chars,
       rr_action_hash = action_hash,
       rr_status = status,
       rr_kind = kind,
       rr_surface = surface,
       rr_channel_id = channel_id,
       rr_policy_version = policy_version,
       rr_message_id = message_id,
       rr_created_at = created_at,
       rr_approved_at = approved_at,
       rr_written_at = written_at,
       rr_reconciled_at = reconciled_at,
       rr_remote_ref = remote_ref,
       rr_note_content_sha256 = note_content_sha256,
       rr_rag_source_key = rag_source_key,
       rr_rag_fingerprint = rag_fingerprint,
       rr_backup_path = backup_path,
       rr_last_block_reason = last_block_reason\<rparr>)))))))))))))))))))))))"

definition parse_record :: "json \<Rightarrow> exn + relocation" where
  "parse_record raw = (case raw of
      JObj kvs \<Rightarrow> if key_set kvs \<noteq> set RECORD_KEYS then Inl RelocationError else parse_fields kvs
    | _ \<Rightarrow> Inl RelocationError)"

definition parse_entry :: "ustr \<Rightarrow> json \<Rightarrow> exn + relocation" where
  "parse_entry key raw = bindE (parse_record raw) (\<lambda>r. if key \<noteq> key_of r then Inl RelocationError else Inr r)"

definition parse_state :: "json \<Rightarrow> exn + relocation_state" where
  "parse_state raw = (case raw of
      JObj kvs \<Rightarrow>
        if key_set kvs \<noteq> {lit ''version'', lit ''relocations''} then Inl RelocationError
        else bindE (require_version (jfield kvs ''version'')) (\<lambda>version.
          case jfield kvs ''relocations'' of
            JObj rs \<Rightarrow> bindE (parse_items parse_entry [] rs) (\<lambda>relocations.
              Inr \<lparr>rs_version = version, rs_relocations = relocations\<rparr>)
          | _ \<Rightarrow> Inl RelocationError)
    | _ \<Rightarrow> Inl RelocationError)"

section \<open>Serializing\<close>

definition record_fields :: "relocation \<Rightarrow> (ustr \<times> json) list" where
  "record_fields r =
     [(lit ''version'', JInt (rr_version r)),
      (lit ''source_kind'', JStr (memory_kind_value (rr_source_kind r))),
      (lit ''entry_sha256'', JStr (rr_entry_sha256 r)),
      (lit ''note_relpath'', JStr (rr_note_relpath r)),
      (lit ''note_plan_sha256'', JStr (rr_note_plan_sha256 r)),
      (lit ''reclaimable_chars'', JInt (rr_reclaimable_chars r)),
      (lit ''action_hash'', JStr (rr_action_hash r)),
      (lit ''status'', JStr (relocation_status_value (rr_status r))),
      (lit ''kind'', JStr (rr_kind r)),
      (lit ''surface'', JStr (rr_surface r)),
      (lit ''channel_id'', JStr (rr_channel_id r)),
      (lit ''policy_version'', JInt (rr_policy_version r)),
      (lit ''message_id'', jopt (rr_message_id r)),
      (lit ''created_at'', JStr (rr_created_at r)),
      (lit ''approved_at'', jopt (rr_approved_at r)),
      (lit ''written_at'', jopt (rr_written_at r)),
      (lit ''reconciled_at'', jopt (rr_reconciled_at r)),
      (lit ''remote_ref'', jopt (rr_remote_ref r)),
      (lit ''note_content_sha256'', jopt (rr_note_content_sha256 r)),
      (lit ''rag_source_key'', jopt (rr_rag_source_key r)),
      (lit ''rag_fingerprint'', jopt (rr_rag_fingerprint r)),
      (lit ''backup_path'', jopt (rr_backup_path r)),
      (lit ''last_block_reason'', jopt (rr_last_block_reason r))]"

definition serialize_record :: "relocation \<Rightarrow> json" where
  "serialize_record r = JObj (record_fields r)"

definition serialize_state :: "relocation_state \<Rightarrow> json" where
  "serialize_state s = JObj
     [(lit ''version'', JInt STATE_VERSION),
      (lit ''relocations'', object_of serialize_record (rs_relocations s))]"

text \<open>\<open>store.py\<close>: the state file. A save replaces the file atomically with the keys sorted, or fails
  before the file changes.\<close>

definition load_state :: "file_read \<Rightarrow> exn + relocation_state" where
  "load_state f = (case f of
      FileMissing \<Rightarrow> Inr empty_state
    | FileJson raw \<Rightarrow> parse_state raw
    | _ \<Rightarrow> Inl RelocationError)"

definition saved_state :: "relocation_state \<Rightarrow> file_read" where
  "saved_state s = FileJson (sort_keys (serialize_state s))"

section \<open>The hash the owner approves\<close>

record hash_fields =
  hf_source_kind :: ustr
  hf_entry_sha256 :: ustr
  hf_note_relpath :: ustr
  hf_note_plan_sha256 :: ustr

definition relocation_action_hash :: "(rat \<Rightarrow> ustr) \<Rightarrow> (ustr \<Rightarrow> ustr) \<Rightarrow> hash_fields \<Rightarrow> ustr" where
  "relocation_action_hash float_repr sha256 h =
     lit ''sha256:'' @ sha256 (canonical float_repr (JObj
       [(lit ''delete_intent'', JBool True),
        (lit ''destination_kind'', JStr (lit ''obsidian'')),
        (lit ''note_plan_sha256'', JStr (hf_note_plan_sha256 h)),
        (lit ''note_relpath'', JStr (hf_note_relpath h)),
        (lit ''source_entry_sha256'', JStr (hf_entry_sha256 h)),
        (lit ''source_kind'', JStr (hf_source_kind h)),
        (lit ''version'', JStr (lit ''mc-reloc-v1''))]))"

section \<open>The codec\<close>

named_theorems codec \<open>what the field parsers accept\<close>

lemma string_fields [codec]: "string_field (JStr s) = Inr s" "integer_field (JInt i) = Inr i"
  by (simp_all add: string_field_def integer_field_def)

lemma string_or_none_jopt [codec]: "string_or_none_field (jopt v) = Inr v"
  by (cases v) (simp_all add: string_or_none_field_def)

lemma require_version_ok [codec]: "require_version (JInt STATE_VERSION) = Inr STATE_VERSION"
  by (simp add: require_version_def integer_field_def)

lemma memory_kind_field_value [codec]: "memory_kind_field (JStr (memory_kind_value k)) = Inr k"
  by (cases k) (simp_all add: memory_kind_field_def)

lemma relocation_status_field_value [codec]: "relocation_status_field (JStr (relocation_status_value st)) = Inr st"
  by (cases st) (simp_all add: relocation_status_field_def)

text \<open>A record whose version is the current one survives its object, in any order of the keys.\<close>

lemma record_fields_keys: "map fst (record_fields r) = RECORD_KEYS"
  by (simp add: record_fields_def RECORD_KEYS_def)

lemma distinct_record_keys: "distinct RECORD_KEYS"
  by (simp add: RECORD_KEYS_def)

lemma parse_fields_record:
  assumes "\<And>k. dict_get kvs k = dict_get (record_fields r) k" and "rr_version r = STATE_VERSION"
  shows "parse_fields kvs = Inr r"
proof -
  have "jfield kvs k = jfield (record_fields r) k" for k
    using assms(1) by (simp add: jfield_def jget_def)
  then show ?thesis
    using assms(2) by (simp add: parse_fields_def record_fields_def codec)
qed

definition state_ok :: "relocation_state \<Rightarrow> bool" where
  "state_ok s \<longleftrightarrow> rs_version s = STATE_VERSION \<and> wf_dict (rs_relocations s)
     \<and> list_all (\<lambda>(k, r). k = key_of r \<and> rr_version r = STATE_VERSION) (rs_relocations s)"

definition in_key_order :: "relocation_state \<Rightarrow> relocation_state" where
  "in_key_order s = s\<lparr>rs_relocations := sort_key fst (rs_relocations s)\<rparr>"

lemma sort_record_fields: "sort_keys_items (record_fields r) = record_fields r"
  by (simp add: record_fields_def sort_keys_jopt)

lemma wf_record_fields: "wf_dict (record_fields r)"
  by (simp add: wf_dict_def record_fields_keys distinct_record_keys)

lemma parse_record_sorted:
  assumes "rr_version r = STATE_VERSION"
  shows "parse_record (sort_keys (serialize_record r)) = Inr r"
proof -
  have "key_set (sort_key fst (record_fields r)) = set RECORD_KEYS"
    by (simp add: record_fields_keys [of r, symmetric])
  with parse_fields_record [OF dict_get_sort [OF wf_record_fields] assms] show ?thesis
    by (simp add: parse_record_def serialize_record_def sort_record_fields)
qed

abbreviation entry_fits :: "ustr \<Rightarrow> relocation \<Rightarrow> bool" where
  "entry_fits k r \<equiv> k = key_of r \<and> rr_version r = STATE_VERSION"

lemma parse_entry_sorted: "entry_fits k r \<Longrightarrow> parse_entry k (sort_keys (serialize_record r)) = Inr r"
  by (simp add: parse_entry_def parse_record_sorted)

lemma parse_saved:
  assumes "state_ok s"
  shows "parse_state (sort_keys (serialize_state s)) = Inr (in_key_order s)"
proof -
  let ?o = "object_of serialize_record (rs_relocations s)"
  let ?kvs = "[(lit ''version'', JInt STATE_VERSION), (lit ''relocations'', ?o)]"
  let ?sorted = "sort_key fst (sort_keys_items ?kvs)"
  have wf: "wf_dict ?kvs" by (simp add: wf_dict_def)
  have keys: "key_set ?sorted = {lit ''version'', lit ''relocations''}" unfolding key_set_sorted by auto
  obtain rs where rs: "sort_keys ?o = JObj rs" by (simp add: object_of_def)
  have "list_all (\<lambda>(k, r). parse_entry k (sort_keys (serialize_record r)) = Inr r) (rs_relocations s)"
    using assms by (auto simp: state_ok_def list_all_iff intro: parse_entry_sorted)
  from parse_saved_items [OF this _ rs] assms
  have "parse_items parse_entry [] rs = Inr (sort_key fst (rs_relocations s))" by (simp add: state_ok_def)
  then have "parse_state (JObj ?sorted) = Inr \<lparr>rs_version = STATE_VERSION, rs_relocations = sort_key fst (rs_relocations s)\<rparr>"
    using keys jfield_sorted [OF wf, of "''version''"] jfield_sorted [OF wf, of "''relocations''"] rs
    by (simp add: parse_state_def require_version_ok del: set_sort set_map sort_keys.simps(2) sort_keys_items.simps)
  then show ?thesis using assms by (simp add: serialize_state_def state_ok_def in_key_order_def)
qed

lemma parse_record_version: "parse_record raw = Inr r \<Longrightarrow> rr_version r = STATE_VERSION"
  by (auto simp: parse_record_def parse_fields_def require_version_def split: json.splits if_splits)

lemma parse_entry_fits: "parse_entry k raw = Inr r \<Longrightarrow> entry_fits k r"
  by (auto simp: parse_entry_def dest: parse_record_version split: if_splits)

lemma load_state_ok: "load_state f = Inr s \<Longrightarrow> state_ok s"
proof -
  assume load: "load_state f = Inr s"
  show "state_ok s"
  proof (cases f)
    case FileMissing
    with load show ?thesis by (auto simp: load_state_def empty_state_def state_ok_def wf_dict_def)
  next
    case (FileJson raw)
    with load have p: "parse_state raw = Inr s" by (simp add: load_state_def)
    obtain kvs where raw: "raw = JObj kvs" using p by (cases raw) (simp_all add: parse_state_def)
    with p obtain v where v: "require_version (jfield kvs ''version'') = Inr v"
      and rest: "(case jfield kvs ''relocations'' of
            JObj rs \<Rightarrow> bindE (parse_items parse_entry [] rs) (\<lambda>relocations.
              Inr \<lparr>rs_version = v, rs_relocations = relocations\<rparr>)
          | _ \<Rightarrow> Inl RelocationError) = Inr s"
      unfolding parse_state_def json.case(7) by (auto split: if_splits)
    from rest obtain rs where "jfield kvs ''relocations'' = JObj rs" by (cases "jfield kvs ''relocations''") simp_all
    with rest obtain d where "parse_items parse_entry [] rs = Inr d" "s = \<lparr>rs_version = v, rs_relocations = d\<rparr>" by auto
    then show ?thesis
      using v parse_items_wf [of parse_entry "[]" rs d entry_fits] parse_entry_fits by (auto simp: state_ok_def require_version_def split: if_splits)
  qed (use load in \<open>auto simp: load_state_def\<close>)
qed

text \<open>C40. What loads from the state file is well formed, and a well-formed state survives a save and a load
  with its records in the order of their keys.\<close>

theorem relocation_state_roundtrip:
  "(load_state f = Inr s \<longrightarrow> state_ok s) \<and> (state_ok s \<longrightarrow> load_state (saved_state s) = Inr (in_key_order s))"
  using load_state_ok parse_saved by (simp add: load_state_def saved_state_def)

definition sample_record :: relocation where
  "sample_record = \<lparr>rr_version = 1, rr_source_kind = Kind_memory, rr_entry_sha256 = lit ''e'',
     rr_note_relpath = lit ''n.md'', rr_note_plan_sha256 = lit ''p'', rr_reclaimable_chars = 4,
     rr_action_hash = lit ''sha256:a'', rr_status = Reloc_proposed, rr_kind = lit ''obsidian-write'',
     rr_surface = lit ''owner-dm'', rr_channel_id = [], rr_policy_version = 1, rr_message_id = None,
     rr_created_at = lit ''t0'', rr_approved_at = None, rr_written_at = None, rr_reconciled_at = None,
     rr_remote_ref = None, rr_note_content_sha256 = None, rr_rag_source_key = Some (lit ''obsidian:n.md''),
     rr_rag_fingerprint = None, rr_backup_path = None, rr_last_block_reason = None\<rparr>"

definition sample_state :: relocation_state where
  "sample_state = \<lparr>rs_version = 1, rs_relocations = [(lit ''memory:e'', sample_record)]\<rparr>"

lemma sample_state_ok: "state_ok sample_state"
  by (simp add: state_ok_def sample_state_def sample_record_def STATE_VERSION_def wf_dict_def record_key_def
      lit_append [symmetric])

theorem relocation_state_roundtrip_witness: "load_state (saved_state sample_state) = Inr sample_state"
proof -
  have "in_key_order sample_state = sample_state" by (simp add: in_key_order_def sample_state_def)
  then show ?thesis using relocation_state_roundtrip [of FileMissing sample_state] sample_state_ok by simp
qed

end
