(* ===== verification/RagChunks.thy ===== *)
theory RagChunks
  imports Lines CanonicalJson
begin

text \<open>
  \<open>automation/rag_ingest/chunking.py\<close> and \<open>hashing.py\<close>: the frontmatter parser, the heading-aware chunker
  and the fingerprint of a document; and \<open>automation/memory_relocate/rag_verify.py\<close>, which asks the state
  file of the ingester whether a note has been indexed. SHA-256 of a text's encoding is an argument, and
  so is the value of a JSON text that begins with a quote (a string, or None when it does not parse).
\<close>

section \<open>Frontmatter\<close>

definition strip_chars :: "nat set \<Rightarrow> ustr \<Rightarrow> ustr" where
  "strip_chars cs s = rev (dropWhile (\<lambda>c. c \<in> cs) (rev (dropWhile (\<lambda>c. c \<in> cs) s)))"

fun split_char :: "nat \<Rightarrow> ustr \<Rightarrow> ustr list" where
  "split_char d [] = [[]]"
| "split_char d (c # cs) =
     (if c = d then [] # split_char d cs else (c # hd (split_char d cs)) # tl (split_char d cs))"

definition parse_scalar :: "(ustr \<Rightarrow> ustr option) \<Rightarrow> ustr \<Rightarrow> ustr" where
  "parse_scalar loads raw =
     (let s = strip raw in
      if starts_with s [34] \<and> ends_with s [34] \<and> length s \<ge> 2
      then (case loads s of None \<Rightarrow> strip_chars {34} s | Some loaded \<Rightarrow> loaded)
      else s)"

definition parse_list :: "(ustr \<Rightarrow> ustr option) \<Rightarrow> ustr \<Rightarrow> ustr list" where
  "parse_list loads raw =
     (let s = strip raw;
          inner = (if starts_with s [91] \<and> ends_with s [93] then butlast (tl s) else s) in
      filter (\<lambda>item. item \<noteq> []) (map (parse_scalar loads) (split_char 44 inner)))"

definition meta_line :: "(ustr \<Rightarrow> ustr option) \<Rightarrow> (ustr, ustr) dict \<Rightarrow> ustr \<Rightarrow> (ustr, ustr) dict" where
  "meta_line loads meta line =
     (if 58 \<notin> set line then meta
      else
        let key = strip (takeWhile (\<lambda>c. c \<noteq> 58) line);
            value = strip (tl (dropWhile (\<lambda>c. c \<noteq> 58) line)) in
        dict_set meta key
          (if starts_with value [91] then join [44] (parse_list loads value) else parse_scalar loads value))"

fun meta_loop :: "(ustr \<Rightarrow> ustr option) \<Rightarrow> (ustr, ustr) dict \<Rightarrow> ustr list \<Rightarrow> ((ustr, ustr) dict \<times> ustr) option" where
  "meta_loop loads meta [] = None"
| "meta_loop loads meta (line # lines) =
     (if strip line = lit ''---'' then Some (meta, strip_chars {10} (join [10] lines))
      else meta_loop loads (meta_line loads meta line) lines)"

definition parse_frontmatter :: "(ustr \<Rightarrow> ustr option) \<Rightarrow> ustr \<Rightarrow> (ustr, ustr) dict \<times> ustr" where
  "parse_frontmatter loads source =
     (case splitlines source of
        [] \<Rightarrow> ([], source)
      | first # lines \<Rightarrow>
          if strip first \<noteq> lit ''---'' then ([], source)
          else (case meta_loop loads [] lines of None \<Rightarrow> ([], source) | Some found \<Rightarrow> found))"

section \<open>Chunks\<close>

fun section_loop :: "ustr list \<Rightarrow> ustr list \<Rightarrow> ustr list" where
  "section_loop current [] = (if current = [] then [] else [strip_chars {10} (join [10] current)])"
| "section_loop current (line # lines) =
     (if starts_with line [35] \<and> current \<noteq> []
      then strip_chars {10} (join [10] current) # section_loop [line] lines
      else section_loop (current @ [line]) lines)"

definition split_sections :: "ustr \<Rightarrow> ustr list" where
  "split_sections body = filter (\<lambda>s. strip s \<noteq> []) (section_loop [] (splitlines body))"

function hard_split :: "ustr \<Rightarrow> nat \<Rightarrow> ustr list" where
  "hard_split source max_chars =
     (if source = [] \<or> max_chars = 0 then []
      else take max_chars source # hard_split (drop max_chars source) max_chars)"
  by pat_completeness auto
termination
  by (relation "measure (\<lambda>(source, max_chars). length source)") auto

declare hard_split.simps [simp del]

fun pack_pieces :: "nat \<Rightarrow> ustr \<Rightarrow> ustr list \<Rightarrow> ustr list" where
  "pack_pieces max_chars buffer [] = (if buffer = [] then [] else [buffer])"
| "pack_pieces max_chars buffer (piece # pieces) =
     (let candidate = (if buffer = [] then piece else buffer @ [10, 10] @ piece) in
      if length candidate \<le> max_chars then pack_pieces max_chars candidate pieces
      else (if buffer = [] then [] else [buffer]) @ pack_pieces max_chars piece pieces)"

definition pieces_of :: "nat \<Rightarrow> ustr \<Rightarrow> ustr list" where
  "pieces_of max_chars s = (if length s > max_chars then hard_split s max_chars else [s])"

definition chunk_markdown :: "ustr \<Rightarrow> int \<Rightarrow> exn + ustr list" where
  "chunk_markdown body max_chars =
     (if max_chars \<le> 0 then Inl ValueError
      else if strip body = [] then Inr []
      else Inr (pack_pieces (nat max_chars) []
        (concat (map (pieces_of (nat max_chars)) (split_sections (strip body))))))"

section \<open>Fingerprints\<close>

definition content_sha256 :: "(ustr \<Rightarrow> ustr) \<Rightarrow> ustr \<Rightarrow> ustr" where
  "content_sha256 sha256 content = sha256 content"

definition doc_fingerprint :: "(ustr \<Rightarrow> ustr) \<Rightarrow> (ustr \<times> ustr) list \<Rightarrow> ustr" where
  "doc_fingerprint sha256 chunks = sha256 (concat (map (\<lambda>(source, content). source @ [0] @ content @ [1]) chunks))"

text \<open>\<open>f"{index:04d}"\<close>.\<close>

definition pad4 :: "nat \<Rightarrow> ustr" where
  "pad4 n = replicate (4 - length (dec_nat n)) 48 @ dec_nat n"

section \<open>Verification against the ingest state\<close>

record rag_verdict =
  rv_ingested :: bool
  rv_reason :: ustr
  rv_source_key :: ustr
  rv_fingerprint :: "ustr option"

definition rag_source_key :: "ustr \<Rightarrow> ustr" where
  "rag_source_key note_relpath = lit ''obsidian:'' @ note_relpath"

definition not_ingested :: "string \<Rightarrow> ustr \<Rightarrow> ustr option \<Rightarrow> rag_verdict" where
  "not_ingested reason source_key fp =
     \<lparr>rv_ingested = False, rv_reason = lit reason, rv_source_key = source_key, rv_fingerprint = fp\<rparr>"

definition recomputed_fingerprint ::
    "(ustr \<Rightarrow> ustr option) \<Rightarrow> (ustr \<Rightarrow> ustr) \<Rightarrow> ustr \<Rightarrow> ustr \<Rightarrow> exn + ustr" where
  "recomputed_fingerprint loads sha256 source_key note_body =
     bindE (chunk_markdown (snd (parse_frontmatter loads note_body)) 1500) (\<lambda>chunk_texts.
       Inr (doc_fingerprint sha256
         (map (\<lambda>(index, t). (source_key @ lit ''#c'' @ pad4 index, t)) (zip [0..<length chunk_texts] chunk_texts))))"

definition verify_entry ::
    "(ustr \<Rightarrow> ustr option) \<Rightarrow> (ustr \<Rightarrow> ustr) \<Rightarrow> (ustr \<times> json) list \<Rightarrow> ustr \<Rightarrow> ustr \<Rightarrow> exn + rag_verdict" where
  "verify_entry loads sha256 entry source_key note_body =
     (let stored_fp = (case jget entry ''fingerprint'' of Some (JStr s) \<Rightarrow> Some s | _ \<Rightarrow> None) in
      if \<not> (case jget entry ''point_ids'' of Some (JArr ids) \<Rightarrow> ids \<noteq> [] | _ \<Rightarrow> False)
      then Inr (not_ingested ''no_points'' source_key stored_fp)
      else (case stored_fp of
          None \<Rightarrow> Inr (not_ingested ''fingerprint_mismatch'' source_key None)
        | Some fp \<Rightarrow>
            bindE (recomputed_fingerprint loads sha256 source_key note_body) (\<lambda>recomputed.
              if fp \<noteq> recomputed then Inr (not_ingested ''fingerprint_mismatch'' source_key (Some fp))
              else Inr \<lparr>rv_ingested = True, rv_reason = [], rv_source_key = source_key, rv_fingerprint = Some fp\<rparr>)))"

definition verify_ingested ::
    "(ustr \<Rightarrow> ustr option) \<Rightarrow> (ustr \<Rightarrow> ustr) \<Rightarrow> file_read \<Rightarrow> ustr \<Rightarrow> ustr \<Rightarrow> exn + rag_verdict" where
  "verify_ingested loads sha256 state_file note_relpath note_body =
     (let source_key = rag_source_key note_relpath in
      case state_file of
        FileNotUtf8 \<Rightarrow> Inl UnicodeDecodeError
      | FileJson (JObj state) \<Rightarrow>
          (case jget state ''documents'' of
             Some (JObj documents) \<Rightarrow>
               (case dict_get documents source_key of
                  Some (JObj entry) \<Rightarrow> verify_entry loads sha256 entry source_key note_body
                | _ \<Rightarrow> Inr (not_ingested ''source_absent'' source_key None))
           | _ \<Rightarrow> Inr (not_ingested ''state_missing'' source_key None))
      | _ \<Rightarrow> Inr (not_ingested ''state_missing'' source_key None))"

section \<open>Chunks keep the text\<close>

lemma dense_append [simp]: "dense (a @ b) = dense a @ dense b"
  by (simp add: dense_def)

lemma dense_Nil [simp]: "dense [] = []"
  by (simp add: dense_def)

lemma dense_nl [simp]: "dense (10 # s) = dense s" "dense [10] = []"
  by (simp_all add: dense_def is_space_def)

lemma dense_Nil_iff: "dense s = [] \<longleftrightarrow> list_all is_space s"
  by (simp add: dense_def filter_empty_conv list_all_iff)

lemma line_break_space: "line_break c \<Longrightarrow> is_space c"
  by (auto simp: line_break_def is_space_def)

lemma dense_break: "line_break c \<Longrightarrow> dense (c # s) = dense s"
  by (simp add: line_break_space dense_Cons_head)

lemma dense_splitlines: "concat (map dense (splitlines s)) = dense s"
proof -
  have "concat (map dense (splitlines_aux cur s)) = dense (rev cur) @ dense s" for cur
  proof (induction cur s rule: splitlines_aux.induct)
    case (2 cur c)
    then show ?case by (simp add: dense_break)
  next
    case (3 cur c d cs)
    show ?case
    proof (cases "c = 13 \<and> d = 10")
      case True
      then have "dense (c # d # cs) = dense cs" by (simp add: dense_def is_space_def)
      with True 3 show ?thesis by simp
    next
      case F: False
      show ?thesis
      proof (cases "line_break c")
        case True
        with F 3 show ?thesis by (simp add: dense_break)
      next
        case False
        with F 3 have "concat (map dense (splitlines_aux cur (c # d # cs))) = dense (rev (c # cur)) @ dense (d # cs)" by auto
        also have "\<dots> = dense (rev cur) @ dense ([c] @ d # cs)" by (simp only: rev.simps dense_append append_assoc)
        finally show ?thesis by simp
      qed
    qed
  qed simp
  from this [of "[]"] show ?thesis by (simp add: splitlines_def)
qed

lemma dense_join: "dense sep = [] \<Longrightarrow> dense (join sep ls) = concat (map dense ls)"
  by (induction sep ls rule: join.induct) simp_all

lemma dense_dropWhile: "(\<And>c. c \<in> cs \<Longrightarrow> is_space c) \<Longrightarrow> dense (dropWhile (\<lambda>c. c \<in> cs) s) = dense s"
  by (induction s) (auto simp: dense_def)

lemma dense_rev: "dense (rev s) = rev (dense s)"
  by (simp add: dense_def rev_filter)

lemma dense_strip_chars: "(\<And>c. c \<in> cs \<Longrightarrow> is_space c) \<Longrightarrow> dense (strip_chars cs s) = dense s"
  by (simp add: strip_chars_def dense_rev dense_dropWhile)

lemma dense_strip_nl [simp]: "dense (strip_chars {10} s) = dense s"
  by (rule dense_strip_chars) (simp add: is_space_def)

lemma dense_strip [simp]: "dense (strip s) = dense s"
proof -
  have "dense (strip s) = dense (strip_chars {c. is_space c} s)"
    by (simp add: strip_def lstrip_def rstrip_def strip_chars_def)
  then show ?thesis using dense_strip_chars [of "{c. is_space c}" s] by simp
qed

lemma dense_sections: "concat (map dense (section_loop current lines)) = concat (map dense current) @ concat (map dense lines)"
  by (induction current lines rule: section_loop.induct) (simp_all add: dense_join)

lemma dense_filter: "concat (map dense (filter (\<lambda>s. strip s \<noteq> []) ss)) = concat (map dense ss)"
proof (induction ss)
  case (Cons s ss)
  have "strip s = [] \<Longrightarrow> dense s = []" using dense_strip [of s] by simp
  with Cons show ?case by simp
qed simp

lemma concat_hard_split: "n > 0 \<Longrightarrow> concat (hard_split s n) = s"
  by (induction s n rule: hard_split.induct) (subst hard_split.simps, simp)

lemma hard_split_bounds: "p \<in> set (hard_split s n) \<Longrightarrow> p \<noteq> [] \<and> length p \<le> n"
  by (induction s n rule: hard_split.induct) (subst (asm) (2) hard_split.simps, auto split: if_splits)

lemma dense_concat: "dense (concat ss) = concat (map dense ss)"
  by (induction ss) simp_all

lemma dense_pieces: "n > 0 \<Longrightarrow> concat (map dense (pieces_of n s)) = dense s"
  using concat_hard_split [of n s] by (simp add: pieces_of_def flip: dense_concat)

lemma dense_pack: "concat (map dense (pack_pieces n buffer ps)) = dense buffer @ concat (map dense ps)"
  by (induction n buffer ps rule: pack_pieces.induct) (simp_all add: Let_def)

lemma pack_bounds:
  assumes "length buffer \<le> n" and "\<forall>p \<in> set ps. p \<noteq> [] \<and> length p \<le> n"
  shows "\<forall>c \<in> set (pack_pieces n buffer ps). c \<noteq> [] \<and> length c \<le> n"
  using assms
proof (induction n buffer ps rule: pack_pieces.induct)
  case (2 n buffer p ps)
  let ?c = "if buffer = [] then p else buffer @ [10, 10] @ p"
  show ?case
  proof (cases "length ?c \<le> n")
    case True
    have "\<forall>c \<in> set (pack_pieces n ?c ps). c \<noteq> [] \<and> length c \<le> n"
      using "2.prems"(2) by (intro "2.IH"(1) [OF refl True True]) simp
    then show ?thesis using True by (simp only: pack_pieces.simps Let_def if_True)
  next
    case False
    have "\<forall>c \<in> set (pack_pieces n p ps). c \<noteq> [] \<and> length c \<le> n"
      using "2.prems"(2) by (intro "2.IH"(2) [OF refl False]) simp_all
    then show ?thesis
      using False "2.prems"(1) by (simp only: pack_pieces.simps Let_def if_False) (cases "buffer = []"; simp)
  qed
qed simp

lemma pieces_bounds: "n > 0 \<Longrightarrow> s \<noteq> [] \<Longrightarrow> p \<in> set (pieces_of n s) \<Longrightarrow> p \<noteq> [] \<and> length p \<le> n"
  using hard_split_bounds [of p s n] by (auto simp: pieces_of_def split: if_splits)

lemma split_sections_ne: "s \<in> set (split_sections body) \<Longrightarrow> s \<noteq> []"
  by (auto simp: split_sections_def strip_def lstrip_def rstrip_def)

text \<open>The chunks of a document are non-empty, none is longer than the limit, and together they hold
  exactly the characters of the document that are not white space, in order.\<close>

lemma chunks_keep_text:
  assumes "0 < max_chars"
  shows "\<exists>cs. chunk_markdown body max_chars = Inr cs \<and> (\<forall>c \<in> set cs. c \<noteq> [] \<and> length c \<le> nat max_chars)
    \<and> dense (concat cs) = dense body"
proof (cases "strip body = []")
  case True
  then show ?thesis using assms dense_strip [of body] by (simp add: chunk_markdown_def)
next
  case False
  let ?n = "nat max_chars" and ?ss = "split_sections (strip body)"
  have n: "?n > 0" using assms by simp
  let ?ps = "concat (map (pieces_of ?n) ?ss)"
  have run: "chunk_markdown body max_chars = Inr (pack_pieces ?n [] ?ps)"
    using assms False by (simp add: chunk_markdown_def)
  have "concat (map dense (concat (map (pieces_of ?n) ss))) = concat (map dense ss)" for ss
    using n by (induction ss) (simp_all add: dense_pieces)
  moreover have "concat (map dense ?ss) = dense body"
    by (simp add: split_sections_def dense_filter dense_sections dense_splitlines)
  ultimately have "dense (concat (pack_pieces ?n [] ?ps)) = dense body"
    unfolding dense_concat dense_pack by simp
  moreover have "\<forall>p \<in> set ?ps. p \<noteq> [] \<and> length p \<le> ?n"
    using pieces_bounds [OF n split_sections_ne] by auto
  then have "\<forall>c \<in> set (pack_pieces ?n [] ?ps). c \<noteq> [] \<and> length c \<le> ?n"
    by (intro pack_bounds) simp
  ultimately show ?thesis using run by blast
qed

lemma chunks_keep_text_witness:
  "\<exists>cs. chunk_markdown (lit ''# a'' @ [10] @ lit ''b c'') 2 = Inr cs \<and> (\<forall>c \<in> set cs. length c \<le> 2)
     \<and> dense (concat cs) = lit ''#abc''"
proof -
  have "dense (lit ''# a'' @ [10] @ lit ''b c'') = lit ''#abc''" by (simp add: dense_def lit_def is_space_def)
  then show ?thesis using chunks_keep_text [of 2 "lit ''# a'' @ [10] @ lit ''b c''"] by auto
qed

text \<open>A note counts as ingested exactly when the state file lists points for it under the fingerprint of
  this very text.\<close>

lemma verify_ingested_iff:
  "(\<exists>v. verify_ingested loads sha256 f rel body = Inr v \<and> rv_ingested v) \<longleftrightarrow>
   (\<exists>state documents entry ids fp. f = FileJson (JObj state) \<and> jget state ''documents'' = Some (JObj documents)
     \<and> dict_get documents (rag_source_key rel) = Some (JObj entry)
     \<and> jget entry ''point_ids'' = Some (JArr ids) \<and> ids \<noteq> []
     \<and> jget entry ''fingerprint'' = Some (JStr fp)
     \<and> recomputed_fingerprint loads sha256 (rag_source_key rel) body = Inr fp)"
  (is "?l \<longleftrightarrow> ?r")
proof
  assume ?r
  then show ?l by (auto simp: verify_ingested_def verify_entry_def)
next
  assume ?l
  then obtain v where v: "verify_ingested loads sha256 f rel body = Inr v" "rv_ingested v" by blast
  then obtain state documents entry where s: "f = FileJson (JObj state)" "jget state ''documents'' = Some (JObj documents)"
    "dict_get documents (rag_source_key rel) = Some (JObj entry)"
    "verify_entry loads sha256 entry (rag_source_key rel) body = Inr v"
    by (auto simp: verify_ingested_def Let_def not_ingested_def split: file_read.splits json.splits option.splits)
  then show ?r
    using v(2) by (auto simp: verify_entry_def Let_def not_ingested_def split: if_splits json.splits option.splits)
qed

end
