(* ===== verification/RelocationPlan.thy ===== *)
theory RelocationPlan
  imports RelocationRecord RagChunks
begin

text \<open>
  What a relocation proposes: \<open>automation/obsidian_write/note.py\<close> (where a note goes and how it is
  rendered), and of \<open>automation/memory_relocate\<close> \<open>plan.py\<close> (the note of an entry), \<open>discover.py\<close> (which
  entry comes next), \<open>propose.py\<close> (the record) and \<open>render.py\<close> (the message the owner sees). Unicode
  normalization, \<open>isalnum\<close>, \<open>casefold\<close> and SHA-256 are arguments. A \<open>PurePosixPath\<close> is the list of its
  parts. Korean texts of the source are lists of code points.
\<close>

section \<open>Notes\<close>

record note_tools =
  nt_nfkc :: "ustr \<Rightarrow> ustr"
  nt_isalnum :: "nat \<Rightarrow> bool"
  nt_casefold :: "ustr \<Rightarrow> ustr"
  nt_sha256 :: "ustr \<Rightarrow> ustr"

record note_plan =
  np_relpath :: "ustr list"
  np_title :: ustr
  np_body :: ustr
  np_tags :: "ustr list"

definition PERSONAL_PARA_ROOT :: ustr where "PERSONAL_PARA_ROOT = lit ''000_PARA''"

definition KIMM_PARA_ROOT :: ustr where "KIMM_PARA_ROOT = lit ''001_KIMM_PARA''"

definition UNCLASSIFIED_INBOX :: "ustr list" where
  "UNCLASSIFIED_INBOX = [PERSONAL_PARA_ROOT, lit ''Area'',
    [48, 48, 48, 95, 51221, 47532, 46104, 51648, 50506, 51008, 49373, 44033, 46308]]"

definition BUCKET_NAMES :: "(ustr \<times> ustr) list" where
  "BUCKET_NAMES = [(lit ''project'', lit ''Project''), (lit ''area'', lit ''Area''),
     (lit ''resource'', lit ''Resource''), (lit ''archive'', lit ''Archive'')]"

definition FILENAME_LIMIT :: nat where "FILENAME_LIMIT = 80"

definition collapse :: "nat \<Rightarrow> ustr \<Rightarrow> ustr" where
  "collapse sep s = join [sep] (split_ws s)"

definition normalize_title :: "note_tools \<Rightarrow> ustr \<Rightarrow> exn + ustr" where
  "normalize_title nt title =
     (let normalized = collapse 32 (nt_nfkc nt title) in
      if normalized = [] then Inl ObsidianWriteError else Inr normalized)"

definition recognized_bucket :: "note_tools \<Rightarrow> ustr option \<Rightarrow> ustr option" where
  "recognized_bucket nt hint = (case hint of
      None \<Rightarrow> None
    | Some h \<Rightarrow> dict_get BUCKET_NAMES (nt_casefold nt (strip (nt_nfkc nt h))))"

text \<open>The characters that a path segment keeps; the others become blanks.\<close>

definition clean_char :: "note_tools \<Rightarrow> nat \<Rightarrow> nat" where
  "clean_char nt c = (if nt_isalnum nt c \<or> c \<in> {32, 45, 95} then c else 32)"

definition clean_segment :: "note_tools \<Rightarrow> ustr \<Rightarrow> ustr" where
  "clean_segment nt raw = strip_chars {45, 95} (take FILENAME_LIMIT (collapse 45 (map (clean_char nt) raw)))"

definition sanitize_subfolder :: "note_tools \<Rightarrow> ustr \<Rightarrow> ustr list" where
  "sanitize_subfolder nt subfolder =
     filter (\<lambda>s. s \<noteq> []) (map (clean_segment nt) (split_char 47 subfolder))"

definition note_parent :: "note_tools \<Rightarrow> bool \<Rightarrow> ustr option \<Rightarrow> ustr option \<Rightarrow> ustr list" where
  "note_parent nt institutional bucket subfolder = (case bucket of
      None \<Rightarrow> UNCLASSIFIED_INBOX
    | Some b \<Rightarrow>
        [if institutional then KIMM_PARA_ROOT else PERSONAL_PARA_ROOT, b]
          @ (case subfolder of None \<Rightarrow> [] | Some s \<Rightarrow> if s = [] then [] else sanitize_subfolder nt s))"

definition filename_for_title :: "note_tools \<Rightarrow> ustr \<Rightarrow> ustr option \<Rightarrow> ustr" where
  "filename_for_title nt title date_prefix =
     (let normalized_stem = clean_segment nt title;
          safe_stem = (if normalized_stem = [] then lit ''note'' else normalized_stem);
          digest = take 12 (nt_sha256 nt title);
          prefix = (case date_prefix of None \<Rightarrow> [] | Some d \<Rightarrow> if d = [] then [] else d @ lit ''_'') in
      prefix @ safe_stem @ lit ''--'' @ digest @ lit ''.md'')"

definition plan_note :: "note_tools \<Rightarrow> ustr \<Rightarrow> ustr \<Rightarrow> bool \<Rightarrow> ustr option \<Rightarrow> ustr option \<Rightarrow> ustr list \<Rightarrow> ustr option
    \<Rightarrow> exn + note_plan" where
  "plan_note nt title body institutional bucket_hint subfolder tags date_prefix =
     bindE (normalize_title nt title) (\<lambda>normalized_title.
       Inr \<lparr>np_relpath = note_parent nt institutional (recognized_bucket nt bucket_hint) subfolder
              @ [filename_for_title nt normalized_title date_prefix],
            np_title = normalized_title, np_body = strip body, np_tags = tags\<rparr>)"

definition as_posix :: "ustr list \<Rightarrow> ustr" where
  "as_posix parts = join (lit ''/'') parts"

definition render_note :: "ustr \<Rightarrow> note_plan \<Rightarrow> ustr \<Rightarrow> ustr \<Rightarrow> ustr" where
  "render_note owner_email plan created modified =
     (let root_tag = (if hd (np_relpath plan) = KIMM_PARA_ROOT then lit ''#KIMM'' else lit ''#personal'');
          tag_line = join (lit '' '') (root_tag # np_tags plan) in
      lit ''# '' @ np_title plan @ [10, 10] @ lit ''>[!info]'' @ [10]
        @ lit ''> Author: '' @ owner_email @ [10]
        @ lit ''> Created: '' @ created @ [10]
        @ lit ''> Modified: '' @ modified @ [10]
        @ lit ''> Location: '' @ as_posix (butlast (np_relpath plan)) @ [10]
        @ lit ''> Tag: '' @ tag_line @ [10, 10]
        @ np_body plan @ [10])"

section \<open>The note of an entry\<close>

definition ENTRY_HEADING :: ustr where
  "ENTRY_HEADING =
    [35, 35, 32, 50896, 48376, 32, 44592, 47197, 32, 40, 118, 101, 114, 98, 97, 116, 105, 109, 41]"

definition PROVENANCE_FOOTER :: ustr where
  "PROVENANCE_FOOTER =
    [45, 45, 45, 10, 112, 114, 111, 118, 101, 110, 97, 110, 99, 101, 58, 32, 111, 98, 115, 101,
     114, 118, 101, 100, 10, 97, 117, 116, 104, 111, 114, 105, 116, 121, 58, 32, 114, 101, 102,
     101, 114, 101, 110, 99, 101, 10, 45348, 51060, 54000, 48652, 32, 47700, 47784, 47532, 40, 110,
     97, 116, 105, 118, 101, 32, 109, 101, 109, 111, 114, 121, 41, 50640, 49436, 32, 51060, 44288,
     46108, 32, 44288, 52769, 32, 44592, 48152, 32, 50868, 50689, 32, 49324, 49892, 32, 52280,
     51312, 51077, 45768, 45796, 46, 32, 51312, 54924, 40, 114, 101, 99, 97, 108, 108, 41, 50857,
     32, 114, 101, 102, 101, 114, 101, 110, 99, 101, 51068, 32, 49104, 32, 44428, 50948, 32, 51080,
     45716, 32, 49444, 51221, 51060, 32, 50500, 45785, 45768, 45796, 32, 40, 78, 79, 84, 32, 97,
     117, 116, 104, 111, 114, 105, 116, 97, 116, 105, 118, 101, 32, 99, 111, 110, 102, 105, 103,
     41, 46]"

record relocation_plan =
  rp_note_plan :: note_plan
  rp_note_plan_sha256 :: ustr

fun first_summary :: "ustr list \<Rightarrow> exn + ustr" where
  "first_summary [] = Inl ObsidianWriteError"
| "first_summary (line # lines) =
     (let collapsed = collapse 32 line in
      if collapsed \<noteq> [] then Inr (strip (take 60 collapsed)) else first_summary lines)"

definition entry_title :: "note_tools \<Rightarrow> ustr \<Rightarrow> exn + ustr" where
  "entry_title nt entry_text =
     bindE (first_summary (splitlines entry_text)) (\<lambda>summary.
       Inr (summary @ lit '' ('' @ take 8 (nt_sha256 nt entry_text) @ lit '')''))"

definition entry_body :: "ustr \<Rightarrow> ustr" where
  "entry_body entry_text = ENTRY_HEADING @ [10, 10] @ entry_text @ [10, 10] @ PROVENANCE_FOOTER"

definition note_plan_sha256 :: "note_tools \<Rightarrow> note_plan \<Rightarrow> ustr" where
  "note_plan_sha256 nt p = nt_sha256 nt (as_posix (np_relpath p) @ [0] @ np_title p @ [0] @ np_body p)"

definition build_relocation_plan :: "note_tools \<Rightarrow> ustr \<Rightarrow> exn + relocation_plan" where
  "build_relocation_plan nt entry_text =
     bindE (entry_title nt entry_text) (\<lambda>title.
     bindE (plan_note nt title (entry_body entry_text) False (Some (lit ''resource'')) None [] None) (\<lambda>p.
       Inr \<lparr>rp_note_plan = p, rp_note_plan_sha256 = note_plan_sha256 nt p\<rparr>))"

section \<open>The next candidate\<close>

record entry_verdict =
  ev_source_kind :: memory_kind
  ev_entry_text :: ustr
  ev_route :: ustr

record candidate =
  ca_source_kind :: memory_kind
  ca_entry_text :: ustr
  ca_entry_sha256 :: ustr
  ca_reclaimable_chars :: int

definition outranks :: "candidate \<Rightarrow> candidate \<Rightarrow> bool" where
  "outranks c best \<longleftrightarrow>
     (ca_reclaimable_chars c, ca_entry_sha256 best) > (ca_reclaimable_chars best, ca_entry_sha256 c)"

definition relocatable :: "entry_verdict \<Rightarrow> bool" where
  "relocatable v \<longleftrightarrow> ev_route v = lit ''OPS_REFERENCE'' \<and> ev_source_kind v = Kind_memory"

fun select_loop :: "(ustr \<Rightarrow> ustr) \<Rightarrow> memory_file \<Rightarrow> ustr set \<Rightarrow> nat set \<Rightarrow> candidate option \<Rightarrow> entry_verdict list
    \<Rightarrow> exn + candidate option" where
  "select_loop sha256 f known claimed best [] = Inr best"
| "select_loop sha256 f known claimed best (v # vs) =
     (let digest = entry_digest sha256 Kind_memory (ev_entry_text v) in
      if \<not> relocatable v \<or> digest \<in> known then select_loop sha256 f known claimed best vs
      else (case first_unclaimed 0 (mf_entries f) (ev_entry_text v) claimed of
          None \<Rightarrow> select_loop sha256 f known claimed best vs
        | Some index \<Rightarrow>
            bindE (reclaimable_chars f (int index)) (\<lambda>chars.
              let c = \<lparr>ca_source_kind = Kind_memory, ca_entry_text = ev_entry_text v,
                       ca_entry_sha256 = digest, ca_reclaimable_chars = chars\<rparr> in
              select_loop sha256 f known (insert index claimed)
                (if (case best of None \<Rightarrow> True | Some b \<Rightarrow> outranks c b) then Some c else best) vs)))"

definition select_candidate :: "(ustr \<Rightarrow> ustr) \<Rightarrow> entry_verdict list \<Rightarrow> (memory_kind, memory_file) dict \<Rightarrow> ustr set
    \<Rightarrow> exn + candidate option" where
  "select_candidate sha256 verdicts files known =
     (case dict_get files Kind_memory of
        None \<Rightarrow> Inr None
      | Some f \<Rightarrow> select_loop sha256 f known {} None verdicts)"

section \<open>The proposed record\<close>

definition build_proposed_record ::
    "note_tools \<Rightarrow> (rat \<Rightarrow> ustr) \<Rightarrow> ustr \<Rightarrow> memory_kind \<Rightarrow> ustr \<Rightarrow> int \<Rightarrow> ustr \<Rightarrow> ustr \<Rightarrow> ustr \<Rightarrow> int \<Rightarrow> ustr
      \<Rightarrow> exn + relocation" where
  "build_proposed_record nt float_repr entry_text source_kind entry_sha256 chars binding_kind binding_surface
     binding_channel_id binding_policy_version now =
     (if source_kind \<noteq> Kind_memory then Inl RelocationError
      else bindE (build_relocation_plan nt entry_text) (\<lambda>plan.
        let note_relpath = as_posix (np_relpath (rp_note_plan plan));
            action_hash = relocation_action_hash float_repr (nt_sha256 nt)
              \<lparr>hf_source_kind = memory_kind_value source_kind, hf_entry_sha256 = entry_sha256,
               hf_note_relpath = note_relpath, hf_note_plan_sha256 = rp_note_plan_sha256 plan\<rparr> in
        Inr \<lparr>rr_version = 1, rr_source_kind = source_kind, rr_entry_sha256 = entry_sha256,
          rr_note_relpath = note_relpath, rr_note_plan_sha256 = rp_note_plan_sha256 plan,
          rr_reclaimable_chars = chars, rr_action_hash = action_hash, rr_status = Reloc_proposed,
          rr_kind = binding_kind, rr_surface = binding_surface, rr_channel_id = binding_channel_id,
          rr_policy_version = binding_policy_version, rr_message_id = None, rr_created_at = now,
          rr_approved_at = None, rr_written_at = None, rr_reconciled_at = None, rr_remote_ref = None,
          rr_note_content_sha256 = None, rr_rag_source_key = Some (rag_source_key note_relpath),
          rr_rag_fingerprint = None, rr_backup_path = None, rr_last_block_reason = None\<rparr>))"

section \<open>The message\<close>

definition MAX_MESSAGE_CHARS :: nat where "MAX_MESSAGE_CHARS = 1900"

text \<open>The fixed parts of the message.\<close>

definition approval_opening :: ustr where
  "approval_opening =
    [91, 109, 101, 109, 111, 114, 121, 8594, 79, 98, 115, 105, 100, 105, 97, 110, 32, 51116, 48176,
     52824, 32, 49849, 51064, 32, 124, 32]"

definition approval_entry_heading :: ustr where
  "approval_entry_heading =
    [93, 10, 50896, 48376, 32, 47700, 47784, 47532, 32, 54637, 47785, 10, 9472, 9472, 9472, 10]"

definition approval_target_line :: ustr where
  "approval_target_line =
    [10, 9472, 9472, 9472, 10, 45, 32, 45824, 49345, 32, 45432, 53944, 58, 32, 96]"

definition approval_chars_line :: ustr where
  "approval_chars_line =
    [96, 10, 45, 32, 54924, 49688, 32, 50696, 49345, 32, 47928, 51088, 32, 49688, 58, 32]"

definition approval_hash_line :: ustr where
  "approval_hash_line =
    [10, 45, 32, 97, 99, 116, 105, 111, 110, 95, 104, 97, 115, 104, 58, 32, 96]"

definition approval_closing :: ustr where
  "approval_closing =
    [96, 10, 10, 49849, 51064, 40, 9989, 41, 32, 49884, 32, 51060, 32, 54637, 47785, 51008, 32,
     51088, 52404, 32, 47700, 47784, 47532, 40, 97, 109, 98, 105, 101, 110, 116, 41, 50640, 49436,
     32, 42, 42, 49325, 51228, 42, 42, 46104, 44256, 32, 51060, 54980, 50640, 45716, 32, 42, 42,
     114, 101, 99, 97, 108, 108, 40, 44160, 49353, 41, 47196, 47564, 42, 42, 32, 52286, 51012, 32,
     49688, 32, 51080, 44172, 32, 46121, 45768, 45796, 32, 8212, 32, 52712, 49548, 45716, 32, 9940,
     46]"

definition render_relocation_approval :: "relocation \<Rightarrow> ustr \<Rightarrow> exn + ustr" where
  "render_relocation_approval r entry_text =
     (let content =
        approval_opening
        @ lit ''mc-reloc-render-v1''
        @ approval_entry_heading
        @ entry_text
        @ approval_target_line
        @ rr_note_relpath r
        @ approval_chars_line
        @ dec_int (rr_reclaimable_chars r)
        @ approval_hash_line
        @ rr_action_hash r
        @ approval_closing in
      if length content > MAX_MESSAGE_CHARS then Inl RenderError else Inr content)"

section \<open>Where notes go\<close>

lemma set_split_ws: "w \<in> set (split_ws s) \<Longrightarrow> set w \<subseteq> set s"
proof -
  have "w \<in> set (split_ws_aux cur s) \<Longrightarrow> set w \<subseteq> set cur \<union> set s" for cur
    by (induction cur s rule: split_ws_aux.induct) (fastforce split: if_splits)+
  from this [of "[]"] show "w \<in> set (split_ws s) \<Longrightarrow> set w \<subseteq> set s" by (simp add: split_ws_def)
qed

lemma set_join: "set (join sep ls) \<subseteq> set sep \<union> (\<Union>l \<in> set ls. set l)"
  by (induction sep ls rule: join.induct) auto

lemma set_collapse: "set (collapse sep s) \<subseteq> insert sep (set s)"
  using set_join [of "[sep]" "split_ws s"] set_split_ws by (fastforce simp: collapse_def)

lemma set_strip_chars: "set (strip_chars cs s) \<subseteq> set s"
  unfolding strip_chars_def by (auto dest!: set_dropWhileD)

lemma set_clean_segment: "c \<in> set (clean_segment nt raw) \<Longrightarrow> nt_isalnum nt c \<or> c \<in> {32, 45, 95}"
proof -
  assume "c \<in> set (clean_segment nt raw)"
  then have "c \<in> set (collapse 45 (map (clean_char nt) raw))"
    unfolding clean_segment_def by (meson in_set_takeD set_strip_chars subsetD)
  then have "c \<in> insert 45 (set (map (clean_char nt) raw))" by (rule subsetD [OF set_collapse])
  then have "c \<in> insert 45 (clean_char nt ` set raw)" by simp
  then show ?thesis by (auto simp: clean_char_def)
qed

definition safe_part :: "ustr \<Rightarrow> bool" where
  "safe_part p \<longleftrightarrow> p \<noteq> [] \<and> 47 \<notin> set p \<and> p \<noteq> lit ''.'' \<and> p \<noteq> lit ''..''"

definition hex_chars :: "ustr \<Rightarrow> bool" where
  "hex_chars s \<longleftrightarrow> list_all (\<lambda>c. 48 \<le> c \<and> c \<le> 57 \<or> 97 \<le> c \<and> c \<le> 102) s"

lemma safe_segment:
  assumes "\<not> nt_isalnum nt 46" and "\<not> nt_isalnum nt 47" and "clean_segment nt raw \<noteq> []"
  shows "safe_part (clean_segment nt raw)"
proof -
  have "46 \<notin> set (clean_segment nt raw)" "47 \<notin> set (clean_segment nt raw)"
    using set_clean_segment [of 46 nt raw] set_clean_segment [of 47 nt raw] assms(1,2) by auto
  then show ?thesis using assms(3) by (auto simp: safe_part_def lit_def)
qed

lemma safe_long: "47 \<notin> set p \<Longrightarrow> length p > 2 \<Longrightarrow> safe_part p"
  by (auto simp: safe_part_def)

lemma safe_filename:
  assumes "\<not> nt_isalnum nt 47" and "\<And>s. hex_chars (nt_sha256 nt s)"
  shows "safe_part (filename_for_title nt title None)"
proof -
  have "47 \<notin> set (clean_segment nt title)" using set_clean_segment [of 47 nt title] assms(1) by auto
  moreover have "47 \<notin> set (take 12 (nt_sha256 nt title))"
    using assms(2) [of title] by (auto simp: hex_chars_def list_all_iff dest!: in_set_takeD)
  ultimately have "47 \<notin> set (filename_for_title nt title None)" by (simp add: filename_for_title_def Let_def lit_def)
  moreover have "length (filename_for_title nt title None) > 2" by (simp add: filename_for_title_def Let_def)
  ultimately show ?thesis by (rule safe_long)
qed


definition demo_notes :: note_tools where
  "demo_notes = \<lparr>nt_nfkc = (\<lambda>s. s), nt_isalnum = (\<lambda>c. 48 \<le> c \<and> c \<le> 57 \<or> 97 \<le> c \<and> c \<le> 122),
     nt_casefold = (\<lambda>s. s), nt_sha256 = (\<lambda>_. lit ''0a'')\<rparr>"


text \<open>The body of a relocated note holds the entry verbatim: stripping the body touches the heading and
  the footer at most, and these neither begin nor end with white space.\<close>

lemma entry_kept_verbatim:
  "build_relocation_plan nt entry_text = Inr plan \<Longrightarrow> np_body (rp_note_plan plan) = entry_body entry_text"
proof -
  assume "build_relocation_plan nt entry_text = Inr plan"
  then have "np_body (rp_note_plan plan) = strip (entry_body entry_text)"
    by (auto simp: build_relocation_plan_def plan_note_def)
  also have "strip (entry_body entry_text) = entry_body entry_text"
    by (rule strip_id) (simp add: entry_body_def ENTRY_HEADING_def PROVENANCE_FOOTER_def is_space_def)
  finally show ?thesis .
qed

section \<open>The best candidate is chosen\<close>

definition candidate_of :: "(ustr \<Rightarrow> ustr) \<Rightarrow> memory_file \<Rightarrow> ustr \<Rightarrow> candidate" where
  "candidate_of sha256 f t = \<lparr>ca_source_kind = Kind_memory, ca_entry_text = t,
     ca_entry_sha256 = entry_digest sha256 Kind_memory t,
     ca_reclaimable_chars = int (length t) + (if length (mf_entries f) = 1 then 0 else int (length JOIN))\<rparr>"

definition eligible :: "(ustr \<Rightarrow> ustr) \<Rightarrow> memory_file \<Rightarrow> ustr set \<Rightarrow> entry_verdict \<Rightarrow> bool" where
  "eligible sha256 f known v \<longleftrightarrow> relocatable v \<and> entry_digest sha256 Kind_memory (ev_entry_text v) \<notin> known
     \<and> ev_entry_text v \<in> set (mf_entries f)"

lemma outranks_irrefl: "\<not> outranks c c"
  by (simp add: outranks_def)

lemma not_outranks_trans: "\<not> outranks a b \<Longrightarrow> \<not> outranks b c \<Longrightarrow> \<not> outranks a c"
  unfolding outranks_def not_less by (auto simp: less_eq_prod_def)

lemma outranks_asym: "outranks a b \<Longrightarrow> \<not> outranks b a"
  unfolding outranks_def by (auto simp: less_prod_def less_eq_prod_def)

lemma first_unclaimed_Some:
  "first_unclaimed k es t claimed = Some i \<Longrightarrow> k \<le> i \<and> i < k + length es \<and> es ! (i - k) = t \<and> i \<notin> claimed"
proof (induction k es t claimed rule: first_unclaimed.induct)
  case (2 k e es t claimed)
  show ?case
  proof (cases "e = t \<and> k \<notin> claimed")
    case False
    with "2.prems" have "first_unclaimed (Suc k) es t claimed = Some i" by (simp split: if_splits)
    from "2.IH" [OF False this] show ?thesis by (auto simp: nth_Cons')
  qed (use "2.prems" in auto)
qed simp

lemma first_unclaimed_None:
  "first_unclaimed k es t claimed = None \<Longrightarrow> i < length es \<Longrightarrow> es ! i = t \<Longrightarrow> k + i \<in> claimed"
proof (induction k es t claimed arbitrary: i rule: first_unclaimed.induct)
  case (2 k e es t claimed)
  then have c: "\<not> (e = t \<and> k \<notin> claimed)" "first_unclaimed (Suc k) es t claimed = None" by (auto split: if_splits)
  show ?case
  proof (cases i)
    case (Suc j)
    with "2.prems" have "j < length es" "es ! j = t" by simp_all
    from "2.IH" [OF c this] Suc show ?thesis by simp
  qed (use 2 c in auto)
qed simp

definition covers :: "(ustr \<Rightarrow> ustr) \<Rightarrow> memory_file \<Rightarrow> candidate option \<Rightarrow> ustr \<Rightarrow> bool" where
  "covers sha256 f best t \<longleftrightarrow> (\<exists>b. best = Some b \<and> \<not> outranks (candidate_of sha256 f t) b)"

definition improves :: "candidate option \<Rightarrow> candidate option \<Rightarrow> bool" where
  "improves r best \<longleftrightarrow> (\<forall>b. best = Some b \<longrightarrow> (\<exists>b'. r = Some b' \<and> \<not> outranks b b'))"

lemma improves_refl: "improves r r"
  by (simp add: improves_def outranks_irrefl)

lemma improves_trans: "improves r m \<Longrightarrow> improves m b \<Longrightarrow> improves r b"
  unfolding improves_def by (metis not_outranks_trans)

lemma covers_improves: "covers sha256 f m t \<Longrightarrow> improves r m \<Longrightarrow> covers sha256 f r t"
  unfolding improves_def covers_def by (metis not_outranks_trans)

lemma select_loop_best:
  assumes "\<forall>i \<in> claimed. i < length (mf_entries f) \<longrightarrow> covers sha256 f best (mf_entries f ! i)"
  shows "\<exists>r. select_loop sha256 f known claimed best vs = Inr r \<and> improves r best
    \<and> (\<forall>v \<in> set vs. eligible sha256 f known v \<longrightarrow> covers sha256 f r (ev_entry_text v))
    \<and> (r = best \<or> (\<exists>v \<in> set vs. eligible sha256 f known v \<and> r = Some (candidate_of sha256 f (ev_entry_text v))))"
  using assms
proof (induction vs arbitrary: claimed best)
  case Nil
  then show ?case by (simp add: improves_refl)
next
  case (Cons v vs)
  let ?t = "ev_entry_text v" and ?es = "mf_entries f"
  consider (skip) "\<not> relocatable v \<or> entry_digest sha256 Kind_memory ?t \<in> known"
    | (none) "relocatable v" "entry_digest sha256 Kind_memory ?t \<notin> known" "first_unclaimed 0 ?es ?t claimed = None"
    | (some) i where "relocatable v" "entry_digest sha256 Kind_memory ?t \<notin> known" "first_unclaimed 0 ?es ?t claimed = Some i"
    by blast
  then show ?case
  proof cases
    case skip
    then have "select_loop sha256 f known claimed best (v # vs) = select_loop sha256 f known claimed best vs" by simp
    moreover have "\<not> eligible sha256 f known v" using skip by (auto simp: eligible_def)
    ultimately show ?thesis using Cons.IH [OF Cons.prems] by auto
  next
    case none
    then have "select_loop sha256 f known claimed best (v # vs) = select_loop sha256 f known claimed best vs" by simp
    moreover obtain r where r: "select_loop sha256 f known claimed best vs = Inr r" "improves r best"
      "\<forall>v \<in> set vs. eligible sha256 f known v \<longrightarrow> covers sha256 f r (ev_entry_text v)"
      "r = best \<or> (\<exists>v \<in> set vs. eligible sha256 f known v \<and> r = Some (candidate_of sha256 f (ev_entry_text v)))"
      using Cons.IH [OF Cons.prems] by blast
    moreover have "covers sha256 f r ?t" if "eligible sha256 f known v"
    proof -
      from that obtain i where i: "i < length ?es" "?es ! i = ?t" by (auto simp: eligible_def in_set_conv_nth)
      with first_unclaimed_None [OF none(3) i] Cons.prems have "covers sha256 f best ?t" by auto
      then show ?thesis using r(2) by (rule covers_improves)
    qed
    ultimately show ?thesis by auto
  next
    case (some i)
    from first_unclaimed_Some [OF some(3)] have i: "i < length ?es" "?es ! i = ?t" by auto
    let ?c = "candidate_of sha256 f ?t"
    let ?b = "if (case best of None \<Rightarrow> True | Some b \<Rightarrow> outranks ?c b) then Some ?c else best"
    have el: "eligible sha256 f known v" using some i nth_mem [OF i(1)] by (auto simp: eligible_def)
    have rec: "reclaimable_chars f (int i) = Inr (ca_reclaimable_chars ?c)"
      using reclaimable_entry [OF i(1)] i(2) by (simp add: candidate_of_def)
    have same: "\<lparr>ca_source_kind = Kind_memory, ca_entry_text = ?t, ca_entry_sha256 = entry_digest sha256 Kind_memory ?t,
        ca_reclaimable_chars = ca_reclaimable_chars ?c\<rparr> = ?c" by (simp add: candidate_of_def)
    have run: "select_loop sha256 f known claimed best (v # vs) = select_loop sha256 f known (insert i claimed) ?b vs"
      using some by (cases best) (simp_all add: rec same Let_def)
    have imp: "improves ?b best"
      using outranks_asym by (auto simp: improves_def outranks_irrefl split: option.splits)
    have cov: "covers sha256 f ?b ?t"
      by (auto simp: covers_def outranks_irrefl split: option.splits)
    have "\<forall>j \<in> insert i claimed. j < length ?es \<longrightarrow> covers sha256 f ?b (?es ! j)"
      using Cons.prems i(2) cov covers_improves [OF _ imp] by auto
    from Cons.IH [OF this] obtain r where r: "select_loop sha256 f known (insert i claimed) ?b vs = Inr r" "improves r ?b"
      "\<forall>v \<in> set vs. eligible sha256 f known v \<longrightarrow> covers sha256 f r (ev_entry_text v)"
      "r = ?b \<or> (\<exists>v \<in> set vs. eligible sha256 f known v \<and> r = Some (candidate_of sha256 f (ev_entry_text v)))"
      by blast
    have "r = best \<or> (\<exists>v' \<in> set (v # vs). eligible sha256 f known v' \<and> r = Some (candidate_of sha256 f (ev_entry_text v')))"
      using r(4) el by (auto split: if_splits)
    moreover have "\<forall>v' \<in> set (v # vs). eligible sha256 f known v' \<longrightarrow> covers sha256 f r (ev_entry_text v')"
      using r(2,3) covers_improves [OF cov] by auto
    ultimately show ?thesis
      using run r(1) improves_trans [OF r(2) imp] by auto
  qed
qed

text \<open>The selection never fails; it proposes nothing exactly when no verdict is eligible, and otherwise
  an eligible entry of the file that no other eligible one outranks.\<close>

lemma candidate_is_best:
  assumes "dict_get files Kind_memory = Some f"
  shows "\<exists>r. select_candidate sha256 verdicts files known = Inr r
    \<and> (r = None \<longleftrightarrow> (\<forall>v \<in> set verdicts. \<not> eligible sha256 f known v))
    \<and> (\<forall>c. r = Some c \<longrightarrow> (\<exists>v \<in> set verdicts. eligible sha256 f known v \<and> c = candidate_of sha256 f (ev_entry_text v))
         \<and> (\<forall>v \<in> set verdicts. eligible sha256 f known v \<longrightarrow> \<not> outranks (candidate_of sha256 f (ev_entry_text v)) c))"
proof -
  obtain r where "select_loop sha256 f known {} None verdicts = Inr r"
    "\<forall>v \<in> set verdicts. eligible sha256 f known v \<longrightarrow> covers sha256 f r (ev_entry_text v)"
    "r = None \<or> (\<exists>v \<in> set verdicts. eligible sha256 f known v \<and> r = Some (candidate_of sha256 f (ev_entry_text v)))"
    using select_loop_best [of "{}" f sha256 None known verdicts] by auto
  then show ?thesis
    using assms by (auto simp: select_candidate_def covers_def)
qed

lemma candidate_is_best_witness:
  "\<exists>c. select_candidate (\<lambda>s. s)
      [\<lparr>ev_source_kind = Kind_memory, ev_entry_text = lit ''a'', ev_route = lit ''OPS_REFERENCE''\<rparr>,
       \<lparr>ev_source_kind = Kind_memory, ev_entry_text = lit ''bb'', ev_route = lit ''OPS_REFERENCE''\<rparr>]
      [(Kind_memory, \<lparr>mf_kind = Kind_memory, mf_entries = [lit ''a'', lit ''bb'']\<rparr>)] {} = Inr (Some c)
    \<and> ca_entry_text c = lit ''bb''"
proof -
  let ?f = "\<lparr>mf_kind = Kind_memory, mf_entries = [lit ''a'', lit ''bb'']\<rparr>"
  let ?vs = "[\<lparr>ev_source_kind = Kind_memory, ev_entry_text = lit ''a'', ev_route = lit ''OPS_REFERENCE''\<rparr>,
       \<lparr>ev_source_kind = Kind_memory, ev_entry_text = lit ''bb'', ev_route = lit ''OPS_REFERENCE''\<rparr>]"
  have el: "\<forall>v \<in> set ?vs. eligible (\<lambda>s. s) ?f {} v" by (simp add: eligible_def relocatable_def)
  obtain r where r: "select_candidate (\<lambda>s. s) ?vs [(Kind_memory, ?f)] {} = Inr r"
    "r = None \<longleftrightarrow> (\<forall>v \<in> set ?vs. \<not> eligible (\<lambda>s. s) ?f {} v)"
    "\<forall>c. r = Some c \<longrightarrow> (\<exists>v \<in> set ?vs. eligible (\<lambda>s. s) ?f {} v \<and> c = candidate_of (\<lambda>s. s) ?f (ev_entry_text v))
         \<and> (\<forall>v \<in> set ?vs. eligible (\<lambda>s. s) ?f {} v \<longrightarrow> \<not> outranks (candidate_of (\<lambda>s. s) ?f (ev_entry_text v)) c)"
    using candidate_is_best [of "[(Kind_memory, ?f)]" ?f "\<lambda>s. s" ?vs "{}"] by (auto simp: dict_get_def)
  from r(2) el obtain c where c: "r = Some c" by auto
  with r(3) el have "c = candidate_of (\<lambda>s. s) ?f (lit ''a'') \<or> c = candidate_of (\<lambda>s. s) ?f (lit ''bb'')"
    and n: "\<not> outranks (candidate_of (\<lambda>s. s) ?f (lit ''bb'')) c" by auto
  moreover have "outranks (candidate_of (\<lambda>s. s) ?f (lit ''bb'')) (candidate_of (\<lambda>s. s) ?f (lit ''a''))"
    by (simp add: outranks_def candidate_of_def)
  ultimately show ?thesis using r(1) c by (auto simp: candidate_of_def)
qed

section \<open>What the hash binds\<close>

text \<open>C35. With a collision-free hash the approved action hash determines the entry that is deleted, the file
  it is deleted from, and the path and the content hash of the note that replaces it.\<close>

theorem relocation_hash_binds:
  assumes "inj sha256" and "relocation_action_hash float_repr sha256 a = relocation_action_hash float_repr sha256 b"
  shows "a = b"
proof -
  let ?o = "\<lambda>h. [(lit ''delete_intent'', JBool True),
        (lit ''destination_kind'', JStr (lit ''obsidian'')),
        (lit ''note_plan_sha256'', JStr (hf_note_plan_sha256 h)),
        (lit ''note_relpath'', JStr (hf_note_relpath h)),
        (lit ''source_entry_sha256'', JStr (hf_entry_sha256 h)),
        (lit ''source_kind'', JStr (hf_source_kind h)),
        (lit ''version'', JStr (lit ''mc-reloc-v1''))]"
  have "canonical float_repr (JObj (?o a)) = canonical float_repr (JObj (?o b))"
    using assms by (auto simp: relocation_action_hash_def dest: injD)
  moreover have "float_free (JObj (?o h))" for h by simp
  ultimately have "sort_keys (JObj (?o a)) = sort_keys (JObj (?o b))" using canonical_inject by blast
  moreover have wf: "wf_dict (?o h)" for h by (simp add: wf_dict_def)
  ultimately have members: "map_option sort_keys (dict_get (?o a) k) = map_option sort_keys (dict_get (?o b) k)" for k
    by (intro sort_keys_obj_members)
  show ?thesis
    using members [of "lit ''note_plan_sha256''"] members [of "lit ''note_relpath''"]
      members [of "lit ''source_entry_sha256''"] members [of "lit ''source_kind''"]
    by (simp add: dict_get_def)
qed

theorem relocation_hash_binds_witness:
  "relocation_action_hash (\<lambda>_. []) (\<lambda>s. s) \<lparr>hf_source_kind = lit ''memory'', hf_entry_sha256 = lit ''e'',
       hf_note_relpath = lit ''a'', hf_note_plan_sha256 = lit ''p''\<rparr>
   \<noteq> relocation_action_hash (\<lambda>_. []) (\<lambda>s. s) \<lparr>hf_source_kind = lit ''memory'', hf_entry_sha256 = lit ''e'',
       hf_note_relpath = lit ''b'', hf_note_plan_sha256 = lit ''p''\<rparr>"
  (is "?h \<noteq> ?h'")
proof
  assume "?h = ?h'"
  from relocation_hash_binds [OF _ this] show False by (simp add: inj_def)
qed

text \<open>What the owner reads names the entry, the note, what is freed and the hash, within the limit of
  a message.\<close>

lemma approval_message_complete:
  assumes "render_relocation_approval r entry_text = Inr content"
  shows "length content \<le> MAX_MESSAGE_CHARS \<and> contains content entry_text \<and> contains content (rr_note_relpath r)
    \<and> contains content (rr_action_hash r)"
proof -
  let ?a = "approval_opening @ lit ''mc-reloc-render-v1'' @ approval_entry_heading"
  let ?c = "approval_chars_line @ dec_int (rr_reclaimable_chars r) @ approval_hash_line"
  have content: "content = ?a @ entry_text @ approval_target_line @ rr_note_relpath r @ ?c @ rr_action_hash r @ approval_closing"
    and len: "length content \<le> MAX_MESSAGE_CHARS"
    using assms by (auto simp: render_relocation_approval_def Let_def split: if_splits)
  have "contains content entry_text"
    unfolding content by (rule contains_append)
  moreover have "contains content (rr_note_relpath r)"
    using contains_append [of "?a @ entry_text @ approval_target_line" "rr_note_relpath r"] unfolding content append_assoc .
  moreover have "contains content (rr_action_hash r)"
    using contains_append [of "?a @ entry_text @ approval_target_line @ rr_note_relpath r @ ?c" "rr_action_hash r"]
    unfolding content append_assoc .
  ultimately show ?thesis using len by simp
qed

end
