(* ===== verification/RelocateGate.thy ===== *)
theory RelocateGate
  imports RelocationPlan DriveArchive
begin

text \<open>
  The approval of a relocation: the Discord transport and the persistent store of
  \<open>automation/memory_relocate/effects_live.py\<close>, and \<open>approval_gate.py\<close>, the gate behind the shared facade.
  The REST call of Discord and the percent encoding of an emoji are arguments. A save of the state
  fails when the argument \<open>save_fails\<close> says so. The gate interprets the contract \<open>approval_store\<close>.
\<close>

section \<open>The world\<close>

record 'm relo_world =
  rw_host :: host
  rw_state :: file_read
  rw_outside :: 'm

definition beyond :: "('m, exn, 'a) eff \<Rightarrow> ('m relo_world, exn, 'a) eff" where
  "beyond m w = (case m (rw_outside w) of (r, o') \<Rightarrow> (r, w\<lparr>rw_outside := o'\<rparr>))"

section \<open>DiscordTransport\<close>

record 'm discord =
  dc_api :: "ustr \<Rightarrow> ustr \<Rightarrow> json option \<Rightarrow> ('m, exn, json) eff"
  dc_quote :: "ustr \<Rightarrow> ustr"
  dc_owner_id :: ustr

definition answer_object :: "json \<Rightarrow> exn + (ustr \<times> json) list" where
  "answer_object v = (case v of JObj kvs \<Rightarrow> Inr kvs | _ \<Rightarrow> Inl ValueError)"

definition answer_string :: "(ustr \<times> json) list \<Rightarrow> string \<Rightarrow> exn + ustr" where
  "answer_string payload k = (case jget payload k of
      Some (JStr s) \<Rightarrow> if s = [] then Inl ValueError else Inr s
    | _ \<Rightarrow> Inl ValueError)"

definition message_path :: "ustr \<Rightarrow> ustr \<Rightarrow> ustr" where
  "message_path channel_id message_id = lit ''/channels/'' @ channel_id @ lit ''/messages/'' @ message_id"

definition post_message :: "'m discord \<Rightarrow> ustr \<Rightarrow> ustr \<Rightarrow> ('m, exn, ustr) eff" where
  "post_message dc channel_id content =
     bindM (dc_api dc (lit ''POST'') (lit ''/channels/'' @ channel_id @ lit ''/messages'')
         (Some (JObj [(lit ''content'', JStr content)]))) (\<lambda>v.
     bindM (liftE (answer_object v)) (\<lambda>payload. liftE (answer_string payload ''id'')))"

definition add_reaction :: "'m discord \<Rightarrow> ustr \<Rightarrow> ustr \<Rightarrow> ustr \<Rightarrow> ('m, exn, unit) eff" where
  "add_reaction dc channel_id message_id emoji =
     bindM (dc_api dc (lit ''PUT'') (message_path channel_id message_id @ lit ''/reactions/'' @ dc_quote dc emoji @ lit ''/@me'')
         None) (\<lambda>_. ret ())"

definition get_message :: "'m discord \<Rightarrow> ustr \<Rightarrow> ustr \<Rightarrow> ('m, exn, ustr option) eff" where
  "get_message dc channel_id message_id =
     catchM
       (bindM (dc_api dc (lit ''GET'') (message_path channel_id message_id) None) (\<lambda>v.
        bindM (liftE (answer_object v)) (\<lambda>payload.
        bindM (liftE (answer_string payload ''content'')) (\<lambda>content. ret (Some content)))))
       (\<lambda>e. if e = HTTPError 404 then Some (ret None) else None)"

definition reaction_user :: "json \<Rightarrow> exn + ustr \<times> bool" where
  "reaction_user raw_user =
     bindE (answer_object raw_user) (\<lambda>user.
       case (case jget user ''bot'' of None \<Rightarrow> JBool False | Some v \<Rightarrow> v) of
         JBool is_bot \<Rightarrow> bindE (answer_string user ''id'') (\<lambda>i. Inr (i, is_bot))
       | _ \<Rightarrow> Inl ValueError)"

definition get_reaction_users :: "'m discord \<Rightarrow> ustr \<Rightarrow> ustr \<Rightarrow> ustr \<Rightarrow> ('m, exn, (ustr \<times> bool) list) eff" where
  "get_reaction_users dc channel_id message_id emoji =
     bindM (dc_api dc (lit ''GET'') (message_path channel_id message_id @ lit ''/reactions/'' @ dc_quote dc emoji) None)
       (\<lambda>payload. case payload of JArr users \<Rightarrow> liftE (mapE reaction_user users) | _ \<Rightarrow> raise_exn ValueError)"

definition delete_message :: "'m discord \<Rightarrow> ustr \<Rightarrow> ustr \<Rightarrow> ('m, exn, unit) eff" where
  "delete_message dc channel_id message_id =
     bindM (dc_api dc (lit ''DELETE'') (message_path channel_id message_id) None) (\<lambda>_. ret ())"

section \<open>RelocationStore\<close>

definition PENDING_STATUSES :: "relocation_status list" where
  "PENDING_STATUSES = [Reloc_proposed, Reloc_posted, Reloc_approved, Reloc_written, Reloc_ingested]"

definition load_w :: "('m relo_world, exn, relocation_state) eff" where
  "load_w w = (load_state (rw_state w), w)"

definition save_w :: "(relocation_state \<Rightarrow> bool) \<Rightarrow> relocation_state \<Rightarrow> ('m relo_world, exn, unit) eff" where
  "save_w save_fails s = (if save_fails s then raise_exn RelocationError else modM (\<lambda>w. w\<lparr>rw_state := saved_state s\<rparr>))"

definition all_pending :: "('m relo_world, exn, relocation list) eff" where
  "all_pending = bindM load_w (\<lambda>s.
     ret (filter (\<lambda>r. rr_status r \<in> set PENDING_STATUSES) (map snd (rs_relocations s))))"

definition current :: "ustr \<Rightarrow> ('m relo_world, exn, relocation_state \<times> relocation) eff" where
  "current key = bindM load_w (\<lambda>s. case dict_get (rs_relocations s) key of
      None \<Rightarrow> raise_exn RelocationStoreError
    | Some r \<Rightarrow> ret (s, r))"

definition persist :: "(relocation_state \<Rightarrow> bool) \<Rightarrow> relocation_state \<Rightarrow> relocation \<Rightarrow> ('m relo_world, exn, unit) eff" where
  "persist save_fails s r = save_w save_fails (s\<lparr>rs_relocations := dict_set (rs_relocations s) (key_of r) r\<rparr>)"

definition set_message_id ::
    "(relocation_state \<Rightarrow> bool) \<Rightarrow> relocation \<Rightarrow> ustr \<Rightarrow> ustr \<Rightarrow> ('m relo_world, exn, unit) eff" where
  "set_message_id save_fails r message_id channel_id =
     bindM (current (key_of r)) (\<lambda>(s, cur).
       if rr_action_hash cur \<noteq> rr_action_hash r \<or> rr_message_id cur \<noteq> None then raise_exn RelocationStoreError
       else persist save_fails s (cur\<lparr>rr_message_id := Some message_id, rr_channel_id := channel_id\<rparr>))"

definition clear_message_id ::
    "(relocation_state \<Rightarrow> bool) \<Rightarrow> ustr \<Rightarrow> ustr \<Rightarrow> ustr \<Rightarrow> ('m relo_world, exn, unit) eff" where
  "clear_message_id save_fails key bound_hash message_id =
     bindM (current key) (\<lambda>(s, cur).
       if (rr_action_hash cur, rr_message_id cur) = (bound_hash, Some message_id)
       then persist save_fails s (cur\<lparr>rr_message_id := None\<rparr>) else ret ())"

definition update_record :: "(relocation_state \<Rightarrow> bool) \<Rightarrow> relocation \<Rightarrow> ('m relo_world, exn, unit) eff" where
  "update_record save_fails r =
     bindM (current (key_of r)) (\<lambda>(s, cur).
       if rr_action_hash cur \<noteq> rr_action_hash r \<or> rr_message_id cur \<noteq> rr_message_id r
       then raise_exn RelocationStoreError else persist save_fails s r)"

section \<open>RelocateApprovalGate\<close>

record 'm relo_gate =
  rg_record :: relocation
  rg_entry_text :: ustr
  rg_save_fails :: "relocation_state \<Rightarrow> bool"
  rg_discord :: "'m discord"

definition is_http :: "exn \<Rightarrow> bool" where
  "is_http e \<longleftrightarrow> (case e of HTTPError _ \<Rightarrow> True | _ \<Rightarrow> False)"

text \<open>\<open>_TRANSPORT_ERRORS\<close>; \<open>HTTPError\<close> and \<open>TimeoutError\<close> are subclasses of \<open>OSError\<close>.\<close>

definition relo_transport_error :: "exn \<Rightarrow> bool" where
  "relo_transport_error e \<longleftrightarrow> e \<in> {OSError, TimeoutError, KeyError, TypeError} \<or> is_http e \<or> value_error e"

definition as_surface_error :: "('m, exn, 'a) eff \<Rightarrow> ('m, exn, 'a) eff" where
  "as_surface_error m = catchM m (\<lambda>e. if relo_transport_error e then Some (raise_exn ApprovalSurfaceError) else None)"

definition relo_request :: "ustr \<Rightarrow> relocation \<Rightarrow> request" where
  "relo_request key r = \<lparr>rq_key = key, rq_action_hash = rr_action_hash r,
     rq_message_id = (case rr_message_id r of Some m \<Rightarrow> m | None \<Rightarrow> []),
     rq_channel_id = rr_channel_id r, rq_created_at = rr_created_at r\<rparr>"

definition has_message :: "relocation \<Rightarrow> bool" where
  "has_message r \<longleftrightarrow> rr_message_id r \<noteq> None \<and> rr_message_id r \<noteq> Some []"

definition relo_outstanding :: "ustr \<Rightarrow> ('m relo_world, exn, request list) eff" where
  "relo_outstanding key = bindM all_pending (\<lambda>rs.
     ret (map (relo_request key) (filter (\<lambda>r. key_of r = key \<and> has_message r) rs)))"

definition relo_content :: "'m relo_gate \<Rightarrow> request \<Rightarrow> ('m, exn, ustr option) eff" where
  "relo_content rg q =
     catchM (get_message (rg_discord rg) (rq_channel_id q) (rq_message_id q))
       (\<lambda>e. if e = HTTPError 404 then Some (ret None)
            else if relo_transport_error e then Some (raise_exn ApprovalSurfaceError) else None)"

definition relo_probe :: "'m relo_gate \<Rightarrow> request \<Rightarrow> ('m, exn, probe) eff" where
  "relo_probe rg q =
     bindM (relo_content rg q) (\<lambda>content. case content of
         None \<Rightarrow> ret Probe_MISSING
       | Some c \<Rightarrow>
           if \<not> contains c (rq_action_hash q) then ret Probe_BINDING_MISMATCH
           else bindM (as_surface_error
               (bindM (get_reaction_users (rg_discord rg) (rq_channel_id q) (rq_message_id q) CANCEL_EMOJI) (\<lambda>cancelled.
                bindM (get_reaction_users (rg_discord rg) (rq_channel_id q) (rq_message_id q) APPROVE_EMOJI) (\<lambda>approved.
                  ret (cancelled, approved))))) (\<lambda>(cancelled, approved).
             if owner_reacted cancelled (dc_owner_id (rg_discord rg)) then ret Probe_CANCELLED
             else if owner_reacted approved (dc_owner_id (rg_discord rg)) then ret Probe_APPROVED
             else ret Probe_BOUND_PENDING))"

definition relo_delete :: "'m relo_gate \<Rightarrow> request \<Rightarrow> ('m, exn, unit) eff" where
  "relo_delete rg q =
     catchM (delete_message (rg_discord rg) (rq_channel_id q) (rq_message_id q))
       (\<lambda>e. if e = HTTPError 404 then Some (ret ())
            else if relo_transport_error e then Some (raise_exn ApprovalSurfaceError) else None)"

definition relo_drop :: "'m relo_gate \<Rightarrow> request \<Rightarrow> ('m relo_world, exn, unit) eff" where
  "relo_drop rg q = clear_message_id (rg_save_fails rg) (rq_key q) (rq_action_hash q) (rq_message_id q)"

definition relo_post :: "'m relo_gate \<Rightarrow> intent \<Rightarrow> ('m, exn, posted) eff" where
  "relo_post rg i =
     bindM (liftE (render_relocation_approval (rg_record rg) (rg_entry_text rg))) (\<lambda>content.
     bindM (as_surface_error
       (bindM (post_message (rg_discord rg) (in_channel_id i) content) (\<lambda>message_id.
        bindM (add_reaction (rg_discord rg) (in_channel_id i) message_id APPROVE_EMOJI) (\<lambda>_.
        bindM (add_reaction (rg_discord rg) (in_channel_id i) message_id CANCEL_EMOJI) (\<lambda>_. ret message_id)))))
       (\<lambda>message_id. ret \<lparr>po_message_id = message_id, po_channel_id = in_channel_id i\<rparr>))"

definition relo_commit :: "'m relo_gate \<Rightarrow> intent \<Rightarrow> posted \<Rightarrow> ustr \<Rightarrow> ('m relo_world, exn, unit) eff" where
  "relo_commit rg i p created_at =
     set_message_id (rg_save_fails rg) (rg_record rg) (po_message_id p) (po_channel_id p)"

definition relo_gate_ops :: "'m relo_gate \<Rightarrow> 'm relo_world gate" where
  "relo_gate_ops rg = \<lparr>
     g_outstanding = relo_outstanding,
     g_probe = (\<lambda>q. beyond (relo_probe rg q)),
     g_delete = (\<lambda>q. beyond (relo_delete rg q)),
     g_drop = relo_drop rg,
     g_post = (\<lambda>i. beyond (relo_post rg i)),
     g_commit = relo_commit rg\<rparr>"

definition at_host :: "(host \<Rightarrow> 'a \<times> host) \<Rightarrow> ('m relo_world, exn, 'a) eff" where
  "at_host f w = (case f (rw_host w) of (x, h) \<Rightarrow> (Inr x, w\<lparr>rw_host := h\<rparr>))"

definition relo_lease :: "'m relo_world lease" where
  "relo_lease = \<lparr>l_enter = (\<lambda>k. at_host (lease_enter k)),
     l_exit = (\<lambda>owned k w. w\<lparr>rw_host := lease_exit owned k (rw_host w)\<rparr>)\<rparr>"

definition relo_journal :: "py \<Rightarrow> 'm relo_world journal" where
  "relo_journal py = \<lparr>
     j_outstanding = (\<lambda>k w. (journal_outstanding (py_str py) k (rw_host w), w)),
     j_reserve = (\<lambda>k ah c. at_host (\<lambda>h. ((), journal_reserve k ah c h))),
     j_clear = (\<lambda>k. at_host (\<lambda>h. ((), journal_clear k h)))\<rparr>"

definition request_approval ::
    "'m relo_gate \<Rightarrow> py \<Rightarrow> ('m relo_world \<Rightarrow> ustr) \<Rightarrow> ustr \<Rightarrow> ('m relo_world, exn, verdict) eff" where
  "request_approval rg py now channel_id =
     request_owner_approval (relo_gate_ops rg) relo_lease (relo_journal py) now
       \<lparr>in_key = key_of (rg_record rg), in_action_hash = rr_action_hash (rg_record rg), in_channel_id = channel_id\<rparr>"

section \<open>The gate provides the store contract\<close>

definition relo_records :: "'m relo_world \<Rightarrow> relocation list" where
  "relo_records w = (case load_state (rw_state w) of Inl _ \<Rightarrow> []
     | Inr s \<Rightarrow> filter (\<lambda>r. rr_status r \<in> set PENDING_STATUSES) (map snd (rs_relocations s)))"

definition relo_view :: "'m relo_world \<Rightarrow> ustr \<Rightarrow> request list" where
  "relo_view w key = map (relo_request key) (filter (\<lambda>r. key_of r = key \<and> has_message r) (relo_records w))"

text \<open>The state loads, and the gate's own record is in it and not yet done.\<close>

definition relo_ok :: "'m relo_gate \<Rightarrow> 'm relo_world \<Rightarrow> bool" where
  "relo_ok rg w \<longleftrightarrow> (\<exists>s r. load_state (rw_state w) = Inr s
     \<and> dict_get (rs_relocations s) (key_of (rg_record rg)) = Some r \<and> rr_status r \<in> set PENDING_STATUSES)"

definition relo_own :: "'m relo_gate \<Rightarrow> intent \<Rightarrow> bool" where
  "relo_own rg i \<longleftrightarrow> in_key i = key_of (rg_record rg) \<and> in_action_hash i = rr_action_hash (rg_record rg)"

definition named_post :: "posted \<Rightarrow> bool" where
  "named_post p \<longleftrightarrow> po_message_id p \<noteq> []"

text \<open>The record of a key, if it waits under a message.\<close>

definition waiting :: "relocation \<Rightarrow> bool" where
  "waiting r \<longleftrightarrow> rr_status r \<in> set PENDING_STATUSES \<and> has_message r"

lemma filter_key:
  assumes "wf_dict d" and "list_all (\<lambda>(k, r). k = key_of r \<and> rr_version r = STATE_VERSION) d"
  shows "filter (\<lambda>r. key_of r = key \<and> has_message r) (filter (\<lambda>r. rr_status r \<in> set PENDING_STATUSES) (map snd d)) =
    (case dict_get d key of Some r \<Rightarrow> if waiting r then [r] else [] | None \<Rightarrow> [])"
  using assms
proof (induction d)
  case (Cons kr d)
  obtain k r where kr: "kr = (k, r)" by (cases kr)
  with Cons.prems have wf: "wf_dict d" "k \<notin> set (map fst d)" and k: "k = key_of r" by (auto simp: wf_dict_def)
  show ?case
  proof (cases "key = k")
    case True
    have "dict_get d k = None" using wf(2) by (simp add: dict_get_def map_of_eq_None_iff)
    with Cons wf k kr True show ?thesis by (simp add: dict_get_Cons waiting_def)
  next
    case False
    with Cons wf k kr show ?thesis by (simp add: dict_get_Cons)
  qed
qed simp

lemma relo_view_eq:
  assumes "load_state (rw_state w) = Inr s"
  shows "relo_view w key = (case dict_get (rs_relocations s) key of
     Some r \<Rightarrow> if waiting r then [relo_request key r] else [] | None \<Rightarrow> [])"
proof -
  have "state_ok s" using assms by (rule load_state_ok)
  then have "wf_dict (rs_relocations s)" "list_all (\<lambda>(k, r). k = key_of r \<and> rr_version r = STATE_VERSION) (rs_relocations s)"
    by (simp_all add: state_ok_def)
  from filter_key [OF this, of key] assms show ?thesis
    by (simp add: relo_view_def relo_records_def split: option.splits)
qed

lemma get_in_key_order:
  assumes "state_ok s"
  shows "dict_get (rs_relocations (in_key_order s)) k = dict_get (rs_relocations s) k"
proof -
  have "map_of (sort_key fst (rs_relocations s)) = map_of (rs_relocations s)"
    using assms by (intro map_of_inject_set [THEN iffD2]) (simp_all add: state_ok_def wf_dict_def distinct_map)
  then show ?thesis by (simp add: in_key_order_def dict_get_def)
qed

lemma dict_set_subset: "set (dict_set d k v) \<subseteq> insert (k, v) (set d)"
  unfolding dict_set_def by (induction d) auto

lemma state_ok_set:
  assumes "state_ok s" and "rr_version r = STATE_VERSION"
  shows "state_ok (s\<lparr>rs_relocations := dict_set (rs_relocations s) (key_of r) r\<rparr>)"
  using assms dict_set_subset [of "rs_relocations s" "key_of r" r] by (fastforce simp: state_ok_def list_all_iff)

text \<open>What a successful change of one record leaves in the state file.\<close>

lemma persisted:
  assumes "state_ok s" and "rr_version r = STATE_VERSION" and "persist sf s r w = (Inr u, w')"
  shows "\<exists>s'. load_state (rw_state w') = Inr s' \<and>
     (\<forall>k. dict_get (rs_relocations s') k = (if k = key_of r then Some r else dict_get (rs_relocations s) k))"
proof -
  let ?s = "s\<lparr>rs_relocations := dict_set (rs_relocations s) (key_of r) r\<rparr>"
  have ok: "state_ok ?s" by (rule state_ok_set [OF assms(1,2)])
  have "w' = w\<lparr>rw_state := saved_state ?s\<rparr>"
    using assms(3) by (auto simp: persist_def save_w_def run_simps split: if_splits)
  then have "load_state (rw_state w') = Inr (in_key_order ?s)"
    using parse_saved [OF ok] by (simp add: load_state_def saved_state_def)
  moreover have "\<forall>k. dict_get (rs_relocations (in_key_order ?s)) k =
      (if k = key_of r then Some r else dict_get (rs_relocations s) k)"
    using get_in_key_order [OF ok] by simp
  ultimately show ?thesis by blast
qed

lemma current_run:
  "current key w = (Inr (s, r), w') \<longleftrightarrow> load_state (rw_state w) = Inr s \<and> dict_get (rs_relocations s) key = Some r \<and> w' = w"
  by (auto simp: current_def load_w_def run_simps split: option.splits)

lemma current_record:
  assumes "load_state (rw_state w) = Inr s" and "dict_get (rs_relocations s) key = Some r"
  shows "key_of r = key \<and> rr_version r = STATE_VERSION"
proof -
  have "(key, r) \<in> set (rs_relocations s)" using assms(2) by (rule dict_get_in)
  then show ?thesis using load_state_ok [OF assms(1)] by (auto simp: state_ok_def list_all_iff)
qed

lemma relo_cong: "rw_state w' = rw_state w \<Longrightarrow> relo_view w' = relo_view w \<and> relo_ok rg w' = relo_ok rg w"
  by (simp add: relo_view_def relo_records_def relo_ok_def fun_eq_iff)

lemma keeps_relo:
  assumes "\<And>w r w'. m w = (r, w') \<Longrightarrow> rw_state w' = rw_state w"
  shows "keeps (relo_ok rg) relo_view m"
  by (rule keepsI) (simp add: relo_cong [OF assms])

lemma beyond_state: "beyond m w = (r, w') \<Longrightarrow> rw_state w' = rw_state w"
  by (auto simp: beyond_def split: prod.splits)

lemma at_host_state: "at_host f w = (r, w') \<Longrightarrow> rw_state w' = rw_state w"
  by (auto simp: at_host_def split: prod.splits)

lemma relo_drop_view:
  assumes ok: "relo_ok rg w" and run: "relo_drop rg q w = (Inr u, w')" and q: "q \<in> set (relo_view w (rq_key q))"
  shows "relo_ok rg w' \<and> relo_view w' (rq_key q) = filter (\<lambda>r. r \<noteq> q) (relo_view w (rq_key q))"
proof -
  from run obtain s cur where cur: "load_state (rw_state w) = Inr s" "dict_get (rs_relocations s) (rq_key q) = Some cur"
    and rest: "(if (rr_action_hash cur, rr_message_id cur) = (rq_action_hash q, Some (rq_message_id q))
       then persist (rg_save_fails rg) s (cur\<lparr>rr_message_id := None\<rparr>) else ret ()) w = (Inr u, w')"
    by (auto simp: relo_drop_def clear_message_id_def run_simps current_run)
  have view: "relo_view w (rq_key q) = (if waiting cur then [relo_request (rq_key q) cur] else [])"
    using relo_view_eq [OF cur(1)] cur(2) by simp
  with q have wait: "waiting cur" and qeq: "q = relo_request (rq_key q) cur" by (auto split: if_splits)
  then have "(rr_action_hash cur, rr_message_id cur) = (rq_action_hash q, Some (rq_message_id q))"
    by (cases "rr_message_id cur") (auto simp: relo_request_def waiting_def has_message_def dest: arg_cong [of _ _ rq_action_hash] arg_cong [of _ _ rq_message_id])
  with rest have p: "persist (rg_save_fails rg) s (cur\<lparr>rr_message_id := None\<rparr>) w = (Inr u, w')" by simp
  note key = current_record [OF cur]
  from persisted [OF load_state_ok [OF cur(1)] _ p] key obtain s' where s': "load_state (rw_state w') = Inr s'"
    "\<forall>k. dict_get (rs_relocations s') k = (if k = rq_key q then Some (cur\<lparr>rr_message_id := None\<rparr>) else dict_get (rs_relocations s) k)"
    by auto
  have "relo_view w' (rq_key q) = []"
    using relo_view_eq [OF s'(1)] s'(2) by (simp add: waiting_def has_message_def)
  moreover have "relo_ok rg w'"
    using ok s' cur wait by (auto simp: relo_ok_def waiting_def)
  ultimately show ?thesis using view wait qeq by simp
qed

lemma relo_commit_view:
  assumes ok: "relo_ok rg w" and i: "relo_own rg i" and p: "named_post p" and run: "relo_commit rg i p c w = (Inr u, w')"
    and empty: "relo_view w (in_key i) = []"
  shows "relo_ok rg w' \<and> (\<exists>q. relo_view w' (in_key i) = [q] \<and> rq_action_hash q = in_action_hash i
    \<and> rq_message_id q = po_message_id p)"
proof -
  let ?k = "key_of (rg_record rg)"
  from run obtain s cur where cur: "load_state (rw_state w) = Inr s" "dict_get (rs_relocations s) ?k = Some cur"
    and hash: "rr_action_hash cur = rr_action_hash (rg_record rg)"
    and per: "persist (rg_save_fails rg) s (cur\<lparr>rr_message_id := Some (po_message_id p), rr_channel_id := po_channel_id p\<rparr>) w = (Inr u, w')"
    by (auto simp: relo_commit_def set_message_id_def run_simps current_run split: if_splits)
  let ?new = "cur\<lparr>rr_message_id := Some (po_message_id p), rr_channel_id := po_channel_id p\<rparr>"
  note key = current_record [OF cur]
  from persisted [OF load_state_ok [OF cur(1)] _ per] key obtain s' where s': "load_state (rw_state w') = Inr s'"
    "\<forall>k. dict_get (rs_relocations s') k = (if k = ?k then Some ?new else dict_get (rs_relocations s) k)" by auto
  have pend: "rr_status cur \<in> set PENDING_STATUSES" using ok cur by (auto simp: relo_ok_def)
  then have "waiting ?new" using p by (simp add: waiting_def has_message_def named_post_def)
  then have "relo_view w' (in_key i) = [relo_request (in_key i) ?new]"
    using relo_view_eq [OF s'(1)] s'(2) i by (simp add: relo_own_def)
  moreover have "relo_ok rg w'" using s' pend by (auto simp: relo_ok_def)
  ultimately show ?thesis using i hash by (simp add: relo_request_def relo_own_def)
qed

lemma post_message_named: "post_message dc c content w = (Inr m, w') \<Longrightarrow> m \<noteq> []"
proof -
  assume "post_message dc c content w = (Inr m, w')"
  then obtain payload where "answer_string payload ''id'' = Inr m"
    unfolding post_message_def run_simps by blast
  then show ?thesis by (auto simp: answer_string_def split: option.splits json.splits if_splits)
qed

lemma surface_error_run: "as_surface_error m w = (Inr x, w') \<Longrightarrow> m w = (Inr x, w')"
  by (auto simp: as_surface_error_def run_simps split: if_splits)

lemma relo_post_named:
  assumes "relo_post rg i w = (Inr p, w')"
  shows "named_post p"
proof -
  from assms obtain content w1 m w2 where "as_surface_error
       (bindM (post_message (rg_discord rg) (in_channel_id i) content) (\<lambda>message_id.
        bindM (add_reaction (rg_discord rg) (in_channel_id i) message_id APPROVE_EMOJI) (\<lambda>_.
        bindM (add_reaction (rg_discord rg) (in_channel_id i) message_id CANCEL_EMOJI) (\<lambda>_. ret message_id)))) w1 = (Inr m, w2)"
    and p: "po_message_id p = m"
    by (auto simp: relo_post_def bindM_eq_Inr ret_eq)
  then have "m \<noteq> []"
    using surface_error_run post_message_named by (fastforce simp: bindM_eq_Inr ret_eq)
  with p show ?thesis by (simp add: named_post_def)
qed

interpretation relo: approval_store "relo_gate_ops rg" relo_lease "relo_journal py" "relo_own rg" "relo_ok rg"
  relo_view named_post
proof (unfold_locales, goal_cases)
  case (1 k)
  show ?case
    by (rule keeps_relo) (auto simp: relo_gate_ops_def relo_outstanding_def all_pending_def load_w_def eff_simps split: sum.splits)
next
  case (2 w k rs w')
  then show ?case
    by (auto simp: relo_gate_ops_def relo_outstanding_def all_pending_def load_w_def run_simps relo_view_def relo_records_def)
next
  case (3 q)
  show ?case by (rule keeps_relo) (simp add: relo_gate_ops_def beyond_state)
next
  case (4 q)
  show ?case by (rule keeps_relo) (simp add: relo_gate_ops_def beyond_state)
next
  case (5 i)
  show ?case by (rule keeps_relo) (simp add: relo_gate_ops_def beyond_state)
next
  case (6 w i p w')
  then show ?case by (auto simp: relo_gate_ops_def beyond_def split: prod.splits dest: relo_post_named)
next
  case (7 w q k)
  then show ?case by (auto simp: relo_view_def relo_request_def)
next
  case (8 w k)
  then obtain s where "load_state (rw_state w) = Inr s" by (auto simp: relo_ok_def)
  from relo_view_eq [OF this, of k] show ?case by (simp split: option.splits)
next
  case (9 w q u w')
  then show ?case unfolding relo_gate_ops_def gate.simps by (intro relo_drop_view)
next
  case (10 w i p c u w')
  then show ?case unfolding relo_gate_ops_def gate.simps by (intro relo_commit_view)
next
  case (11 k)
  show ?case by (rule keeps_relo) (simp add: relo_lease_def at_host_state)
next
  case (12 w b k)
  then show ?case by (simp add: relo_lease_def relo_ok_def relo_view_def relo_records_def fun_eq_iff)
next
  case (13 k)
  show ?case by (rule keeps_relo) (simp add: relo_journal_def)
next
  case (14 k a c)
  show ?case by (rule keeps_relo) (simp add: relo_journal_def at_host_state)
next
  case (15 k)
  show ?case by (rule keeps_relo) (simp add: relo_journal_def at_host_state)
qed

end
