(* ===== verification/MemoryDelete.thy ===== *)
theory MemoryDelete
  imports MemoryFile
begin

text \<open>
  \<open>automation/memory_curator/deletion.py\<close>: the deletion of one entry of a memory file on disk, with
  every check and every call of the operating system that may fail. A call fails when the argument
  \<open>fails\<close> says so, and a failed write of the backup leaves what the argument \<open>partial\<close> gives. The advisory
  lock excludes other writers, so the file changes only by the function's own steps.
\<close>

section \<open>The disk\<close>

text \<open>The bytes of a file: those of a text in UTF-8 are that text, as the encoding is injective.\<close>

datatype blob = Utf8 ustr | Not_utf8 "nat list"

definition decode_utf8 :: "blob \<Rightarrow> exn + ustr" where
  "decode_utf8 b = (case b of Utf8 s \<Rightarrow> Inr s | Not_utf8 _ \<Rightarrow> Inl UnicodeDecodeError)"

text \<open>What a path is, and what opening it gives when links are followed.\<close>

datatype followed = Leads_nowhere | Leads_elsewhere | Leads_to blob

datatype node = Node_missing | Node_symlink followed | Node_other | Node_file blob

fun follow :: "node \<Rightarrow> followed" where
  "follow Node_missing = Leads_nowhere"
| "follow (Node_symlink target) = target"
| "follow Node_other = Leads_elsewhere"
| "follow (Node_file data) = Leads_to data"

fun is_symlink :: "node \<Rightarrow> bool" where
  "is_symlink (Node_symlink _) = True"
| "is_symlink _ = False"

record mem_disk =
  md_nodes :: "memory_kind \<Rightarrow> node"
  md_locked :: "memory_kind \<Rightarrow> bool"
  md_backups :: "(memory_kind \<times> ustr, blob) dict"

datatype disk_call =
    Call_lock_open | Call_lock_regular | Call_flock | Call_read | Call_backup_open
  | Call_backup_write | Call_mkstemp | Call_replace | Call_read_back

record disk_faults =
  fails :: "disk_call \<Rightarrow> bool"
  partial :: "blob \<Rightarrow> blob"

type_synonym 'a disk_eff = "(mem_disk, exn, 'a) eff"

section \<open>Deletion\<close>

record deletion_outcome =
  do_backup :: "memory_kind \<times> ustr"
  do_before_chars :: nat
  do_after_chars :: nat

definition call :: "disk_faults \<Rightarrow> disk_call \<Rightarrow> unit disk_eff" where
  "call df c = ensure (\<not> fails df c) DeletionError"

definition read_regular_file :: "disk_faults \<Rightarrow> disk_call \<Rightarrow> memory_kind \<Rightarrow> blob disk_eff" where
  "read_regular_file df c kind =
     bindM (call df c) (\<lambda>_.
     bindM (getM (\<lambda>w. md_nodes w kind)) (\<lambda>n. case n of Node_file data \<Rightarrow> ret data | _ \<Rightarrow> raise_exn DeletionError))"

text \<open>The path checks, and the lock file opened and locked.\<close>

definition take_lock :: "disk_faults \<Rightarrow> memory_kind \<Rightarrow> unit disk_eff" where
  "take_lock df kind =
     bindM (getM (\<lambda>w. md_nodes w kind)) (\<lambda>n.
     bindM (ensure (n \<noteq> Node_missing) DeletionError) (\<lambda>_.
     bindM (ensure (\<not> is_symlink n) DeletionError) (\<lambda>_.
     bindM (ensure (n \<noteq> Node_other) DeletionError) (\<lambda>_.
     bindM (call df Call_lock_open) (\<lambda>_.
     bindM (call df Call_lock_regular) (\<lambda>_.
     bindM (getM (\<lambda>w. md_locked w kind)) (\<lambda>held.
     bindM (ensure (\<not> held) DeletionError) (\<lambda>_. call df Call_flock))))))))"

definition write_backup :: "disk_faults \<Rightarrow> memory_kind \<Rightarrow> ustr \<Rightarrow> blob \<Rightarrow> unit disk_eff" where
  "write_backup df kind stamp data =
     bindM (getM (\<lambda>w. dict_get (md_backups w) (kind, stamp))) (\<lambda>present.
     bindM (ensure (present = None) DeletionError) (\<lambda>_.
     bindM (call df Call_backup_open) (\<lambda>_.
       if fails df Call_backup_write
       then bindM (modM (\<lambda>w. w\<lparr>md_backups := dict_set (md_backups w) (kind, stamp) (partial df data)\<rparr>)) (\<lambda>_.
              raise_exn DeletionError)
       else modM (\<lambda>w. w\<lparr>md_backups := dict_set (md_backups w) (kind, stamp) data\<rparr>))))"

definition replace_file :: "disk_faults \<Rightarrow> memory_kind \<Rightarrow> blob \<Rightarrow> unit disk_eff" where
  "replace_file df kind data =
     bindM (call df Call_mkstemp) (\<lambda>_.
     bindM (call df Call_replace) (\<lambda>_.
       modM (\<lambda>w. w\<lparr>md_nodes := (md_nodes w)(kind := Node_file data)\<rparr>)))"

definition deletion_error :: "exn + 'a \<Rightarrow> 'a disk_eff" where
  "deletion_error r = (case r of Inl _ \<Rightarrow> raise_exn DeletionError | Inr x \<Rightarrow> ret x)"

definition verify_deletion ::
    "disk_faults \<Rightarrow> memory_kind \<Rightarrow> memory_file \<Rightarrow> ustr \<Rightarrow> blob \<Rightarrow> unit disk_eff" where
  "verify_deletion df kind original removed rewritten_bytes =
     bindM (read_regular_file df Call_read_back kind) (\<lambda>read_back.
     bindM (deletion_error (decode_utf8 read_back)) (\<lambda>source.
       let verified = parse_memory_file kind source;
           has_expected_count = length (mf_entries verified) = length (mf_entries original) - 1;
           removed_is_absent = list_all (\<lambda>e. e \<noteq> removed) (mf_entries verified) in
       ensure (\<not> (read_back \<noteq> rewritten_bytes \<or> \<not> has_expected_count \<or> \<not> removed_is_absent)) DeletionError))"

definition delete_entry ::
    "disk_faults \<Rightarrow> memory_kind \<Rightarrow> int \<Rightarrow> blob \<Rightarrow> ustr \<Rightarrow> deletion_outcome disk_eff" where
  "delete_entry df kind index expected_bytes stamp =
     bindM (take_lock df kind) (\<lambda>_.
     bindM (read_regular_file df Call_read kind) (\<lambda>data.
     bindM (ensure (data = expected_bytes) DeletionError) (\<lambda>_.
     bindM (deletion_error (decode_utf8 data)) (\<lambda>source.
       let original = parse_memory_file kind source in
       bindM (ensure (0 \<le> index \<and> index < int (length (mf_entries original))) DeletionError) (\<lambda>_.
       let removed = mf_entries original ! nat index;
           rewritten = original\<lparr>mf_entries := without (nat index) (mf_entries original)\<rparr>;
           rewritten_bytes = Utf8 (serialize_memory_file rewritten) in
       bindM (write_backup df kind stamp data) (\<lambda>_.
       bindM (replace_file df kind rewritten_bytes) (\<lambda>_.
       bindM (verify_deletion df kind original removed rewritten_bytes) (\<lambda>_.
         ret \<lparr>do_backup = (kind, stamp), do_before_chars = char_count original,
              do_after_chars = char_count rewritten\<rparr>))))))))"

text \<open>\<open>read_native\<close> of \<open>watch_steps.py\<close>: a missing file is an empty one, and a link is followed. What leads
  to no regular file raises \<open>OSError\<close>.\<close>

definition read_native :: "memory_kind \<Rightarrow> (blob \<times> memory_file) disk_eff" where
  "read_native kind =
     bindM (getM (\<lambda>w. follow (md_nodes w kind))) (\<lambda>n.
     bindM (case n of Leads_nowhere \<Rightarrow> ret (Utf8 []) | Leads_to data \<Rightarrow> ret data | Leads_elsewhere \<Rightarrow> raise_exn OSError) (\<lambda>data.
     bindM (liftE (decode_utf8 data)) (\<lambda>source. ret (data, parse_memory_file kind source))))"

lemma read_native_run:
  assumes "read_native kind w = (res, w1)"
  shows "w1 = w" "res = Inr (bytes, f) \<Longrightarrow> \<exists>source. bytes = Utf8 source \<and> f = parse_memory_file kind source"
  using assms
  by (auto simp: read_native_def eff_simps liftE_def decode_utf8_def split: followed.splits sum.splits blob.splits)

section \<open>What a deletion does to the disk\<close>

definition on_disk :: "mem_disk \<Rightarrow> memory_kind \<Rightarrow> ustr \<Rightarrow> bool" where
  "on_disk w kind source \<longleftrightarrow> md_nodes w kind = Node_file (Utf8 source)"

definition rewritten_source :: "memory_kind \<Rightarrow> ustr \<Rightarrow> nat \<Rightarrow> ustr" where
  "rewritten_source kind source i =
     serialize_memory_file \<lparr>mf_kind = kind, mf_entries = without i (mf_entries (parse_memory_file kind source))\<rparr>"

lemma set_without: "set (without i xs) \<subseteq> set xs"
  by (auto simp: without_def dest: in_set_takeD in_set_dropD)

lemma parse_rewritten:
  "parse_memory_file kind (rewritten_source kind source i) =
     \<lparr>mf_kind = kind, mf_entries = without i (mf_entries (parse_memory_file kind source))\<rparr>"
proof -
  have "list_all entry_ok (without i (mf_entries (parse_memory_file kind source)))"
    using parse_ok [of kind source] set_without by (fastforce simp: list_all_iff)
  then show ?thesis
    using parse_serialize [of "\<lparr>mf_kind = kind, mf_entries = without i (mf_entries (parse_memory_file kind source))\<rparr>"]
    by (simp add: rewritten_source_def)
qed

lemma parse_kind [simp]: "mf_kind (parse_memory_file kind source) = kind"
  by (simp add: parse_memory_file_def)

lemma parse_update: "(parse_memory_file kind source)\<lparr>mf_entries := es\<rparr> = \<lparr>mf_kind = kind, mf_entries = es\<rparr>"
  by (simp add: parse_memory_file_def)

named_theorems delete_defs \<open>the steps of a deletion\<close>

declare delete_entry_def [delete_defs] take_lock_def [delete_defs] read_regular_file_def [delete_defs]
  write_backup_def [delete_defs] replace_file_def [delete_defs] verify_deletion_def [delete_defs]
  call_def [delete_defs]

lemma wp_case_node:
  "wp (case n of Node_file data \<Rightarrow> m data | Node_missing \<Rightarrow> m1 | Node_symlink t \<Rightarrow> m2 | Node_other \<Rightarrow> m3) Q E w =
     (case n of Node_file data \<Rightarrow> wp (m data) Q E w | Node_missing \<Rightarrow> wp m1 Q E w
      | Node_symlink t \<Rightarrow> wp m2 Q E w | Node_other \<Rightarrow> wp m3 Q E w)"
  by (cases n) simp_all

lemma wp_deletion_error [simp, wp_simps]:
  "wp (deletion_error r) Q E = (case r of Inl _ \<Rightarrow> E DeletionError | Inr x \<Rightarrow> Q x)"
  by (cases r) (simp_all add: deletion_error_def)

text \<open>What a run may have done to the disk: nothing but perhaps a backup file, or the one entry is gone and
  the backup holds the bytes that were there.\<close>

definition deleted_one :: "memory_kind \<Rightarrow> int \<Rightarrow> blob \<Rightarrow> ustr \<Rightarrow> mem_disk \<Rightarrow> mem_disk \<Rightarrow> bool" where
  "deleted_one kind i expected stamp w w' \<longleftrightarrow> (\<exists>source. on_disk w kind source \<and> expected = Utf8 source
     \<and> 0 \<le> i \<and> nat i < length (mf_entries (parse_memory_file kind source))
     \<and> dict_get (md_backups w) (kind, stamp) = None
     \<and> md_nodes w' = (md_nodes w)(kind := Node_file (Utf8 (rewritten_source kind source (nat i))))
     \<and> dict_get (md_backups w') (kind, stamp) = Some (Utf8 source))"

definition other_entries_differ :: "memory_kind \<Rightarrow> blob \<Rightarrow> int \<Rightarrow> bool" where
  "other_entries_differ kind data i \<longleftrightarrow> (case data of Not_utf8 _ \<Rightarrow> False | Utf8 source \<Rightarrow>
     (let es = mf_entries (parse_memory_file kind source) in es ! nat i \<notin> set (without (nat i) es)))"

lemma wp_take_lock:
  "E DeletionError w \<Longrightarrow> (md_nodes w kind \<notin> {Node_missing, Node_other} \<Longrightarrow> \<not> is_symlink (md_nodes w kind) \<Longrightarrow> \<not> md_locked w kind \<Longrightarrow>
     \<not> fails df Call_lock_open \<Longrightarrow> \<not> fails df Call_lock_regular \<Longrightarrow> \<not> fails df Call_flock \<Longrightarrow> Q () w) \<Longrightarrow>
   wp (take_lock df kind) Q E w"
  by (simp add: take_lock_def call_def)

lemma wp_read_regular:
  "E DeletionError w \<Longrightarrow> (\<And>data. md_nodes w kind = Node_file data \<Longrightarrow> \<not> fails df c \<Longrightarrow> Q data w) \<Longrightarrow>
   wp (read_regular_file df c kind) Q E w"
  by (simp add: read_regular_file_def call_def wp_case_node split: node.splits)

lemma wp_write_backup:
  assumes "\<And>w'. md_nodes w' = md_nodes w \<Longrightarrow> E DeletionError w'"
    and "\<And>w'. md_nodes w' = md_nodes w \<Longrightarrow> dict_get (md_backups w) (kind, stamp) = None \<Longrightarrow>
      dict_get (md_backups w') (kind, stamp) = Some data \<Longrightarrow> \<not> fails df Call_backup_open \<Longrightarrow>
      \<not> fails df Call_backup_write \<Longrightarrow> Q () w'"
  shows "wp (write_backup df kind stamp data) Q E w"
  using assms by (simp add: write_backup_def call_def)

lemma wp_replace_file:
  "E DeletionError w \<Longrightarrow> (\<not> fails df Call_mkstemp \<Longrightarrow> \<not> fails df Call_replace \<Longrightarrow>
     Q () (w\<lparr>md_nodes := (md_nodes w)(kind := Node_file data)\<rparr>)) \<Longrightarrow>
   wp (replace_file df kind data) Q E w"
  by (simp add: replace_file_def call_def)

lemma verify_rewritten:
  assumes "md_nodes w kind = Node_file (Utf8 (rewritten_source kind source i))"
    and "i < length (mf_entries (parse_memory_file kind source))"
  shows "wp (verify_deletion df kind (parse_memory_file kind source) removed (Utf8 (rewritten_source kind source i))) Q E w \<longleftrightarrow>
    (if \<not> fails df Call_read_back \<and> removed \<notin> set (without i (mf_entries (parse_memory_file kind source)))
     then Q () w else E DeletionError w)"
  using assms
  by (auto simp: verify_deletion_def read_regular_file_def call_def decode_utf8_def Let_def parse_rewritten
      length_without list_all_iff)

lemma wp_delete_entry:
  assumes fail: "\<And>w'. md_nodes w' = md_nodes w \<or> deleted_one kind i expected stamp w w' \<Longrightarrow> E DeletionError w'"
    and ok: "\<And>out w'. deleted_one kind i expected stamp w w' \<Longrightarrow> other_entries_differ kind expected i \<Longrightarrow>
      \<not> md_locked w kind \<Longrightarrow>
      do_backup out = (kind, stamp) \<Longrightarrow>
      (\<exists>source. expected = Utf8 source \<and> do_before_chars out = char_count (parse_memory_file kind source) \<and>
        do_after_chars out = char_count (parse_memory_file kind (rewritten_source kind source (nat i)))) \<Longrightarrow> Q out w'"
  shows "wp (delete_entry df kind i expected stamp) Q E w"
  unfolding delete_entry_def wp_bindM [of "take_lock df kind"]
proof (rule wp_take_lock, goal_cases)
  case 1
  then show ?case by (rule fail) simp
next
  case 2
  note lock = this
  show ?case
    unfolding wp_bindM [of "read_regular_file df c kind" for c]
  proof (rule wp_read_regular, goal_cases)
    case 1
    then show ?case by (rule fail) simp
  next
    case (2 data)
    show ?case
    proof (cases "data = expected")
      case False
      then show ?thesis by (simp add: fail)
    next
      case data: True
      show ?thesis
      proof (cases expected)
        case (Not_utf8 bs)
        with data show ?thesis by (simp add: decode_utf8_def fail)
      next
        case (Utf8 source)
        let ?f = "parse_memory_file kind source"
        have disk: "on_disk w kind source" using 2 data Utf8 by (simp add: on_disk_def)
        show ?thesis
        proof (cases "0 \<le> i \<and> i < int (length (mf_entries ?f))")
          case False
          with data Utf8 show ?thesis by (auto simp: decode_utf8_def fail Let_def)
        next
          case True
          then have range: "0 \<le> i" "nat i < length (mf_entries ?f)" by auto
          have "wp (write_backup df kind stamp data) (\<lambda>_. wp (bindM (replace_file df kind (Utf8 (rewritten_source kind source (nat i)))) (\<lambda>_.
             bindM (verify_deletion df kind ?f (mf_entries ?f ! nat i) (Utf8 (rewritten_source kind source (nat i)))) (\<lambda>_.
             ret \<lparr>do_backup = (kind, stamp), do_before_chars = char_count ?f,
              do_after_chars = char_count (?f\<lparr>mf_entries := without (nat i) (mf_entries ?f)\<rparr>)\<rparr>))) Q E) E w"
          proof (rule wp_write_backup, goal_cases)
            case (1 w')
            then show ?case by (rule fail [OF disjI1])
          next
            case (2 w')
            let ?w2 = "w'\<lparr>md_nodes := (md_nodes w')(kind := Node_file (Utf8 (rewritten_source kind source (nat i))))\<rparr>"
            have del: "deleted_one kind i expected stamp w ?w2"
              using 2 disk Utf8 data range unfolding deleted_one_def by (intro exI [of _ source]) simp
            have after: "?f\<lparr>mf_entries := without (nat i) (mf_entries ?f)\<rparr> = parse_memory_file kind (rewritten_source kind source (nat i))"
              unfolding parse_rewritten parse_update ..
            show ?case
              unfolding wp_bindM [of "replace_file df kind x" for x]
            proof (rule wp_replace_file, goal_cases)
              case 1
              then show ?case using 2(1) by (rule fail [OF disjI1])
            next
              case 2
              show ?case
                unfolding wp_bindM
                by (subst verify_rewritten) (use range del Utf8 lock in
                  \<open>auto simp: after other_entries_differ_def Let_def intro!: fail ok [OF del]\<close>)
            qed
          qed
          with True data Utf8 show ?thesis
            by (simp add: decode_utf8_def Let_def rewritten_source_def parse_update)
        qed
      qed
    qed
  qed
qed

lemma char_count_rewritten:
  "char_count (parse_memory_file kind (rewritten_source kind source i)) =
     char_count ((parse_memory_file kind source)\<lparr>mf_entries := without i (mf_entries (parse_memory_file kind source))\<rparr>)"
  unfolding parse_rewritten parse_update ..

lemma delete_entry_spec:
  assumes "delete_entry df kind i expected stamp w = (r, w')"
  shows "(md_nodes w' = md_nodes w \<or> deleted_one kind i expected stamp w w') \<and>
    (case r of Inl e \<Rightarrow> e = DeletionError
     | Inr out \<Rightarrow> deleted_one kind i expected stamp w w' \<and> other_entries_differ kind expected i
         \<and> (\<exists>source. expected = Utf8 source \<and> reclaimable_chars (parse_memory_file kind source) i =
              Inr (int (do_before_chars out) - int (do_after_chars out))))"
proof -
  have "wp (delete_entry df kind i expected stamp)
     (\<lambda>out w'. deleted_one kind i expected stamp w w' \<and> other_entries_differ kind expected i
         \<and> (\<exists>source. expected = Utf8 source \<and> reclaimable_chars (parse_memory_file kind source) i =
              Inr (int (do_before_chars out) - int (do_after_chars out))))
     (\<lambda>e w'. e = DeletionError \<and> (md_nodes w' = md_nodes w \<or> deleted_one kind i expected stamp w w')) w"
  proof (rule wp_delete_entry, goal_cases)
    case (2 out w')
    from 2(1) obtain source where "expected = Utf8 source" "0 \<le> i" "nat i < length (mf_entries (parse_memory_file kind source))"
      unfolding deleted_one_def by blast
    with 2 show ?case by (auto simp: char_count_rewritten reclaimable_chars_def)
  qed simp
  from wp_D1 [OF this] wp_D2 [OF this] assms show ?thesis by (cases r) auto
qed


text \<open>With no failing call it returns exactly when the file holds the expected text, nobody holds the
  lock, the index is in range, the backup is new and no other entry is equal.\<close>

definition deletable :: "memory_kind \<Rightarrow> int \<Rightarrow> ustr \<Rightarrow> ustr \<Rightarrow> mem_disk \<Rightarrow> bool" where
  "deletable kind i source stamp w \<longleftrightarrow> on_disk w kind source \<and> \<not> md_locked w kind
     \<and> 0 \<le> i \<and> i < int (length (mf_entries (parse_memory_file kind source)))
     \<and> dict_get (md_backups w) (kind, stamp) = None \<and> other_entries_differ kind (Utf8 source) i"

lemma delete_entry_returns:
  assumes "\<And>c. \<not> fails df c"
  shows "is_Inr (fst (delete_entry df kind i (Utf8 source) stamp w)) \<longleftrightarrow> deletable kind i source stamp w"
proof
  assume "is_Inr (fst (delete_entry df kind i (Utf8 source) stamp w))"
  then obtain out w' where run: "delete_entry df kind i (Utf8 source) stamp w = (Inr out, w')"
    by (cases "delete_entry df kind i (Utf8 source) stamp w") (auto simp: is_Inr_def split: sum.splits)
  have "\<not> md_locked w kind"
    using run by (auto simp: delete_entry_def take_lock_def call_def run_simps)
  with delete_entry_spec [OF run] show "deletable kind i source stamp w"
    by (auto simp: deletable_def deleted_one_def)
next
  assume d: "deletable kind i source stamp w"
  define w2 where "w2 = w\<lparr>md_backups := dict_set (md_backups w) (kind, stamp) (Utf8 source),
      md_nodes := (md_nodes w)(kind := Node_file (Utf8 (rewritten_source kind source (nat i))))\<rparr>"
  have lock: "take_lock df kind w = (Inr (), w)"
    using d assms by (simp add: take_lock_def call_def eff_simps deletable_def on_disk_def)
  have read: "read_regular_file df Call_read kind w = (Inr (Utf8 source), w)"
    using d assms by (simp add: read_regular_file_def call_def eff_simps deletable_def on_disk_def)
  have backup: "write_backup df kind stamp (Utf8 source) w =
      (Inr (), w\<lparr>md_backups := dict_set (md_backups w) (kind, stamp) (Utf8 source)\<rparr>)"
    using d assms by (simp add: write_backup_def call_def eff_simps deletable_def)
  have repl: "replace_file df kind (Utf8 (rewritten_source kind source (nat i)))
      (w\<lparr>md_backups := dict_set (md_backups w) (kind, stamp) (Utf8 source)\<rparr>) = (Inr (), w2)"
    using assms by (simp add: replace_file_def call_def eff_simps w2_def)
  have "wp (verify_deletion df kind (parse_memory_file kind source)
      (mf_entries (parse_memory_file kind source) ! nat i) (Utf8 (rewritten_source kind source (nat i)))) (\<lambda>_ _. True) (\<lambda>_ _. False) w2"
    using d assms by (subst verify_rewritten) (auto simp: w2_def deletable_def other_entries_differ_def Let_def)
  then obtain w3 where ver: "verify_deletion df kind (parse_memory_file kind source)
      (mf_entries (parse_memory_file kind source) ! nat i) (Utf8 (rewritten_source kind source (nat i))) w2 = (Inr (), w3)"
    by (auto simp: wp_def split: prod.splits sum.splits)
  show "is_Inr (fst (delete_entry df kind i (Utf8 source) stamp w))"
    using d lock read backup repl ver
    by (simp add: delete_entry_def eff_simps decode_utf8_def deletion_error_def Let_def deletable_def
        rewritten_source_def parse_update is_Inr_def)
qed

section \<open>Witnesses\<close>

definition no_faults :: disk_faults where
  "no_faults = \<lparr>fails = (\<lambda>_. False), partial = (\<lambda>b. b)\<rparr>"

definition disk_of :: "ustr \<Rightarrow> mem_disk" where
  "disk_of source = \<lparr>md_nodes = (\<lambda>k. if k = Kind_memory then Node_file (Utf8 source) else Node_missing),
     md_locked = (\<lambda>_. False), md_backups = []\<rparr>"

definition two_entries :: "ustr \<Rightarrow> ustr \<Rightarrow> ustr" where
  "two_entries a b = join JOIN [a, b]"

lemma sample_entries: "entry_ok (lit ''a'')" "entry_ok (lit ''b'')"
  by (simp_all add: entry_ok_def lit_def strip_def lstrip_def rstrip_def is_space_def only_nl_def line_break_def section_line_def
      SECTION_SIGN_def)

lemma parse_two_entries:
  "entry_ok a \<Longrightarrow> entry_ok b \<Longrightarrow> parse_memory_file k (two_entries a b) = \<lparr>mf_kind = k, mf_entries = [a, b]\<rparr>"
  using parse_serialized [of "[a, b]"] by (simp add: parse_memory_file_def two_entries_def)


text \<open>When an equal entry is left, the check comes too late: the file is rewritten and the function
  raises.\<close>

lemma duplicate_deletes_then_raises:
  "\<exists>w'. delete_entry no_faults Kind_memory 0 (Utf8 (two_entries (lit ''a'') (lit ''a''))) (lit ''now'')
       (disk_of (two_entries (lit ''a'') (lit ''a''))) = (Inl DeletionError, w')
     \<and> on_disk w' Kind_memory (lit ''a'')"
proof -
  let ?s = "two_entries (lit ''a'') (lit ''a'')" and ?k = Kind_memory
  have parse: "parse_memory_file ?k ?s = \<lparr>mf_kind = ?k, mf_entries = [lit ''a'', lit ''a'']\<rparr>"
    by (rule parse_two_entries [OF sample_entries(1,1)])
  have rw: "rewritten_source ?k ?s 0 = lit ''a''"
    by (simp add: rewritten_source_def parse without_def serialize_memory_file_def)
  have parse1: "parse_memory_file ?k (lit ''a'') = \<lparr>mf_kind = ?k, mf_entries = [lit ''a'']\<rparr>"
    using parse_rewritten [of ?k ?s 0] by (simp add: rw parse without_def)
  show ?thesis
    by (simp add: delete_entry_def take_lock_def read_regular_file_def write_backup_def replace_file_def
        verify_deletion_def call_def eff_simps no_faults_def disk_of_def decode_utf8_def deletion_error_def
        parse parse1 without_def Let_def serialize_memory_file_def on_disk_def)
qed

end
