(* ===== verification/Relocate.thy ===== *)
theory Relocate
  imports RelocateGate MemoryDelete
begin

text \<open>
  The relocation of memory entries: \<open>apply.py\<close> (the deletion behind its checks), \<open>watch_step.py\<close> (one tick of
  the state machine over its effects) and the effects and the tick of \<open>effects_live.py\<close> and
  \<open>cron/memory_relocate_watch.py\<close> of \<open>automation/memory_relocate\<close>. Writing the note (a git push of another
  module) and the classifier are arguments.
\<close>

section \<open>apply_relocation\<close>

record apply_outcome =
  ao_deleted :: bool
  ao_reason :: "ustr option"
  ao_backup_path :: "ustr option"
  ao_freed_chars :: int

record apply_deps =
  ad_sha256 :: "blob \<Rightarrow> ustr"
  ad_read_twin :: "ustr \<Rightarrow> blob option"
  ad_verify_rag :: "ustr \<Rightarrow> ustr \<Rightarrow> exn + bool"
  ad_recompute_action_hash :: "relocation \<Rightarrow> ustr"
  ad_stamp :: ustr
  ad_faults :: disk_faults
  ad_backup_name :: "memory_kind \<times> ustr \<Rightarrow> ustr"

definition blocked_outcome :: "string \<Rightarrow> apply_outcome" where
  "blocked_outcome reason = \<lparr>ao_deleted = False, ao_reason = Some (lit reason), ao_backup_path = None, ao_freed_chars = 0\<rparr>"

definition matching_indices :: "(blob \<Rightarrow> ustr) \<Rightarrow> relocation \<Rightarrow> memory_file \<Rightarrow> nat list" where
  "matching_indices sha r f =
     filter (\<lambda>i. entry_digest (\<lambda>s. sha (Utf8 s)) (rr_source_kind r) (mf_entries f ! i) = rr_entry_sha256 r)
       [0..<length (mf_entries f)]"

definition note_missing :: "apply_deps \<Rightarrow> relocation \<Rightarrow> bool" where
  "note_missing ad r = (case ad_read_twin ad (rr_note_relpath r) of
      None \<Rightarrow> True
    | Some note_bytes \<Rightarrow> (case rr_note_content_sha256 r of
         None \<Rightarrow> False | Some expected \<Rightarrow> ad_sha256 ad note_bytes \<noteq> expected))"

definition delete_matching :: "apply_deps \<Rightarrow> relocation \<Rightarrow> apply_outcome disk_eff" where
  "delete_matching ad r =
     bindM (read_native (rr_source_kind r)) (\<lambda>(current_bytes, f).
       case matching_indices (ad_sha256 ad) r f of
         [] \<Rightarrow> ret (blocked_outcome ''entry_absent'')
       | [i] \<Rightarrow>
           catchM
             (bindM (delete_entry (ad_faults ad) (rr_source_kind r) (int i) current_bytes (ad_stamp ad)) (\<lambda>out.
               ret \<lparr>ao_deleted = True, ao_reason = None, ao_backup_path = Some (ad_backup_name ad (do_backup out)),
                    ao_freed_chars = int (do_before_chars out) - int (do_after_chars out)\<rparr>))
             (\<lambda>e. if e = DeletionError then Some (ret (blocked_outcome ''entry_absent'')) else None)
       | _ \<Rightarrow> ret (blocked_outcome ''entry_ambiguous''))"

definition apply_relocation :: "apply_deps \<Rightarrow> relocation \<Rightarrow> ustr \<Rightarrow> apply_outcome disk_eff" where
  "apply_relocation ad r note_body =
     (if rr_status r \<notin> {Reloc_approved, Reloc_written} then ret (blocked_outcome ''not_approved'')
      else if ad_recompute_action_hash ad r \<noteq> rr_action_hash r then ret (blocked_outcome ''action_hash_drift'')
      else if note_missing ad r then ret (blocked_outcome ''obsidian_not_written'')
      else bindM (liftE (ad_verify_rag ad (rr_note_relpath r) note_body)) (\<lambda>verified.
        if \<not> verified then ret (blocked_outcome ''rag_not_ingested'') else delete_matching ad r))"

section \<open>resolve_tick\<close>

record 'w resolve_effects =
  ef_post_approval :: "relocation \<Rightarrow> ('w, exn, ustr option) eff"
  ef_probe_reaction :: "relocation \<Rightarrow> ('w, exn, ustr) eff"
  ef_write_obsidian :: "relocation \<Rightarrow> ('w, exn, (ustr \<times> ustr) option) eff"
  ef_verify_rag :: "relocation \<Rightarrow> ('w, exn, bool) eff"
  ef_apply_delete :: "relocation \<Rightarrow> ('w, exn, apply_outcome) eff"
  ef_now :: ustr

record tick_state =
  tk_relocations :: "(ustr, relocation) dict"
  tk_posted :: "ustr list"
  tk_written :: "ustr list"
  tk_reconciled :: "ustr list"
  tk_abandoned :: "ustr list"

definition put :: "ustr \<Rightarrow> relocation \<Rightarrow> tick_state \<Rightarrow> tick_state" where
  "put key r tk = tk\<lparr>tk_relocations := dict_set (tk_relocations tk) key r\<rparr>"

definition tick_proposed :: "'w resolve_effects \<Rightarrow> int \<Rightarrow> ustr \<Rightarrow> relocation \<Rightarrow> tick_state \<Rightarrow> ('w, exn, tick_state) eff" where
  "tick_proposed ef max_posts key r tk =
     (if int (length (tk_posted tk)) \<ge> max_posts \<or> rr_message_id r \<noteq> None then ret tk
      else bindM (ef_post_approval ef r) (\<lambda>message_id. case message_id of
          None \<Rightarrow> ret tk
        | Some m \<Rightarrow> if m = [] then ret tk
            else ret ((put key (r\<lparr>rr_status := Reloc_posted, rr_message_id := Some m\<rparr>) tk)
              \<lparr>tk_posted := tk_posted tk @ [key]\<rparr>)))"

definition tick_posted :: "'w resolve_effects \<Rightarrow> ustr \<Rightarrow> relocation \<Rightarrow> tick_state \<Rightarrow> ('w, exn, tick_state) eff" where
  "tick_posted ef key r tk =
     bindM (ef_probe_reaction ef r) (\<lambda>verdict.
       if verdict = lit ''approved''
         then ret (put key (r\<lparr>rr_status := Reloc_approved, rr_approved_at := Some (ef_now ef)\<rparr>) tk)
       else if verdict = lit ''cancelled''
         then ret ((put key (r\<lparr>rr_status := Reloc_abandoned\<rparr>) tk)\<lparr>tk_abandoned := tk_abandoned tk @ [key]\<rparr>)
       else if verdict = lit ''missing''
         then ret (put key (r\<lparr>rr_status := Reloc_proposed, rr_message_id := None\<rparr>) tk)
       else ret tk)"

definition tick_approved :: "'w resolve_effects \<Rightarrow> ustr \<Rightarrow> relocation \<Rightarrow> tick_state \<Rightarrow> ('w, exn, tick_state) eff" where
  "tick_approved ef key r tk =
     bindM (ef_write_obsidian ef r) (\<lambda>receipt. case receipt of
         None \<Rightarrow> ret tk
       | Some (remote_ref, content_sha) \<Rightarrow>
           ret ((put key (r\<lparr>rr_status := Reloc_written, rr_remote_ref := Some remote_ref,
                  rr_note_content_sha256 := Some content_sha, rr_written_at := Some (ef_now ef)\<rparr>) tk)
             \<lparr>tk_written := tk_written tk @ [key]\<rparr>))"

definition tick_written :: "'w resolve_effects \<Rightarrow> ustr \<Rightarrow> relocation \<Rightarrow> tick_state \<Rightarrow> ('w, exn, tick_state) eff" where
  "tick_written ef key r tk =
     bindM (ef_verify_rag ef r) (\<lambda>verified.
       if \<not> verified then ret tk
       else bindM (ef_apply_delete ef r) (\<lambda>out.
         if ao_deleted out
         then ret ((put key (r\<lparr>rr_status := Reloc_reconciled, rr_reconciled_at := Some (ef_now ef),
                  rr_backup_path := ao_backup_path out, rr_last_block_reason := None\<rparr>) tk)
                \<lparr>tk_reconciled := tk_reconciled tk @ [key]\<rparr>)
         else ret (put key (r\<lparr>rr_last_block_reason := ao_reason out\<rparr>) tk)))"

definition tick_key :: "'w resolve_effects \<Rightarrow> int \<Rightarrow> ustr \<Rightarrow> tick_state \<Rightarrow> ('w, exn, tick_state) eff" where
  "tick_key ef max_posts key tk = (case dict_get (tk_relocations tk) key of
      None \<Rightarrow> raise_exn KeyError
    | Some r \<Rightarrow> (case rr_status r of
        Reloc_proposed \<Rightarrow> tick_proposed ef max_posts key r tk
      | Reloc_posted \<Rightarrow> tick_posted ef key r tk
      | Reloc_approved \<Rightarrow> tick_approved ef key r tk
      | Reloc_written \<Rightarrow> tick_written ef key r tk
      | _ \<Rightarrow> ret tk))"

fun tick_keys :: "'w resolve_effects \<Rightarrow> int \<Rightarrow> ustr list \<Rightarrow> tick_state \<Rightarrow> ('w, exn, tick_state) eff" where
  "tick_keys ef max_posts [] tk = ret tk"
| "tick_keys ef max_posts (key # ks) tk = bindM (tick_key ef max_posts key tk) (tick_keys ef max_posts ks)"

definition resolve_tick :: "relocation_state \<Rightarrow> 'w resolve_effects \<Rightarrow> int \<Rightarrow> ('w, exn, tick_state) eff" where
  "resolve_tick s ef max_posts =
     tick_keys ef max_posts (sort (dict_keys (rs_relocations s)))
       \<lparr>tk_relocations = rs_relocations s, tk_posted = [], tk_written = [], tk_reconciled = [], tk_abandoned = []\<rparr>"

definition result_state :: "relocation_state \<Rightarrow> tick_state \<Rightarrow> relocation_state" where
  "result_state s tk = \<lparr>rs_version = rs_version s, rs_relocations = tk_relocations tk\<rparr>"

section \<open>The live effects\<close>

record 'm live_world =
  lv_relo :: "'m relo_world"
  lv_disk :: mem_disk
  lv_rag_state :: file_read
  lv_clone :: "ustr \<Rightarrow> blob option"

record 'm live_env =
  le_py :: py
  le_discord :: "'m discord"
  le_directory :: "'m directory"
  le_tools :: note_tools
  le_float_repr :: "rat \<Rightarrow> ustr"
  le_sha256 :: "blob \<Rightarrow> ustr"
  le_loads :: "ustr \<Rightarrow> ustr option"
  le_replace_errors :: "blob \<Rightarrow> ustr"
  le_save_fails :: "relocation_state \<Rightarrow> bool"
  le_faults :: disk_faults
  le_backup_name :: "memory_kind \<times> ustr \<Rightarrow> ustr"
  le_write_note :: "relocation \<Rightarrow> note_plan \<Rightarrow> ('m live_world, exn, ustr \<times> ustr) eff"
  le_clock :: "'m relo_world \<Rightarrow> ustr"
  le_now :: ustr
  le_stamp :: ustr

definition sha256_text :: "'m live_env \<Rightarrow> ustr \<Rightarrow> ustr" where
  "sha256_text le s = le_sha256 le (Utf8 s)"

definition on_relo :: "('m relo_world, exn, 'a) eff \<Rightarrow> ('m live_world, exn, 'a) eff" where
  "on_relo m w = (case m (lv_relo w) of (r, v) \<Rightarrow> (r, w\<lparr>lv_relo := v\<rparr>))"

definition on_mem :: "'a disk_eff \<Rightarrow> ('m live_world, exn, 'a) eff" where
  "on_mem m w = (case m (lv_disk w) of (r, v) \<Rightarrow> (r, w\<lparr>lv_disk := v\<rparr>))"

text \<open>\<open>_EFFECT_ERRORS\<close>.\<close>

definition effect_error :: "exn \<Rightarrow> bool" where
  "effect_error e \<longleftrightarrow> e \<in> {OSError, TimeoutError, ObsidianWriteError} \<or> is_http e \<or> value_error e \<or> runtime_error e"

definition or_else :: "('w, exn, 'a) eff \<Rightarrow> 'a \<Rightarrow> ('w, exn, 'a) eff" where
  "or_else m x = catchM m (\<lambda>e. if effect_error e then Some (ret x) else None)"

definition recover_entry_text :: "'m live_env \<Rightarrow> relocation \<Rightarrow> ('m live_world, exn, ustr option) eff" where
  "recover_entry_text le r =
     bindM (on_mem (read_native (rr_source_kind r))) (\<lambda>(_, f).
       ret (find (\<lambda>t. entry_digest (sha256_text le) (rr_source_kind r) t = rr_entry_sha256 r) (mf_entries f)))"

definition safe_read_note :: "(ustr \<Rightarrow> blob option) \<Rightarrow> ustr \<Rightarrow> blob option" where
  "safe_read_note clone relpath =
     (if starts_with relpath (lit ''/'') \<or> lit ''..'' \<in> set (split_char 47 relpath) then None else clone relpath)"

definition plan_for :: "'m live_env \<Rightarrow> relocation \<Rightarrow> ('m live_world, exn, relocation_plan option) eff" where
  "plan_for le r = or_else
     (bindM (recover_entry_text le r) (\<lambda>t. case t of
         None \<Rightarrow> ret None
       | Some entry_text \<Rightarrow> bindM (liftE (build_relocation_plan (le_tools le) entry_text)) (\<lambda>p. ret (Some p)))) None"

definition gate_for :: "'m live_env \<Rightarrow> relocation \<Rightarrow> ustr \<Rightarrow> 'm relo_gate" where
  "gate_for le r entry_text = \<lparr>rg_record = r, rg_entry_text = entry_text, rg_save_fails = le_save_fails le,
     rg_discord = le_discord le\<rparr>"

definition live_post :: "'m live_env \<Rightarrow> relocation \<Rightarrow> ('m live_world, exn, ustr option) eff" where
  "live_post le r = or_else
     (bindM (recover_entry_text le r) (\<lambda>t. case t of
         None \<Rightarrow> ret None
       | Some entry_text \<Rightarrow>
           bindM (on_relo (beyond (resolve_new_binding Kind_OBSIDIAN_WRITE (le_directory le) (dc_owner_id (le_discord le)) None))) (\<lambda>b.
           bindM (on_relo (request_approval (gate_for le r entry_text) (le_py le) (le_clock le) (bi_channel_id b))) (\<lambda>v.
             ret (map_option po_message_id (v_posted v)))))) None"

definition probe_word :: "probe \<Rightarrow> ustr" where
  "probe_word p = (case p of Probe_APPROVED \<Rightarrow> lit ''approved'' | Probe_CANCELLED \<Rightarrow> lit ''cancelled''
     | Probe_MISSING \<Rightarrow> lit ''missing'' | _ \<Rightarrow> lit ''pending'')"

definition live_probe :: "'m live_env \<Rightarrow> relocation \<Rightarrow> ('m live_world, exn, ustr) eff" where
  "live_probe le r = or_else
     (bindM (recover_entry_text le r) (\<lambda>t. case t of
         None \<Rightarrow> ret (lit ''pending'')
       | Some entry_text \<Rightarrow> if rr_message_id r = None then ret (lit ''pending'')
           else bindM (on_relo (beyond (relo_probe (gate_for le r entry_text) (relo_request (key_of r) r)))) (\<lambda>p.
             ret (probe_word p)))) (lit ''pending'')"

definition live_write :: "'m live_env \<Rightarrow> relocation \<Rightarrow> ('m live_world, exn, (ustr \<times> ustr) option) eff" where
  "live_write le r = bindM (plan_for le r) (\<lambda>p. case p of
       None \<Rightarrow> ret None
     | Some plan \<Rightarrow> or_else (bindM (le_write_note le r (rp_note_plan plan)) (\<lambda>receipt. ret (Some receipt))) None)"

definition note_text :: "'m live_env \<Rightarrow> relocation \<Rightarrow> ('m live_world, exn, ustr option) eff" where
  "note_text le r = getM (\<lambda>w. map_option (le_replace_errors le) (safe_read_note (lv_clone w) (rr_note_relpath r)))"

definition live_verified :: "'m live_env \<Rightarrow> relocation \<Rightarrow> ('m live_world, exn, bool) eff" where
  "live_verified le r = or_else
     (bindM (note_text le r) (\<lambda>body. case body of
         None \<Rightarrow> ret False
       | Some b \<Rightarrow> bindM (getM lv_rag_state) (\<lambda>f.
           bindM (liftE (verify_ingested (le_loads le) (sha256_text le) f (rr_note_relpath r) b)) (\<lambda>v. ret (rv_ingested v)))))
     False"

definition recompute_hash :: "'m live_env \<Rightarrow> relocation \<Rightarrow> ustr" where
  "recompute_hash le r = relocation_action_hash (le_float_repr le) (sha256_text le)
     \<lparr>hf_source_kind = memory_kind_value (rr_source_kind r), hf_entry_sha256 = rr_entry_sha256 r,
      hf_note_relpath = rr_note_relpath r, hf_note_plan_sha256 = rr_note_plan_sha256 r\<rparr>"

definition live_deps :: "'m live_env \<Rightarrow> 'm live_world \<Rightarrow> apply_deps" where
  "live_deps le w = \<lparr>ad_sha256 = le_sha256 le, ad_read_twin = safe_read_note (lv_clone w),
     ad_verify_rag = (\<lambda>relpath body.
       bindE (verify_ingested (le_loads le) (sha256_text le) (lv_rag_state w) relpath body) (\<lambda>v. Inr (rv_ingested v))),
     ad_recompute_action_hash = recompute_hash le, ad_stamp = le_stamp le, ad_faults = le_faults le,
     ad_backup_name = le_backup_name le\<rparr>"

definition live_apply :: "'m live_env \<Rightarrow> relocation \<Rightarrow> ('m live_world, exn, apply_outcome) eff" where
  "live_apply le r = bindM (plan_for le r) (\<lambda>p. case p of
       None \<Rightarrow> ret (blocked_outcome ''entry_absent'')
     | Some _ \<Rightarrow> or_else
         (bindM (note_text le r) (\<lambda>body.
          bindM (getM (live_deps le)) (\<lambda>ad.
            on_mem (apply_relocation ad r (case body of Some b \<Rightarrow> b | None \<Rightarrow> [])))))
         (blocked_outcome ''entry_absent''))"

definition build_effects :: "'m live_env \<Rightarrow> 'm live_world resolve_effects" where
  "build_effects le = \<lparr>ef_post_approval = live_post le, ef_probe_reaction = live_probe le,
     ef_write_obsidian = live_write le, ef_verify_rag = live_verified le, ef_apply_delete = live_apply le,
     ef_now = le_now le\<rparr>"

section \<open>One run of the watcher\<close>

text \<open>\<open>_discover_and_propose\<close>: \<open>classifier\<close> is the classifier over the parsed files. Whatever it raises leaves
  the state as it is.\<close>

definition propose_next ::
    "'m live_env \<Rightarrow> ((memory_kind, memory_file) dict \<Rightarrow> exn + entry_verdict list) \<Rightarrow> relocation_state
      \<Rightarrow> ('m live_world, exn, relocation_state) eff" where
  "propose_next le classifier s =
     bindM (on_mem (read_native Kind_memory)) (\<lambda>(_, f).
     bindM (on_mem (read_native Kind_user)) (\<lambda>(_, g).
     bindM (liftE (classifier [(Kind_memory, f), (Kind_user, g)])) (\<lambda>verdicts.
     bindM (liftE (select_candidate (sha256_text le) verdicts [(Kind_memory, f), (Kind_user, g)]
         (set (map (\<lambda>(k, r). rr_entry_sha256 r) (rs_relocations s))))) (\<lambda>found. case found of
        None \<Rightarrow> ret s
      | Some c \<Rightarrow>
          bindM (liftE (build_proposed_record (le_tools le) (le_float_repr le) (ca_entry_text c) (ca_source_kind c)
            (ca_entry_sha256 c) (ca_reclaimable_chars c) (lit ''obsidian-write'') (lit ''owner-dm'') [] 6 (le_now le))) (\<lambda>r.
            ret (s\<lparr>rs_relocations := dict_set (rs_relocations s) (key_of r) r\<rparr>))))))"

definition discover_and_propose ::
    "'m live_env \<Rightarrow> ((memory_kind, memory_file) dict \<Rightarrow> exn + entry_verdict list) \<Rightarrow> relocation_state
      \<Rightarrow> ('m live_world, exn, relocation_state) eff" where
  "discover_and_propose le classifier s =
     (if list_ex (\<lambda>(k, r). rr_status r \<in> set PENDING_STATUSES) (rs_relocations s) then ret s
      else catchM (propose_next le classifier s) (\<lambda>_. Some (ret s)))"

text \<open>Saving the state, ticking and saving the result.\<close>

definition tick_and_save ::
    "'m live_env \<Rightarrow> 'm live_world resolve_effects \<Rightarrow> relocation_state \<Rightarrow> ('m live_world, exn, tick_state) eff" where
  "tick_and_save le ef s =
     bindM (on_relo (save_w (le_save_fails le) s)) (\<lambda>_.
     bindM (resolve_tick s ef 1) (\<lambda>tk.
     bindM (on_relo (save_w (le_save_fails le) (result_state s tk))) (\<lambda>_. ret tk)))"

definition relocate_once ::
    "'m live_env \<Rightarrow> ((memory_kind, memory_file) dict \<Rightarrow> exn + entry_verdict list) \<Rightarrow> ('m live_world, exn, tick_state) eff" where
  "relocate_once le classifier =
     bindM (on_relo load_w) (\<lambda>loaded.
     bindM (discover_and_propose le classifier loaded) (\<lambda>s.
       tick_and_save le (build_effects le) s))"

end
