(* ===== verification/RelocateRuns.thy ===== *)
theory RelocateRuns
  imports Relocate
begin

text \<open>
  What the relocation guarantees: an entry leaves the native memory only under all its conditions; a
  record moves only along the life cycle, and a finished one has been posted, approved and written; the
  facade over the relocation gate keeps one live request; and what a tick does to a binding that the
  approval gate has stored meanwhile.
\<close>

section \<open>Deletion under all conditions\<close>

definition cleared_to_delete :: "apply_deps \<Rightarrow> relocation \<Rightarrow> ustr \<Rightarrow> bool" where
  "cleared_to_delete ad r note_body \<longleftrightarrow> rr_status r \<in> {Reloc_approved, Reloc_written}
     \<and> ad_recompute_action_hash ad r = rr_action_hash r
     \<and> \<not> note_missing ad r \<and> ad_verify_rag ad (rr_note_relpath r) note_body = Inr True"

text \<open>The one entry of the file that has the record's digest is gone, and the old file is backed up.\<close>

definition deleted_approved :: "apply_deps \<Rightarrow> relocation \<Rightarrow> mem_disk \<Rightarrow> mem_disk \<Rightarrow> bool" where
  "deleted_approved ad r w w' \<longleftrightarrow> (\<exists>source i. on_disk w (rr_source_kind r) source
     \<and> matching_indices (ad_sha256 ad) r (parse_memory_file (rr_source_kind r) source) = [i]
     \<and> deleted_one (rr_source_kind r) (int i) (Utf8 source) (ad_stamp ad) w w')"

lemma delete_matching_spec:
  assumes "delete_matching ad r w = (res, w')"
  shows "(md_nodes w' = md_nodes w \<or> deleted_approved ad r w w') \<and>
    (case res of Inr out \<Rightarrow> (if ao_deleted out then deleted_approved ad r w w' else ao_reason out \<noteq> None) | Inl e \<Rightarrow> md_nodes w' = md_nodes w)"
proof -
  let ?k = "rr_source_kind r"
  show ?thesis
  proof (cases "read_native ?k w")
    case (Pair out w1)
    note w1 = read_native_run(1) [OF Pair]
    show ?thesis
    proof (cases out)
      case (Inl e)
      then show ?thesis using assms Pair w1 by (auto simp: delete_matching_def bindM_def)
    next
      case (Inr cf)
      obtain bytes f where cf: "cf = (bytes, f)" by (cases cf)
      let ?m = "matching_indices (ad_sha256 ad) r f"
      consider "?m = []" | i where "?m = [i]" | i j ks where "?m = i # j # ks"
        by (metis list.exhaust)
      then show ?thesis
      proof cases
        case (2 i)
        obtain dres w2 where del: "delete_entry (ad_faults ad) ?k (int i) bytes (ad_stamp ad) w = (dres, w2)"
          by (cases "delete_entry (ad_faults ad) ?k (int i) bytes (ad_stamp ad) w")
        have ww: "w' = w2"
          using assms Pair w1 Inr cf 2 del
          by (cases dres) (auto simp: delete_matching_def bindM_def catchM_def ret_def split: if_splits)
        have one: "deleted_approved ad r w w2" if d: "deleted_one ?k (int i) bytes (ad_stamp ad) w w2"
        proof -
          from d obtain source where s: "on_disk w ?k source" "bytes = Utf8 source" by (auto simp: deleted_one_def)
          then have "f = parse_memory_file ?k source" using read_native_run(2) [OF Pair, of bytes f] Inr cf by auto
          with 2 s d show ?thesis unfolding deleted_approved_def by blast
        qed
        have "md_nodes w2 = md_nodes w \<or> deleted_approved ad r w w2"
          using delete_entry_spec [OF del] one by blast
        moreover have "case res of Inr o' \<Rightarrow> (if ao_deleted o' then deleted_approved ad r w w2 else ao_reason o' \<noteq> None) | Inl e \<Rightarrow> md_nodes w2 = md_nodes w"
        proof (cases dres)
          case (Inl e)
          then have "e = DeletionError" using delete_entry_spec [OF del] by simp
          then have "res = Inr (blocked_outcome ''entry_absent'')"
            using assms Pair w1 Inr cf 2 del Inl by (simp add: delete_matching_def bindM_def catchM_def ret_def \<open>out = Inr cf\<close>)
          then show ?thesis by (simp add: blocked_outcome_def)
        next
          case dr: (Inr d)
          then have "deleted_approved ad r w w2" using delete_entry_spec [OF del] one by simp
          moreover have "\<exists>o'. res = Inr o' \<and> ao_deleted o'"
            using assms Pair w1 Inr cf 2 del dr by (auto simp: delete_matching_def bindM_def catchM_def ret_def)
          ultimately show ?thesis by auto
        qed
        ultimately show ?thesis using ww by (cases res) auto
      qed (use assms Pair w1 Inr cf in \<open>auto simp: delete_matching_def bindM_def ret_def blocked_outcome_def\<close>)
    qed
  qed
qed

text \<open>C5. The native memory changes only when the record was approved, its action hash is still the one the
  owner approved, the note is in place (with the recorded content hash, if one is recorded), the index has it, and
  exactly one entry matches; and then exactly this entry is gone and the old file is backed up. An
  outcome that reports a deletion has deleted; any other names its reason.\<close>

theorem deletes_only_approved:
  assumes "apply_relocation ad r note_body w = (res, w')"
  shows "(md_nodes w' = md_nodes w \<or> cleared_to_delete ad r note_body \<and> deleted_approved ad r w w') \<and>
    (case res of Inl e \<Rightarrow> md_nodes w' = md_nodes w
     | Inr out \<Rightarrow> (if ao_deleted out then cleared_to_delete ad r note_body \<and> deleted_approved ad r w w'
         else ao_reason out \<noteq> None))"
proof (cases "cleared_to_delete ad r note_body")
  case True
  then have "apply_relocation ad r note_body = delete_matching ad r"
    by (simp add: apply_relocation_def cleared_to_delete_def liftE_def)
  with delete_matching_spec [of ad r w res w'] assms True show ?thesis by (auto split: sum.splits)
next
  case False
  have "w' = w \<and> (case res of Inr out \<Rightarrow> \<not> ao_deleted out \<and> ao_reason out \<noteq> None | Inl e \<Rightarrow> True)"
  proof (cases "ad_verify_rag ad (rr_note_relpath r) note_body")
    case (Inl e)
    then show ?thesis using assms by (auto simp: apply_relocation_def blocked_outcome_def eff_simps liftE_def split: if_splits)
  next
    case (Inr b)
    then show ?thesis using assms False
      by (cases b) (auto simp: apply_relocation_def cleared_to_delete_def blocked_outcome_def eff_simps liftE_def split: if_splits)
  qed
  then show ?thesis using False by (auto split: sum.splits)
qed

definition demo_deps :: apply_deps where
  "demo_deps = \<lparr>ad_sha256 = (\<lambda>b. case b of Utf8 s \<Rightarrow> s | Not_utf8 _ \<Rightarrow> []), ad_read_twin = (\<lambda>_. Some (Utf8 (lit ''note''))),
     ad_verify_rag = (\<lambda>_ _. Inr True), ad_recompute_action_hash = rr_action_hash, ad_stamp = lit ''now'',
     ad_faults = no_faults, ad_backup_name = snd\<rparr>"

definition demo_written :: relocation where
  "demo_written = sample_record\<lparr>rr_status := Reloc_written,
     rr_entry_sha256 := entry_digest (\<lambda>s. s) Kind_memory (lit ''a'')\<rparr>"

theorem deletes_only_approved_witness:
  "\<exists>out w'. apply_relocation demo_deps demo_written (lit ''note'') (disk_of (two_entries (lit ''a'') (lit ''b''))) = (Inr out, w')
     \<and> ao_deleted out \<and> deleted_approved demo_deps demo_written (disk_of (two_entries (lit ''a'') (lit ''b''))) w'"
proof -
  let ?s = "two_entries (lit ''a'') (lit ''b'')" and ?k = Kind_memory
  let ?run = "apply_relocation demo_deps demo_written (lit ''note'') (disk_of ?s)"
  have parse: "parse_memory_file ?k ?s = \<lparr>mf_kind = ?k, mf_entries = [lit ''a'', lit ''b'']\<rparr>"
    by (rule parse_two_entries [OF sample_entries])
  have kind: "rr_source_kind demo_written = ?k" by (simp add: demo_written_def sample_record_def)
  have match: "matching_indices (ad_sha256 demo_deps) demo_written \<lparr>mf_kind = ?k, mf_entries = [lit ''a'', lit ''b'']\<rparr> = [0]"
    by (simp add: matching_indices_def demo_deps_def demo_written_def sample_record_def entry_digest_def upt_rec)
  have "deletable ?k 0 ?s (lit ''now'') (disk_of ?s)"
    by (simp add: deletable_def disk_of_def on_disk_def parse other_entries_differ_def Let_def without_def)
  then have "is_Inr (fst (delete_entry no_faults ?k 0 (Utf8 ?s) (lit ''now'') (disk_of ?s)))"
    by (subst delete_entry_returns) (simp_all add: no_faults_def)
  then obtain d w' where del: "delete_entry no_faults ?k 0 (Utf8 ?s) (lit ''now'') (disk_of ?s) = (Inr d, w')"
    by (cases "delete_entry no_faults ?k 0 (Utf8 ?s) (lit ''now'') (disk_of ?s)") (auto simp: is_Inr_def split: sum.splits)
  have read: "read_native ?k (disk_of ?s) = (Inr (Utf8 ?s, \<lparr>mf_kind = ?k, mf_entries = [lit ''a'', lit ''b'']\<rparr>), disk_of ?s)"
    by (simp add: read_native_def disk_of_def eff_simps decode_utf8_def liftE_def parse)
  have clear: "apply_relocation demo_deps demo_written (lit ''note'') = delete_matching demo_deps demo_written"
    by (simp add: apply_relocation_def demo_written_def sample_record_def note_missing_def demo_deps_def liftE_def)
  have "\<exists>out. ?run = (Inr out, w') \<and> ao_deleted out"
    unfolding clear using del by (simp add: delete_matching_def kind bindM_app read match catchM_def ret_app) (simp add: demo_deps_def ret_app)
  then obtain out where run: "?run = (Inr out, w')" and "ao_deleted out" by blast
  with deletes_only_approved [OF run] show ?thesis by auto
qed

section \<open>The life cycle\<close>

text \<open>What one tick may do to one record.\<close>

inductive moves :: "relocation \<Rightarrow> relocation \<Rightarrow> bool" where
  Stays: "moves r r"
| Posts: "rr_status r = Reloc_proposed \<Longrightarrow> rr_message_id r = None \<Longrightarrow> m \<noteq> [] \<Longrightarrow>
    moves r (r\<lparr>rr_status := Reloc_posted, rr_message_id := Some m\<rparr>)"
| Approves: "rr_status r = Reloc_posted \<Longrightarrow> moves r (r\<lparr>rr_status := Reloc_approved, rr_approved_at := Some t\<rparr>)"
| Cancels: "rr_status r = Reloc_posted \<Longrightarrow> moves r (r\<lparr>rr_status := Reloc_abandoned\<rparr>)"
| Loses: "rr_status r = Reloc_posted \<Longrightarrow> moves r (r\<lparr>rr_status := Reloc_proposed, rr_message_id := None\<rparr>)"
| Writes: "rr_status r = Reloc_approved \<Longrightarrow> moves r (r\<lparr>rr_status := Reloc_written, rr_remote_ref := Some rf,
    rr_note_content_sha256 := Some sha, rr_written_at := Some t\<rparr>)"
| Finishes: "rr_status r = Reloc_written \<Longrightarrow> moves r (r\<lparr>rr_status := Reloc_reconciled, rr_reconciled_at := Some t,
    rr_backup_path := b, rr_last_block_reason := None\<rparr>)"
| Blocks: "rr_status r = Reloc_written \<Longrightarrow> moves r (r\<lparr>rr_last_block_reason := reason\<rparr>)"

inductive_cases moves_from: "moves r r'"

lemmas moves_intros = moves.intros

text \<open>The status says which stamps the record has.\<close>

definition life_ok :: "relocation \<Rightarrow> bool" where
  "life_ok r \<longleftrightarrow>
     (rr_status r \<in> {Reloc_posted, Reloc_approved, Reloc_written, Reloc_reconciled, Reloc_abandoned} \<longrightarrow> rr_message_id r \<noteq> None)
   \<and> (rr_status r \<in> {Reloc_approved, Reloc_written, Reloc_reconciled} \<longrightarrow> rr_approved_at r \<noteq> None)
   \<and> (rr_status r \<in> {Reloc_written, Reloc_reconciled} \<longrightarrow>
        rr_written_at r \<noteq> None \<and> rr_remote_ref r \<noteq> None \<and> rr_note_content_sha256 r \<noteq> None)
   \<and> (rr_status r = Reloc_reconciled \<longrightarrow> rr_reconciled_at r \<noteq> None)"

lemma moves_life_ok: "moves r r' \<Longrightarrow> life_ok r \<Longrightarrow> life_ok r'"
  by (erule moves.cases) (auto simp: life_ok_def)

text \<open>No move changes what the approval is bound to, the surface included.\<close>

lemma moves_binding:
  "moves r r' \<Longrightarrow> rr_action_hash r' = rr_action_hash r \<and> rr_source_kind r' = rr_source_kind r
     \<and> rr_entry_sha256 r' = rr_entry_sha256 r \<and> rr_note_relpath r' = rr_note_relpath r
     \<and> rr_note_plan_sha256 r' = rr_note_plan_sha256 r \<and> rr_channel_id r' = rr_channel_id r \<and> rr_version r' = rr_version r"
  by (erule moves.cases) auto

lemma dict_keys_set: "dict_get d k \<noteq> None \<Longrightarrow> dict_keys (dict_set d k v) = dict_keys d"
  unfolding dict_get_def dict_keys_def dict_set_def by (induction d) (auto split: if_splits)

lemma put_relocations [simp]: "tk_relocations (put key r tk) = dict_set (tk_relocations tk) key r"
  "tk_posted (put key r tk) = tk_posted tk"
  by (simp_all add: put_def)

definition tick_step :: "int \<Rightarrow> ustr \<Rightarrow> tick_state \<Rightarrow> tick_state \<Rightarrow> bool" where
  "tick_step n key tk tk' \<longleftrightarrow> (\<exists>r r'. dict_get (tk_relocations tk) key = Some r \<and> moves r r'
     \<and> dict_keys (tk_relocations tk') = dict_keys (tk_relocations tk)
     \<and> (\<forall>k. dict_get (tk_relocations tk') k = (if k = key then Some r' else dict_get (tk_relocations tk) k))
     \<and> (tk_posted tk' = tk_posted tk \<or> int (length (tk_posted tk)) < n \<and> tk_posted tk' = tk_posted tk @ [key]))"

lemma tick_step_same: "dict_get (tk_relocations tk) key = Some r \<Longrightarrow> tick_step n key tk tk"
  unfolding tick_step_def by (intro exI [of _ r]) (auto intro: Stays)

lemma tick_step_put:
  "dict_get (tk_relocations tk) key = Some r \<Longrightarrow> moves r r' \<Longrightarrow> tk_relocations tk' = dict_set (tk_relocations tk) key r' \<Longrightarrow>
     tk_posted tk' = tk_posted tk \<or> int (length (tk_posted tk)) < n \<and> tk_posted tk' = tk_posted tk @ [key] \<Longrightarrow>
     tick_step n key tk tk'"
  unfolding tick_step_def by (intro exI [of _ r] exI [of _ r']) (simp add: dict_keys_set)

lemma tick_step_puts:
  assumes "dict_get (tk_relocations tk) key = Some r" and "moves r r'"
  shows "tick_step n key tk (put key r' tk)"
    and "tick_step n key tk ((put key r' tk)\<lparr>tk_written := ws\<rparr>)"
    and "tick_step n key tk ((put key r' tk)\<lparr>tk_reconciled := ws\<rparr>)"
    and "tick_step n key tk ((put key r' tk)\<lparr>tk_abandoned := ws\<rparr>)"
    and "int (length (tk_posted tk)) < n \<Longrightarrow> tick_step n key tk ((put key r' tk)\<lparr>tk_posted := tk_posted tk @ [key]\<rparr>)"
  by (intro tick_step_put [OF assms]; simp)+

lemma tick_key_step:
  assumes "tick_key ef n key tk w = (Inr tk', w')"
  shows "tick_step n key tk tk'"
proof -
  from assms obtain r where r: "dict_get (tk_relocations tk) key = Some r"
    by (auto simp: tick_key_def run_simps split: option.splits)
  note same = tick_step_same [OF r]
  note step = tick_step_puts [OF r]
  show ?thesis
  proof (cases "rr_status r")
    case Reloc_proposed
    then have "tick_proposed ef n key r tk w = (Inr tk', w')" using assms r by (simp add: tick_key_def)
    note run = this
    show ?thesis
    proof (cases "int (length (tk_posted tk)) \<ge> n \<or> rr_message_id r \<noteq> None")
      case True
      with run same show ?thesis by (simp add: tick_proposed_def ret_eq)
    next
      case False
      with run obtain m w1 where m: "(case m of None \<Rightarrow> ret tk
        | Some m \<Rightarrow> if m = [] then ret tk
            else ret ((put key (r\<lparr>rr_status := Reloc_posted, rr_message_id := Some m\<rparr>) tk)
              \<lparr>tk_posted := tk_posted tk @ [key]\<rparr>)) w1 = (Inr tk' :: exn + tick_state, w')"
        unfolding tick_proposed_def bindM_eq_Inr if_not_P [OF False] by (elim exE conjE) (rule that)
      show ?thesis
        using m same False Reloc_proposed
        by (cases m) (auto simp: ret_eq split: if_split_asm intro!: step moves_intros)
    qed
  next
    case Reloc_posted
    then have "tick_posted ef key r tk w = (Inr tk', w')" using assms r by (simp add: tick_key_def)
    then show ?thesis using same Reloc_posted
      by (auto simp: tick_posted_def run_simps split: if_splits intro!: step moves_intros)
  next
    case Reloc_approved
    then have "tick_approved ef key r tk w = (Inr tk', w')" using assms r by (simp add: tick_key_def)
    then show ?thesis using same Reloc_approved
      by (auto simp: tick_approved_def run_simps split: option.splits intro!: step moves_intros)
  next
    case Reloc_written
    then have "tick_written ef key r tk w = (Inr tk', w')" using assms r by (simp add: tick_key_def)
    then show ?thesis using same Reloc_written
      by (auto simp: tick_written_def run_simps split: if_splits intro!: step moves_intros)
  qed (use assms r same in \<open>auto simp: tick_key_def run_simps\<close>)
qed

lemma tick_keys_steps:
  assumes "tick_keys ef n ks tk w = (Inr tk', w')" and "distinct ks" and "int (length (tk_posted tk)) \<le> n"
  shows "dict_keys (tk_relocations tk') = dict_keys (tk_relocations tk)
    \<and> (\<forall>k r'. dict_get (tk_relocations tk') k = Some r' \<longrightarrow>
         (\<exists>r. dict_get (tk_relocations tk) k = Some r \<and> moves r r' \<and> (k \<notin> set ks \<longrightarrow> r' = r)))
    \<and> int (length (tk_posted tk')) \<le> n"
  using assms
proof (induction ks arbitrary: tk w)
  case Nil
  then show ?case by (auto simp: run_simps intro: Stays)
next
  case (Cons key ks)
  from Cons.prems(1) obtain tk1 w1 where 1: "tick_key ef n key tk w = (Inr tk1, w1)"
    and 2: "tick_keys ef n ks tk1 w1 = (Inr tk', w')" by (auto simp: run_simps)
  from tick_key_step [OF 1] obtain r r1 where step: "dict_get (tk_relocations tk) key = Some r" "moves r r1"
    "dict_keys (tk_relocations tk1) = dict_keys (tk_relocations tk)"
    "\<And>k. dict_get (tk_relocations tk1) k = (if k = key then Some r1 else dict_get (tk_relocations tk) k)"
    "int (length (tk_posted tk1)) \<le> n"
    using Cons.prems(3) unfolding tick_step_def by auto
  have rest: "dict_keys (tk_relocations tk') = dict_keys (tk_relocations tk1)"
    "\<And>k r'. dict_get (tk_relocations tk') k = Some r' \<Longrightarrow>
         \<exists>r. dict_get (tk_relocations tk1) k = Some r \<and> moves r r' \<and> (k \<notin> set ks \<longrightarrow> r' = r)"
    "int (length (tk_posted tk')) \<le> n"
    using Cons.IH [OF 2 _ step(5)] Cons.prems(2) by auto
  have "\<exists>r. dict_get (tk_relocations tk) k = Some r \<and> moves r r' \<and> (k \<notin> set (key # ks) \<longrightarrow> r' = r)"
    if k: "dict_get (tk_relocations tk') k = Some r'" for k r'
  proof (cases "k = key")
    case True
    with rest(2) [OF k] step(4) Cons.prems(2) have "r' = r1" by auto
    with True step(1,2) show ?thesis by auto
  next
    case False
    with rest(2) [OF k] step(4) [of k] show ?thesis by auto
  qed
  with rest(1,3) step(3) show ?case by simp
qed

lemma resolve_tick_moves:
  assumes "resolve_tick s ef n w = (Inr tk, w')" and "state_ok s" and "0 \<le> n"
  shows "dict_keys (tk_relocations tk) = dict_keys (rs_relocations s)
    \<and> (\<forall>k r'. dict_get (tk_relocations tk) k = Some r' \<longrightarrow>
         (\<exists>r. dict_get (rs_relocations s) k = Some r \<and> moves r r'))
    \<and> int (length (tk_posted tk)) \<le> n"
proof -
  have "distinct (sort (dict_keys (rs_relocations s)))"
    using assms(2) by (simp add: state_ok_def wf_dict_def dict_keys_def)
  from tick_keys_steps [OF assms(1) [unfolded resolve_tick_def] this] assms(3) show ?thesis by auto
qed

lemma resolved_ok:
  assumes "resolve_tick s ef n w = (Inr tk, w')" and "state_ok s" and "0 \<le> n"
  shows "state_ok (result_state s tk)"
proof -
  note m = resolve_tick_moves [OF assms(1-3)]
  have wf: "wf_dict (tk_relocations tk)"
    using m assms(2) by (simp add: state_ok_def wf_dict_def dict_keys_def)
  have "k = key_of r' \<and> rr_version r' = STATE_VERSION" if "(k, r') \<in> set (tk_relocations tk)" for k r'
  proof -
    have "dict_get (tk_relocations tk) k = Some r'" using that wf by (simp add: dict_get_iff)
    with m obtain r where r: "dict_get (rs_relocations s) k = Some r" "moves r r'" by blast
    from dict_get_in [OF r(1)] assms(2) have "k = key_of r \<and> rr_version r = STATE_VERSION"
      by (auto simp: state_ok_def list_all_iff)
    with moves_binding [OF r(2)] show ?thesis by simp
  qed
  with wf assms(2) show ?thesis
    by (auto simp: state_ok_def result_state_def list_all_iff)
qed

text \<open>C8. A tick that returns has kept the set of records and moved each along the life cycle at most once,
  posted at most the allowed number, and kept the state well formed; a status still says which stamps
  a record has, so a reconciled record was posted, approved, written and its note is recorded.\<close>

theorem tick_keeps_lifecycle:
  assumes "resolve_tick s ef n w = (Inr tk, w')" and "state_ok s" and "0 \<le> n"
    and "\<And>k r. dict_get (rs_relocations s) k = Some r \<Longrightarrow> life_ok r"
  shows "state_ok (result_state s tk) \<and> dict_keys (tk_relocations tk) = dict_keys (rs_relocations s)
    \<and> (\<forall>k r'. dict_get (tk_relocations tk) k = Some r' \<longrightarrow> life_ok r' \<and>
         (\<exists>r. dict_get (rs_relocations s) k = Some r \<and> moves r r'))
    \<and> int (length (tk_posted tk)) \<le> n"
proof -
  note m = resolve_tick_moves [OF assms(1-3)]
  have "life_ok r'" if "dict_get (tk_relocations tk) k = Some r'" for k r'
    using m that assms(4) moves_life_ok by blast
  then show ?thesis using m resolved_ok [OF assms(1-3)] by blast
qed

definition stub_effects :: "unit resolve_effects" where
  "stub_effects = \<lparr>ef_post_approval = (\<lambda>_. ret (Some (lit ''m1''))), ef_probe_reaction = (\<lambda>_. ret []),
     ef_write_obsidian = (\<lambda>_. ret None), ef_verify_rag = (\<lambda>_. ret False),
     ef_apply_delete = (\<lambda>_. ret (blocked_outcome ''entry_absent'')), ef_now = lit ''t1''\<rparr>"

theorem tick_keeps_lifecycle_witness:
  "\<exists>tk. resolve_tick sample_state stub_effects 1 () = (Inr tk, ()) \<and> tk_posted tk = [lit ''memory:e'']
     \<and> state_ok (result_state sample_state tk)
     \<and> dict_keys (tk_relocations tk) = [lit ''memory:e'']"
proof -
  let ?run = "resolve_tick sample_state stub_effects 1 ()"
  have r: "is_Inr (fst ?run) \<and> (case fst ?run of Inl _ \<Rightarrow> False | Inr tk \<Rightarrow> tk_posted tk = [lit ''memory:e''])"
    by (simp add: resolve_tick_def sample_state_def sample_record_def dict_keys_def tick_key_def dict_get_def
        tick_proposed_def stub_effects_def eff_simps is_Inr_def)
  obtain tk w' where run: "?run = (Inr tk, w')" "tk_posted tk = [lit ''memory:e'']"
    using r by (cases ?run) (auto simp: is_Inr_def split: sum.splits)
  have "life_ok r" if "dict_get (rs_relocations sample_state) k = Some r" for k r
    using that by (auto simp: sample_state_def dict_get_def sample_record_def life_ok_def split: if_splits)
  then show ?thesis
    using tick_keeps_lifecycle [OF run(1) sample_state_ok] run by (auto simp: sample_state_def dict_keys_def)
qed

section \<open>The facade over the relocation gate\<close>

text \<open>C10. The facade over the relocation gate, for the gate's own record in a state file that loads: the state
  still loads afterwards and the record is still there; POSTED means that the record's one live request
  carries the intended hash and the posted message; PENDING names a request that was live before and is
  the only one with that hash; any other answer has added nothing.\<close>

theorem relocate_request_outcome:
  assumes "relo_ok rg w" and "relo_own rg i"
    and "request_owner_approval (relo_gate_ops rg) relo_lease (relo_journal py) now i w = (Inr v, w')"
  shows "relo_ok rg w' \<and> (case v_outcome v of
      Outcome_POSTED \<Rightarrow> \<exists>p q. v_posted v = Some p \<and> relo_view w' (in_key i) = [q] \<and>
        rq_action_hash q = in_action_hash i \<and> rq_message_id q = po_message_id p
    | Outcome_PENDING \<Rightarrow> \<exists>q. v_live v = Some q \<and> q \<in> set (relo_view w (in_key i)) \<and>
        filter (\<lambda>r. rq_action_hash r = in_action_hash i) (relo_view w' (in_key i)) = [q]
    | _ \<Rightarrow> set (relo_view w' (in_key i)) \<subseteq> set (relo_view w (in_key i)))"
  using relo.request_settles [OF assms] by (simp add: relo.settled_def)

definition relo_sample_gate :: "nat relo_gate" where
  "relo_sample_gate = \<lparr>rg_record = sample_record, rg_entry_text = lit ''a'', rg_save_fails = (\<lambda>_. False),
     rg_discord = \<lparr>dc_api = (\<lambda>_ _ _ n. (Inr (JObj [(lit ''id'', JStr (lit ''m1''))]), Suc n)), dc_quote = (\<lambda>s. s),
       dc_owner_id = lit ''o''\<rparr>\<rparr>"

definition relo_sample_world :: "nat relo_world" where
  "relo_sample_world = \<lparr>rw_host = \<lparr>h_locks = {}, h_files = (\<lambda>_. FileMissing), h_audit = []\<rparr>,
     rw_state = saved_state sample_state, rw_outside = 0\<rparr>"

definition relo_sample_intent :: intent where
  "relo_sample_intent = \<lparr>in_key = key_of sample_record, in_action_hash = rr_action_hash sample_record,
     in_channel_id = lit ''9''\<rparr>"

lemma load_sample [simp]: "load_state (saved_state sample_state) = Inr sample_state"
proof -
  have "in_key_order sample_state = sample_state" by (simp add: in_key_order_def sample_state_def)
  then show ?thesis using parse_saved [OF sample_state_ok] by (simp add: load_state_def saved_state_def)
qed

lemma sample_key: "dict_get (rs_relocations sample_state) (key_of sample_record) = Some sample_record"
  by (simp add: sample_state_def sample_record_def record_key_def lit_append [symmetric] dict_get_def)

lemmas relo_run_simps = request_owner_approval_def with_lease_def owned_request_def relo_lease_def relo_journal_def
  relo_gate_ops_def at_host_def relo_sample_world_def relo_sample_intent_def relo_sample_gate_def lease_enter_def
  journal_outstanding_def bindM_app finallyM_def catchM_def relo_outstanding_def all_pending_def load_w_def
  ret_app snapshot_of_def decide_snapshot_def settle_def Let_def
  same_requests_def other_requests_def post_new_def journal_reserve_def beyond_def relo_post_def
  as_surface_error_def post_message_def add_reaction_def answer_object_def answer_string_def
  relo_commit_def set_message_id_def current_def persist_def save_w_def liftE_def journal_clear_def state_app

theorem relocate_request_outcome_witness:
  "\<exists>w' q. request_owner_approval (relo_gate_ops relo_sample_gate) relo_lease (relo_journal sample_py)
       (\<lambda>_. []) relo_sample_intent relo_sample_world
     = (Inr ((verdict0 Outcome_POSTED None)\<lparr>v_posted := Some \<lparr>po_message_id = lit ''m1'', po_channel_id = lit ''9''\<rparr>\<rparr>), w')
     \<and> relo_view w' (key_of sample_record) = [q] \<and> rq_message_id q = lit ''m1''"
proof -
  have "is_Inr (render_relocation_approval sample_record (lit ''a''))"
    by (simp add: render_relocation_approval_def sample_record_def Let_def is_Inr_def MAX_MESSAGE_CHARS_def
        approval_opening_def approval_entry_heading_def approval_target_line_def approval_chars_line_def
        approval_hash_line_def approval_closing_def dec_int_def dec_nat.simps)
  then obtain content where content: "render_relocation_approval sample_record (lit ''a'') = Inr content"
    by (auto simp: is_Inr_def split: sum.splits)
  have pending: "filter (\<lambda>r. key_of r = key_of sample_record \<and> has_message r)
      (filter (\<lambda>r. rr_status r \<in> set PENDING_STATUSES) (map snd (rs_relocations sample_state))) = []"
    by (simp add: sample_state_def sample_record_def has_message_def PENDING_STATUSES_def)
  have bound: "rr_message_id sample_record = None" by (simp add: sample_record_def)
  obtain w' where run: "request_owner_approval (relo_gate_ops relo_sample_gate) relo_lease (relo_journal sample_py)
       (\<lambda>_. []) relo_sample_intent relo_sample_world
     = (Inr ((verdict0 Outcome_POSTED None)\<lparr>v_posted := Some \<lparr>po_message_id = lit ''m1'', po_channel_id = lit ''9''\<rparr>\<rparr>), w')"
    using pending by (simp add: relo_run_simps content sample_key bound verdict0_def del: filter_filter)
  have "relo_ok relo_sample_gate relo_sample_world"
    using sample_key by (auto simp: relo_ok_def relo_sample_world_def relo_sample_gate_def sample_record_def PENDING_STATUSES_def)
  moreover have "relo_own relo_sample_gate relo_sample_intent"
    by (simp add: relo_own_def relo_sample_gate_def relo_sample_intent_def)
  ultimately show ?thesis
    using relocate_request_outcome [OF _ _ run] run by (simp add: verdict0_def relo_sample_intent_def) blast
qed

section \<open>The surface of a posted request is lost\<close>

lemma on_relo_save:
  "on_relo (save_w sf s) w = (Inr u, w') \<Longrightarrow> rw_state (lv_relo w') = saved_state s"
  by (auto simp: on_relo_def save_w_def eff_simps split: if_splits)

text \<open>C20. Whatever the effects do and whatever the approval gate has written into the state file meanwhile, the
  state that a tick saves carries for every record the channel it had before the tick. The channel that
  the gate binds to the record together with the posted message is overwritten.\<close>

theorem tick_saves_old_channels:
  assumes "tick_and_save le ef s w = (Inr tk, w')" and "state_ok s"
  shows "\<exists>s'. load_state (rw_state (lv_relo w')) = Inr s' \<and>
    (\<forall>k. map_option rr_channel_id (dict_get (rs_relocations s') k) = map_option rr_channel_id (dict_get (rs_relocations s) k))"
proof -
  from assms(1) obtain w1 w2 where tick: "resolve_tick s ef 1 w1 = (Inr tk, w2)"
    and save: "on_relo (save_w (le_save_fails le) (result_state s tk)) w2 = (Inr (), w')"
    by (auto simp: tick_and_save_def run_simps)
  note m = resolve_tick_moves [OF tick assms(2) zero_le_one]
  have ok: "state_ok (result_state s tk)" by (rule resolved_ok [OF tick assms(2) zero_le_one])
  have "load_state (rw_state (lv_relo w')) = Inr (in_key_order (result_state s tk))"
    using on_relo_save [OF save] parse_saved [OF ok] by (simp add: load_state_def saved_state_def)
  moreover have "map_option rr_channel_id (dict_get (tk_relocations tk) k) = map_option rr_channel_id (dict_get (rs_relocations s) k)" for k
  proof (cases "dict_get (tk_relocations tk) k")
    case None
    then have "dict_get (rs_relocations s) k = None" using m by (simp add: dict_get_None_iff)
    with None show ?thesis by simp
  next
    case (Some r')
    with m obtain r where "dict_get (rs_relocations s) k = Some r" "moves r r'" by blast
    with Some moves_binding show ?thesis by auto
  qed
  ultimately show ?thesis using get_in_key_order [OF ok] by (auto simp: result_state_def)
qed

definition demo_env :: "nat live_env" where
  "demo_env = \<lparr>le_py = sample_py, le_discord = rg_discord relo_sample_gate,
     le_directory = \<lparr>di_owner_dm = ret (lit ''9''), di_skill_approvals = ret (lit ''8''), di_describe = (\<lambda>_. raise_exn OSError)\<rparr>,
     le_tools = demo_notes, le_float_repr = (\<lambda>_. []), le_sha256 = (\<lambda>_. lit ''e''), le_loads = (\<lambda>_. None),
     le_replace_errors = (\<lambda>_. []), le_save_fails = (\<lambda>_. False), le_faults = no_faults, le_backup_name = snd,
     le_write_note = (\<lambda>_ _. raise_exn OSError), le_clock = (\<lambda>_. lit ''t1''), le_now = lit ''t1'', le_stamp = lit ''t1''\<rparr>"

definition demo_world :: "nat live_world" where
  "demo_world = \<lparr>lv_relo = relo_sample_world, lv_disk = disk_of (lit ''a''), lv_rag_state = FileMissing, lv_clone = (\<lambda>_. None)\<rparr>"

text \<open>Effects whose post binds the message and channel \<open>9\<close> in the state file, as the gate does.\<close>

definition binding_effects :: "nat live_world resolve_effects" where
  "binding_effects = \<lparr>ef_post_approval = (\<lambda>r. bindM (on_relo (set_message_id (\<lambda>_. False) r (lit ''m1'') (lit ''9''))) (\<lambda>_.
       ret (Some (lit ''m1'')))), ef_probe_reaction = (\<lambda>_. ret []),
     ef_write_obsidian = (\<lambda>_. ret None), ef_verify_rag = (\<lambda>_. ret False),
     ef_apply_delete = (\<lambda>_. ret (blocked_outcome ''entry_absent'')), ef_now = lit ''t1''\<rparr>"

theorem tick_saves_old_channels_witness:
  "\<exists>tk w' s'. tick_and_save demo_env binding_effects sample_state demo_world = (Inr tk, w')
     \<and> tk_posted tk = [lit ''memory:e''] \<and> load_state (rw_state (lv_relo w')) = Inr s'
     \<and> map_option rr_channel_id (dict_get (rs_relocations s') (lit ''memory:e'')) = Some []"
proof -
  let ?run = "tick_and_save demo_env binding_effects sample_state demo_world"
  have key: "key_of sample_record = lit ''memory:e''"
    by (simp add: sample_record_def record_key_def lit_append [symmetric])
  have get: "dict_get (rs_relocations sample_state) (lit ''memory:e'') = Some sample_record"
    using sample_key by (simp add: key)
  have keys: "dict_keys (rs_relocations sample_state) = [lit ''memory:e'']" by (simp add: sample_state_def dict_keys_def)
  have fresh: "rr_message_id sample_record = None" "rr_status sample_record = Reloc_proposed" by (simp_all add: sample_record_def)
  have "is_Inr (fst ?run) \<and> (case fst ?run of Inl _ \<Rightarrow> False | Inr tk \<Rightarrow> tk_posted tk = [lit ''memory:e''])"
    by (simp add: tick_and_save_def demo_env_def demo_world_def binding_effects_def bindM_app ret_app on_relo_def save_w_def
        state_app resolve_tick_def keys tick_key_def get tick_proposed_def fresh set_message_id_def current_def load_w_def
        key persist_def is_Inr_def)
  then obtain tk w' where run: "?run = (Inr tk, w')" and posted: "tk_posted tk = [lit ''memory:e'']"
    by (cases ?run) (auto simp: is_Inr_def split: sum.splits)
  from tick_saves_old_channels [OF run sample_state_ok] obtain s' where
    "load_state (rw_state (lv_relo w')) = Inr s'"
    "map_option rr_channel_id (dict_get (rs_relocations s') (lit ''memory:e'')) = map_option rr_channel_id (Some sample_record)"
    using get by metis
  with run posted show ?thesis by (simp add: sample_record_def)
qed

text \<open>A record that was proposed and has a message, as the gate leaves it when the process ends before the
  tick is saved, is never taken up again.\<close>

lemma bound_proposal_stuck:
  assumes "rr_status r = Reloc_proposed" and "rr_message_id r \<noteq> None" and "moves r r'"
  shows "r' = r"
  using assms(3) by (cases rule: moves.cases) (use assms(1,2) in auto)

end
