(* ===== verification/CuratorState.thy ===== *)
theory CuratorState
  imports MemoryFile RecordCodec
begin

text \<open>
  The persisted state of the memory curator: \<open>state_models.py\<close>, \<open>state_fields.py\<close>, \<open>state.py\<close> and
  \<open>state_store.py\<close> of \<open>automation/memory_curator\<close>. Three versions of the file are read: the first only lists
  hashes, which become records that never authorize a deletion; the second has no owner events.
\<close>

section \<open>Records\<close>

datatype promotion_status = Promo_prepared | Promo_posted | Promo_reconciled | Promo_legacy_unbound

fun promotion_status_value :: "promotion_status \<Rightarrow> ustr" where
  "promotion_status_value Promo_prepared = lit ''prepared''"
| "promotion_status_value Promo_posted = lit ''posted''"
| "promotion_status_value Promo_reconciled = lit ''reconciled''"
| "promotion_status_value Promo_legacy_unbound = lit ''legacy_unbound''"

record promotion =
  pm_source_kind :: memory_kind
  pm_entry_sha256 :: ustr
  pm_slug :: ustr
  pm_created_at :: ustr
  pm_note_sha256 :: ustr
  pm_draft_id :: "ustr option"
  pm_confirm_message_id :: "ustr option"
  pm_status :: promotion_status
  pm_posted_at :: "ustr option"
  pm_reconciled_at :: "ustr option"
  pm_backup_path :: "ustr option"
  pm_last_block_reason :: "ustr option"

datatype owner_phase = Owner_posted | Owner_deleted

fun owner_phase_value :: "owner_phase \<Rightarrow> ustr" where
  "owner_phase_value Owner_posted = lit ''posted''"
| "owner_phase_value Owner_deleted = lit ''deleted''"

record owner_event =
  oe_key :: ustr
  oe_phase :: owner_phase
  oe_preview :: ustr
  oe_twin_kind :: "ustr option"
  oe_draft_id :: "ustr option"
  oe_freed_chars :: "int option"

record alert_state =
  as_last_observed :: "ustr option"
  as_last_sent :: "ustr option"
  as_last_sent_at :: "ustr option"
  as_pending :: "ustr option"

record curator_state =
  ct_version :: int
  ct_promotions :: "(ustr, promotion) dict"
  ct_alert :: alert_state
  ct_events :: "(ustr, owner_event) dict"

definition CURATOR_VERSION :: int where "CURATOR_VERSION = 3"

definition no_alert :: alert_state where
  "no_alert = \<lparr>as_last_observed = None, as_last_sent = None, as_last_sent_at = None, as_pending = None\<rparr>"

definition curator_empty :: curator_state where
  "curator_empty = \<lparr>ct_version = CURATOR_VERSION, ct_promotions = [], ct_alert = no_alert, ct_events = []\<rparr>"

section \<open>Fields\<close>

definition as_mapping :: "json \<Rightarrow> exn + (ustr \<times> json) list" where
  "as_mapping v = (case v of JObj kvs \<Rightarrow> Inr kvs | _ \<Rightarrow> Inl StateError)"

definition as_list :: "json \<Rightarrow> exn + json list" where
  "as_list v = (case v of JArr vs \<Rightarrow> Inr vs | _ \<Rightarrow> Inl StateError)"

definition as_string :: "json \<Rightarrow> exn + ustr" where
  "as_string v = (case v of JStr s \<Rightarrow> Inr s | _ \<Rightarrow> Inl StateError)"

definition as_optional_string :: "json \<Rightarrow> exn + ustr option" where
  "as_optional_string v = (case v of JNull \<Rightarrow> Inr None | JStr s \<Rightarrow> Inr (Some s) | _ \<Rightarrow> Inl StateError)"

definition as_optional_int :: "json \<Rightarrow> exn + int option" where
  "as_optional_int v = (case v of JNull \<Rightarrow> Inr None | JInt i \<Rightarrow> Inr (Some i) | _ \<Rightarrow> Inl StateError)"

fun jopt_int :: "int option \<Rightarrow> json" where
  "jopt_int None = JNull"
| "jopt_int (Some i) = JInt i"

text \<open>A string that must be the value of one of the members.\<close>

definition member_field :: "('a \<Rightarrow> ustr) \<Rightarrow> 'a list \<Rightarrow> json \<Rightarrow> exn + 'a" where
  "member_field val members v = (case find (\<lambda>m. v = JStr (val m)) members of Some m \<Rightarrow> Inr m | None \<Rightarrow> Inl StateError)"

definition curator_kind :: "json \<Rightarrow> exn + memory_kind" where
  "curator_kind = member_field memory_kind_value [Kind_memory, Kind_user]"

definition promotion_status_field :: "json \<Rightarrow> exn + promotion_status" where
  "promotion_status_field =
     member_field promotion_status_value [Promo_prepared, Promo_posted, Promo_reconciled, Promo_legacy_unbound]"

definition owner_phase_field :: "json \<Rightarrow> exn + owner_phase" where
  "owner_phase_field = member_field owner_phase_value [Owner_posted, Owner_deleted]"

definition PROMOTION_KEYS :: "ustr list" where
  "PROMOTION_KEYS =
     [lit ''source_kind'', lit ''entry_sha256'', lit ''slug'', lit ''created_at'', lit ''note_sha256'',
      lit ''draft_id'', lit ''confirm_message_id'', lit ''status'', lit ''posted_at'', lit ''reconciled_at'',
      lit ''backup_path'', lit ''last_block_reason'']"

definition ALERT_KEYS :: "ustr list" where
  "ALERT_KEYS = [lit ''last_observed_signature'', lit ''last_sent_signature'', lit ''last_sent_at'', lit ''pending_signature'']"

definition promotion_of :: "(ustr \<times> json) list \<Rightarrow> exn + promotion" where
  "promotion_of kvs =
     bindE (curator_kind (jfield kvs ''source_kind'')) (\<lambda>source_kind.
     bindE (as_string (jfield kvs ''entry_sha256'')) (\<lambda>entry_sha256.
     bindE (as_string (jfield kvs ''slug'')) (\<lambda>slug.
     bindE (as_string (jfield kvs ''created_at'')) (\<lambda>created_at.
     bindE (as_string (jfield kvs ''note_sha256'')) (\<lambda>note_sha256.
     bindE (as_optional_string (jfield kvs ''draft_id'')) (\<lambda>draft_id.
     bindE (as_optional_string (jfield kvs ''confirm_message_id'')) (\<lambda>confirm_message_id.
     bindE (promotion_status_field (jfield kvs ''status'')) (\<lambda>status.
     bindE (as_optional_string (jfield kvs ''posted_at'')) (\<lambda>posted_at.
     bindE (as_optional_string (jfield kvs ''reconciled_at'')) (\<lambda>reconciled_at.
     bindE (as_optional_string (jfield kvs ''backup_path'')) (\<lambda>backup_path.
     bindE (as_optional_string (jfield kvs ''last_block_reason'')) (\<lambda>last_block_reason.
       Inr \<lparr>pm_source_kind = source_kind, pm_entry_sha256 = entry_sha256, pm_slug = slug, pm_created_at = created_at,
         pm_note_sha256 = note_sha256, pm_draft_id = draft_id, pm_confirm_message_id = confirm_message_id,
         pm_status = status, pm_posted_at = posted_at, pm_reconciled_at = reconciled_at,
         pm_backup_path = backup_path, pm_last_block_reason = last_block_reason\<rparr>))))))))))))"

definition parse_promotion :: "json \<Rightarrow> exn + promotion" where
  "parse_promotion raw = bindE (as_mapping raw) (\<lambda>kvs.
     if key_set kvs \<noteq> set PROMOTION_KEYS then Inl StateError else promotion_of kvs)"

definition alert_of :: "(ustr \<times> json) list \<Rightarrow> exn + alert_state" where
  "alert_of kvs =
     bindE (as_optional_string (jfield kvs ''last_observed_signature'')) (\<lambda>observed.
     bindE (as_optional_string (jfield kvs ''last_sent_signature'')) (\<lambda>sent.
     bindE (as_optional_string (jfield kvs ''last_sent_at'')) (\<lambda>sent_at.
     bindE (as_optional_string (jfield kvs ''pending_signature'')) (\<lambda>waiting.
       Inr \<lparr>as_last_observed = observed, as_last_sent = sent, as_last_sent_at = sent_at, as_pending = waiting\<rparr>))))"

definition parse_alert :: "json \<Rightarrow> exn + alert_state" where
  "parse_alert raw = bindE (as_mapping raw) (\<lambda>kvs.
     if key_set kvs \<noteq> set ALERT_KEYS then Inl StateError else alert_of kvs)"

definition promotion_fields :: "promotion \<Rightarrow> (ustr \<times> json) list" where
  "promotion_fields p =
     [(lit ''source_kind'', JStr (memory_kind_value (pm_source_kind p))),
      (lit ''entry_sha256'', JStr (pm_entry_sha256 p)),
      (lit ''slug'', JStr (pm_slug p)),
      (lit ''created_at'', JStr (pm_created_at p)),
      (lit ''note_sha256'', JStr (pm_note_sha256 p)),
      (lit ''draft_id'', jopt (pm_draft_id p)),
      (lit ''confirm_message_id'', jopt (pm_confirm_message_id p)),
      (lit ''status'', JStr (promotion_status_value (pm_status p))),
      (lit ''posted_at'', jopt (pm_posted_at p)),
      (lit ''reconciled_at'', jopt (pm_reconciled_at p)),
      (lit ''backup_path'', jopt (pm_backup_path p)),
      (lit ''last_block_reason'', jopt (pm_last_block_reason p))]"

definition serialize_promotion :: "promotion \<Rightarrow> json" where
  "serialize_promotion p = JObj (promotion_fields p)"

definition alert_fields :: "alert_state \<Rightarrow> (ustr \<times> json) list" where
  "alert_fields a =
     [(lit ''last_observed_signature'', jopt (as_last_observed a)),
      (lit ''last_sent_signature'', jopt (as_last_sent a)),
      (lit ''last_sent_at'', jopt (as_last_sent_at a)),
      (lit ''pending_signature'', jopt (as_pending a))]"

definition serialize_alert :: "alert_state \<Rightarrow> json" where
  "serialize_alert a = JObj (alert_fields a)"

section \<open>The state\<close>

definition legacy_record :: "ustr \<Rightarrow> promotion" where
  "legacy_record old_hash =
     \<lparr>pm_source_kind = Kind_memory, pm_entry_sha256 = old_hash, pm_slug = [], pm_created_at = [], pm_note_sha256 = [],
      pm_draft_id = None, pm_confirm_message_id = None, pm_status = Promo_legacy_unbound, pm_posted_at = None,
      pm_reconciled_at = None, pm_backup_path = None, pm_last_block_reason = None\<rparr>"

fun migrate_hashes :: "(ustr, promotion) dict \<Rightarrow> json list \<Rightarrow> exn + (ustr, promotion) dict" where
  "migrate_hashes promotions [] = Inr promotions"
| "migrate_hashes promotions (v # vs) =
     bindE (as_string v) (\<lambda>old_hash.
       if old_hash \<in> set (dict_keys promotions) then Inl StateError
       else migrate_hashes (dict_set promotions old_hash (legacy_record old_hash)) vs)"

definition migrate_v1 :: "json list \<Rightarrow> exn + curator_state" where
  "migrate_v1 proposed = bindE (migrate_hashes [] proposed) (\<lambda>promotions.
     Inr \<lparr>ct_version = CURATOR_VERSION, ct_promotions = promotions, ct_alert = no_alert, ct_events = []\<rparr>)"

definition EVENT_KEYS :: "ustr list" where
  "EVENT_KEYS = [lit ''phase'', lit ''preview'', lit ''twin_kind'', lit ''draft_id'', lit ''freed_chars'']"

text \<open>The fields that go with a phase.\<close>

definition event_shape :: "owner_phase \<Rightarrow> ustr option \<Rightarrow> ustr option \<Rightarrow> int option \<Rightarrow> bool" where
  "event_shape phase twin_kind draft_id freed = (case phase of
      Owner_posted \<Rightarrow> twin_kind \<noteq> None \<and> draft_id \<noteq> None \<and> freed = None
    | Owner_deleted \<Rightarrow> twin_kind = None \<and> draft_id = None \<and> freed \<noteq> None)"

definition owner_event_of :: "ustr \<Rightarrow> (ustr \<times> json) list \<Rightarrow> exn + owner_event" where
  "owner_event_of key kvs =
     bindE (owner_phase_field (jfield kvs ''phase'')) (\<lambda>phase.
     bindE (as_optional_string (jfield kvs ''twin_kind'')) (\<lambda>twin_kind.
     bindE (as_optional_string (jfield kvs ''draft_id'')) (\<lambda>draft_id.
     bindE (as_optional_int (jfield kvs ''freed_chars'')) (\<lambda>freed.
       if \<not> event_shape phase twin_kind draft_id freed then Inl StateError
       else if \<not> ends_with key (lit ''#'' @ owner_phase_value phase) then Inl StateError
       else bindE (as_string (jfield kvs ''preview'')) (\<lambda>preview.
         Inr \<lparr>oe_key = key, oe_phase = phase, oe_preview = preview, oe_twin_kind = twin_kind,
           oe_draft_id = draft_id, oe_freed_chars = freed\<rparr>)))))"

definition parse_event :: "ustr \<Rightarrow> json \<Rightarrow> exn + owner_event" where
  "parse_event key raw = bindE (as_mapping raw) (\<lambda>kvs.
     if key_set kvs \<noteq> set EVENT_KEYS then Inl StateError else owner_event_of key kvs)"

definition parse_current :: "(ustr \<times> json) list \<Rightarrow> json \<Rightarrow> exn + curator_state" where
  "parse_current payload pending_raw =
     bindE (as_mapping (jfield payload ''promotions'')) (\<lambda>promotions_raw.
     bindE (parse_items (\<lambda>_. parse_promotion) [] promotions_raw) (\<lambda>promotions.
     bindE (parse_alert (jfield payload ''alert'')) (\<lambda>al.
     bindE (as_mapping pending_raw) (\<lambda>events_raw.
     bindE (parse_items parse_event [] events_raw) (\<lambda>events.
       Inr \<lparr>ct_version = CURATOR_VERSION, ct_promotions = promotions, ct_alert = al, ct_events = events\<rparr>)))))"

definition require_curator_version :: "json \<Rightarrow> int \<Rightarrow> exn + unit" where
  "require_curator_version v expected = (case v of JInt i \<Rightarrow> guardE (i = expected) StateError | _ \<Rightarrow> Inl StateError)"

definition parse_curator_state :: "json \<Rightarrow> exn + curator_state" where
  "parse_curator_state raw = bindE (as_mapping raw) (\<lambda>payload.
     if key_set payload = {lit ''proposed''}
     then bindE (as_list (jfield payload ''proposed'')) migrate_v1
     else if key_set payload = {lit ''version'', lit ''promotions'', lit ''alert''}
     then bindE (require_curator_version (jfield payload ''version'') 2) (\<lambda>_. parse_current payload (JObj []))
     else if key_set payload = {lit ''version'', lit ''promotions'', lit ''alert'', lit ''pending_owner_events''}
     then bindE (require_curator_version (jfield payload ''version'') CURATOR_VERSION) (\<lambda>_.
       parse_current payload (jfield payload ''pending_owner_events''))
     else Inl StateError)"

definition event_fields :: "owner_event \<Rightarrow> (ustr \<times> json) list" where
  "event_fields e =
     [(lit ''phase'', JStr (owner_phase_value (oe_phase e))),
      (lit ''preview'', JStr (oe_preview e)),
      (lit ''twin_kind'', jopt (oe_twin_kind e)),
      (lit ''draft_id'', jopt (oe_draft_id e)),
      (lit ''freed_chars'', jopt_int (oe_freed_chars e))]"

definition serialize_event :: "owner_event \<Rightarrow> json" where
  "serialize_event e = JObj (event_fields e)"

definition serialize_curator_state :: "curator_state \<Rightarrow> json" where
  "serialize_curator_state s = JObj
     [(lit ''version'', JInt CURATOR_VERSION),
      (lit ''promotions'', object_of serialize_promotion (ct_promotions s)),
      (lit ''alert'', serialize_alert (ct_alert s)),
      (lit ''pending_owner_events'', object_of serialize_event (ct_events s))]"

text \<open>\<open>state_store.py\<close>: an atomic replacement of the file, with sorted keys.\<close>

definition load_curator_state :: "file_read \<Rightarrow> exn + curator_state" where
  "load_curator_state f = (case f of
      FileMissing \<Rightarrow> Inr curator_empty
    | FileJson raw \<Rightarrow> parse_curator_state raw
    | _ \<Rightarrow> Inl StateError)"

definition saved_curator_state :: "curator_state \<Rightarrow> file_read" where
  "saved_curator_state s = FileJson (sort_keys (serialize_curator_state s))"

section \<open>The codec\<close>

named_theorems curator_codec \<open>what the field parsers accept\<close>

lemma as_fields [curator_codec]:
  "as_string (JStr s) = Inr s" "as_optional_string (jopt v) = Inr v" "as_optional_int (jopt_int i) = Inr i"
  "as_mapping (JObj kvs) = Inr kvs"
  by (cases v; cases i; simp add: as_string_def as_optional_string_def as_optional_int_def as_mapping_def)+

lemma member_fields [curator_codec]:
  "curator_kind (JStr (memory_kind_value k)) = Inr k"
  "promotion_status_field (JStr (promotion_status_value st)) = Inr st"
  "owner_phase_field (JStr (owner_phase_value ph)) = Inr ph"
  subgoal by (cases k; simp add: curator_kind_def member_field_def)
  subgoal by (cases st; simp add: promotion_status_field_def member_field_def)
  subgoal by (cases ph; simp add: owner_phase_field_def member_field_def)
  done

lemma sort_keys_jopt_int [simp]: "sort_keys (jopt_int i) = jopt_int i"
  by (cases i) simp_all

lemma promotion_fields_keys: "map fst (promotion_fields p) = PROMOTION_KEYS"
  by (simp add: promotion_fields_def PROMOTION_KEYS_def)

lemma alert_fields_keys: "map fst (alert_fields a) = ALERT_KEYS"
  by (simp add: alert_fields_def ALERT_KEYS_def)

lemma event_fields_keys: "map fst (event_fields e) = EVENT_KEYS"
  by (simp add: event_fields_def EVENT_KEYS_def)

lemma wf_fields: "wf_dict (promotion_fields p)" "wf_dict (alert_fields a)" "wf_dict (event_fields e)"
  by (simp_all add: wf_dict_def promotion_fields_keys alert_fields_keys event_fields_keys
      PROMOTION_KEYS_def ALERT_KEYS_def EVENT_KEYS_def)

lemma sort_fields: "sort_keys_items (promotion_fields p) = promotion_fields p"
  "sort_keys_items (alert_fields a) = alert_fields a" "sort_keys_items (event_fields e) = event_fields e"
  by (simp_all add: promotion_fields_def alert_fields_def event_fields_def)

lemma key_fields:
  "fst ` set (promotion_fields p) = set PROMOTION_KEYS" "fst ` set (alert_fields a) = set ALERT_KEYS"
  "fst ` set (event_fields e) = set EVENT_KEYS"
  using promotion_fields_keys [of p] alert_fields_keys [of a] event_fields_keys [of e] by (metis list.set_map)+

lemma parse_promotion_sorted: "parse_promotion (sort_keys (serialize_promotion p)) = Inr p"
proof -
  have "promotion_of (sort_key fst (promotion_fields p)) = Inr p"
    by (simp add: promotion_of_def jfield_sort [OF wf_fields(1)]) (simp add: promotion_fields_def curator_codec)
  then show ?thesis
    by (simp add: parse_promotion_def serialize_promotion_def sort_fields curator_codec key_fields)
qed

lemma parse_alert_sorted: "parse_alert (sort_keys (serialize_alert a)) = Inr a"
proof -
  have "alert_of (sort_key fst (alert_fields a)) = Inr a"
    by (simp add: alert_of_def jfield_sort [OF wf_fields(2)]) (simp add: alert_fields_def curator_codec)
  then show ?thesis
    by (simp add: parse_alert_def serialize_alert_def sort_fields curator_codec key_fields)
qed

definition event_ok :: "ustr \<Rightarrow> owner_event \<Rightarrow> bool" where
  "event_ok k e \<longleftrightarrow> oe_key e = k \<and> event_shape (oe_phase e) (oe_twin_kind e) (oe_draft_id e) (oe_freed_chars e)
     \<and> ends_with k (lit ''#'' @ owner_phase_value (oe_phase e))"

lemma parse_event_sorted:
  assumes "event_ok k e"
  shows "parse_event k (sort_keys (serialize_event e)) = Inr e"
proof -
  have "owner_event_of k (sort_key fst (event_fields e)) = Inr e"
    unfolding owner_event_of_def jfield_sort [OF wf_fields(3)]
    using assms by (cases e) (simp add: event_fields_def event_ok_def as_fields member_fields del: bindE_eq_Inr)
  then show ?thesis
    by (simp add: parse_event_def serialize_event_def sort_fields curator_codec key_fields)
qed

lemma parse_event_ok: "parse_event k raw = Inr e \<Longrightarrow> event_ok k e"
  by (auto simp: parse_event_def owner_event_of_def event_ok_def split: if_splits)

definition curator_ok :: "curator_state \<Rightarrow> bool" where
  "curator_ok s \<longleftrightarrow> ct_version s = CURATOR_VERSION \<and> wf_dict (ct_promotions s)
     \<and> wf_dict (ct_events s) \<and> list_all (\<lambda>(k, e). event_ok k e) (ct_events s)"

definition curator_in_order :: "curator_state \<Rightarrow> curator_state" where
  "curator_in_order s = s\<lparr>ct_promotions := sort_key fst (ct_promotions s), ct_events := sort_key fst (ct_events s)\<rparr>"

lemma parse_current_saved:
  assumes "curator_ok s" and "wf_dict kvs"
    and "dict_get kvs (lit ''promotions'') = Some (object_of serialize_promotion (ct_promotions s))"
    and "dict_get kvs (lit ''alert'') = Some (serialize_alert (ct_alert s))"
  shows "parse_current (sort_key fst (sort_keys_items kvs)) (sort_keys (object_of serialize_event (ct_events s)))
    = Inr (curator_in_order s)"
proof -
  obtain ps where ps: "sort_keys (object_of serialize_promotion (ct_promotions s)) = JObj ps" by (simp add: object_of_def)
  obtain es where es: "sort_keys (object_of serialize_event (ct_events s)) = JObj es" by (simp add: object_of_def)
  have "parse_items (\<lambda>_. parse_promotion) [] ps = Inr (sort_key fst (ct_promotions s))"
    using assms(1) by (intro parse_saved_items [OF _ _ ps]) (auto simp: curator_ok_def list_all_iff parse_promotion_sorted)
  moreover have "parse_items parse_event [] es = Inr (sort_key fst (ct_events s))"
    using assms(1)
    by (intro parse_saved_items [OF _ _ es]) (auto simp: curator_ok_def list_all_iff intro: parse_event_sorted)
  moreover have "jfield kvs ''promotions'' = object_of serialize_promotion (ct_promotions s)"
    "jfield kvs ''alert'' = serialize_alert (ct_alert s)"
    using assms(3,4) by (simp_all add: jfield_def jget_def)
  ultimately show ?thesis
    using assms(1)
    by (simp add: parse_current_def jfield_sorted [OF assms(2)] ps es as_fields(4) parse_alert_sorted
        curator_in_order_def curator_ok_def del: sort_keys.simps(2))
qed

lemma parse_saved_curator:
  assumes "curator_ok s"
  shows "parse_curator_state (sort_keys (serialize_curator_state s)) = Inr (curator_in_order s)"
proof -
  let ?kvs = "[(lit ''version'', JInt CURATOR_VERSION),
      (lit ''promotions'', object_of serialize_promotion (ct_promotions s)),
      (lit ''alert'', serialize_alert (ct_alert s)),
      (lit ''pending_owner_events'', object_of serialize_event (ct_events s))]"
  let ?sorted = "sort_key fst (sort_keys_items ?kvs)"
  have wf: "wf_dict ?kvs" by (simp add: wf_dict_def)
  have keys: "key_set ?sorted = {lit ''version'', lit ''promotions'', lit ''alert'', lit ''pending_owner_events''}"
    unfolding key_set_sorted by auto
  have new: "lit ''pending_owner_events'' \<notin> {lit ''version'', lit ''promotions'', lit ''alert''}"
    "lit ''pending_owner_events'' \<notin> {lit ''proposed''}" by simp_all
  have other: "key_set ?sorted \<noteq> {lit ''proposed''}" "key_set ?sorted \<noteq> {lit ''version'', lit ''promotions'', lit ''alert''}"
    unfolding keys using new by (metis insertCI)+
  have cur: "parse_current ?sorted (sort_keys (object_of serialize_event (ct_events s))) = Inr (curator_in_order s)"
    by (rule parse_current_saved [OF assms wf]) (simp_all add: dict_get_Cons)
  have "jfield ?sorted ''version'' = JInt CURATOR_VERSION"
    "jfield ?sorted ''pending_owner_events'' = sort_keys (object_of serialize_event (ct_events s))"
    unfolding jfield_sorted [OF wf] by simp_all
  with keys other cur show ?thesis
    by (simp add: parse_curator_state_def serialize_curator_state_def as_fields(4) require_curator_version_def
        del: set_sort set_map sort_keys_items.simps)
qed

lemma parse_current_ok: "parse_current kvs pending = Inr s \<Longrightarrow> curator_ok s"
  using parse_items_wf [of parse_event "[]" _ _ event_ok, OF _ _ _ parse_event_ok]
    parse_items_wf [of "\<lambda>_. parse_promotion" "[]" _ _ "\<lambda>_ _. True"]
  by (fastforce simp: parse_current_def curator_ok_def)

lemma migrate_hashes_legacy:
  "migrate_hashes d vs = Inr d' \<Longrightarrow> wf_dict d \<Longrightarrow> list_all (\<lambda>(k, p). p = legacy_record k) d \<Longrightarrow>
     wf_dict d' \<and> list_all (\<lambda>(k, p). p = legacy_record k) d'"
proof (induction d vs rule: migrate_hashes.induct)
  case (2 d v vs)
  from "2.prems"(1) obtain h where h: "as_string v = Inr h" "h \<notin> set (dict_keys d)"
    "migrate_hashes (dict_set d h (legacy_record h)) vs = Inr d'" by (auto split: if_splits)
  then show ?case using "2.IH" [OF h(1,2)] "2.prems"(2,3) wf_dict_set [OF "2.prems"(2), of h "legacy_record h"]
    by (simp add: dict_set_new)
qed simp

lemma load_curator_ok: "load_curator_state f = Inr s \<Longrightarrow> curator_ok s"
  by (cases f) (auto simp: load_curator_state_def curator_empty_def curator_ok_def parse_curator_state_def migrate_v1_def
      dest!: migrate_hashes_legacy parse_current_ok split: if_splits)

text \<open>What loads from the curator's state file, in any of its three versions, is well formed: every owner
  event has the fields of its phase and a key that ends in it. A well-formed state survives a save and a
  load with its records in the order of their keys.\<close>

lemma curator_state_roundtrip:
  "(load_curator_state f = Inr s \<longrightarrow> curator_ok s) \<and>
   (curator_ok s \<longrightarrow> load_curator_state (saved_curator_state s) = Inr (curator_in_order s))"
  using load_curator_ok parse_saved_curator by (simp add: load_curator_state_def saved_curator_state_def)

definition sample_promotion :: promotion where
  "sample_promotion = (legacy_record (lit ''h''))\<lparr>pm_slug := lit ''s'', pm_status := Promo_posted, pm_posted_at := Some (lit ''t'')\<rparr>"

definition sample_curator :: curator_state where
  "sample_curator = \<lparr>ct_version = CURATOR_VERSION, ct_promotions = [(lit ''memory:h'', sample_promotion)], ct_alert = no_alert,
     ct_events = [(lit ''k#deleted'', \<lparr>oe_key = lit ''k#deleted'', oe_phase = Owner_deleted, oe_preview = lit ''p'',
       oe_twin_kind = None, oe_draft_id = None, oe_freed_chars = Some 4\<rparr>)]\<rparr>"

lemma sample_curator_ok: "curator_ok sample_curator"
proof -
  have "ends_with (lit ''k#deleted'') (lit ''#deleted'')"
    using ends_with_append [of "lit ''k''" "lit ''#deleted''"] by (simp add: lit_append [symmetric])
  then show ?thesis
    by (simp add: curator_ok_def sample_curator_def wf_dict_def event_ok_def event_shape_def lit_append [symmetric])
qed

lemma curator_state_roundtrip_witness:
  "load_curator_state (saved_curator_state sample_curator) = Inr sample_curator \<and> curator_ok sample_curator"
proof -
  have "curator_in_order sample_curator = sample_curator"
    by (simp add: curator_in_order_def sample_curator_def)
  with sample_curator_ok show ?thesis using curator_state_roundtrip [of "saved_curator_state sample_curator" sample_curator] by simp
qed

text \<open>A file of the first version holds nothing that may be deleted.\<close>

lemma legacy_status [simp]: "pm_status (legacy_record h) = Promo_legacy_unbound"
  by (simp add: legacy_record_def)

lemma migrated_is_legacy:
  "load_curator_state (FileJson (JObj [(lit ''proposed'', JArr vs)])) = Inr s \<Longrightarrow>
     \<forall>(k, p) \<in> set (ct_promotions s). p = legacy_record k"
  using migrate_hashes_legacy [of "[]" vs]
  by (auto simp: load_curator_state_def parse_curator_state_def as_mapping_def as_list_def migrate_v1_def
      list_all_iff)

end
