(* ===== verification/Promotion.thy ===== *)
theory Promotion
  imports CuratorState MemoryDelete
begin

text \<open>
  \<open>binding.py\<close>, \<open>promotion.py\<close> and \<open>reconcile.py\<close> of \<open>automation/memory_curator\<close>: an entry of the native
  memory that holds a durable judgment is proposed as a note of the decision twin. The note carries a
  marker that names the entry by its digest; once the note is saved, the marker and the hash of the note
  authorize the deletion of exactly that entry. SHA-256 is an argument.
\<close>

section \<open>Bindings\<close>

definition promotion_key :: "memory_kind \<Rightarrow> ustr \<Rightarrow> ustr" where
  "promotion_key source_kind digest = memory_kind_value source_kind @ lit '':'' @ digest"

definition promoted_slug :: "memory_kind \<Rightarrow> ustr \<Rightarrow> ustr" where
  "promoted_slug source_kind digest = lit ''memory-promoted-'' @ memory_kind_value source_kind @ lit ''-'' @ take 32 digest"

record deletion_marker =
  dm_version :: ustr
  dm_key :: ustr
  dm_kind :: memory_kind
  dm_digest :: ustr
  dm_delete :: bool

definition MARKER_VERSION :: ustr where "MARKER_VERSION = lit ''mc-marker-v1''"

definition MARKER_PREFIX :: ustr where "MARKER_PREFIX = lit ''<!-- mc-marker-''"

definition escapes_comment :: "ustr \<Rightarrow> bool" where
  "escapes_comment v \<longleftrightarrow> 10 \<in> set v \<or> 13 \<in> set v \<or> contains v (lit ''-->'')"

definition render_marker :: "deletion_marker \<Rightarrow> exn + ustr" where
  "render_marker m =
     (if list_ex escapes_comment [dm_version m, dm_key m, memory_kind_value (dm_kind m), dm_digest m] then Inl ValueError
      else Inr (lit ''<!-- '' @ dm_version m @ lit '' key='' @ dm_key m @ lit '' kind='' @ memory_kind_value (dm_kind m)
        @ lit '' digest='' @ dm_digest m @ lit '' delete-after-persist=''
        @ (if dm_delete m then lit ''true'' else lit ''false'') @ lit '' -->''))"

text \<open>\<open>text.count(sub)\<close>, without overlaps, for a non-empty \<open>sub\<close>.\<close>

function count_str :: "ustr \<Rightarrow> ustr \<Rightarrow> nat" where
  "count_str sub [] = 0"
| "count_str sub (c # cs) =
     (if sub \<noteq> [] \<and> starts_with (c # cs) sub then Suc (count_str sub (drop (length sub) (c # cs)))
      else count_str sub cs)"
  by pat_completeness auto
termination
proof (relation "measure (\<lambda>(sub, s). length s)", goal_cases)
  case (2 sub c cs)
  then show ?case by (cases sub) auto
qed auto

text \<open>The steps of \<open>_MARKER_PATTERN\<close>. Every character class of the pattern excludes the blank that follows
  it, so a repetition takes all it can and nothing is tried again.\<close>

definition eat :: "ustr \<Rightarrow> ustr \<Rightarrow> ustr option" where
  "eat p s = (if starts_with s p then Some (drop (length p) s) else None)"

definition eat_run :: "(nat \<Rightarrow> bool) \<Rightarrow> ustr \<Rightarrow> (ustr \<times> ustr) option" where
  "eat_run P s = (if takeWhile P s = [] then None else Some (takeWhile P s, dropWhile P s))"

definition eat_either :: "(ustr \<times> 'a) list \<Rightarrow> ustr \<Rightarrow> ('a \<times> ustr) option" where
  "eat_either alternatives s = (case find (\<lambda>(p, x). starts_with s p) alternatives of
      Some (p, x) \<Rightarrow> Some (x, drop (length p) s) | None \<Rightarrow> None)"

definition ascii_alnum :: "nat \<Rightarrow> bool" where
  "ascii_alnum c \<longleftrightarrow> 48 \<le> c \<and> c \<le> 57 \<or> 65 \<le> c \<and> c \<le> 90 \<or> 97 \<le> c \<and> c \<le> 122"

definition version_char :: "nat \<Rightarrow> bool" where
  "version_char c \<longleftrightarrow> ascii_alnum c \<or> c = 46 \<or> c = 95 \<or> c = 45"

definition key_char :: "nat \<Rightarrow> bool" where
  "key_char c \<longleftrightarrow> \<not> is_space c \<and> c \<noteq> 60 \<and> c \<noteq> 62"

definition hex_char :: "nat \<Rightarrow> bool" where
  "hex_char c \<longleftrightarrow> 48 \<le> c \<and> c \<le> 57 \<or> 97 \<le> c \<and> c \<le> 102"

text \<open>A match at the start of the string.\<close>

definition match_marker :: "ustr \<Rightarrow> deletion_marker option" where
  "match_marker s =
     Option.bind (eat MARKER_PREFIX s) (\<lambda>s.
     Option.bind (eat_run version_char s) (\<lambda>(version, s).
     Option.bind (eat (lit '' key='') s) (\<lambda>s.
     Option.bind (eat_run key_char s) (\<lambda>(key, s).
     Option.bind (eat (lit '' kind='') s) (\<lambda>s.
     Option.bind (eat_either [(lit ''memory'', Kind_memory), (lit ''user'', Kind_user)] s) (\<lambda>(kind, s).
     Option.bind (eat (lit '' digest='') s) (\<lambda>s.
     Option.bind (eat_run hex_char s) (\<lambda>(digest, s).
     if length digest \<noteq> 64 then None else
     Option.bind (eat (lit '' delete-after-persist='') s) (\<lambda>s.
     Option.bind (eat_either [(lit ''true'', True), (lit ''false'', False)] s) (\<lambda>(delete, s).
     Option.bind (eat (lit '' -->'') s) (\<lambda>_.
       Some \<lparr>dm_version = lit ''mc-marker-'' @ version, dm_key = key, dm_kind = kind, dm_digest = digest,
         dm_delete = delete\<rparr>)))))))))))"

text \<open>A match begins with the prefix, and the prefix occurs once.\<close>

definition parse_marker :: "ustr \<Rightarrow> deletion_marker option" where
  "parse_marker note_text =
     (if count_str MARKER_PREFIX note_text \<noteq> 1 then None
      else case find_from note_text MARKER_PREFIX 0 of
        None \<Rightarrow> None
      | Some i \<Rightarrow> (case match_marker (drop i note_text) of
          None \<Rightarrow> None
        | Some m \<Rightarrow>
            if dm_version m \<noteq> MARKER_VERSION then None
            else if dm_key m \<noteq> promotion_key (dm_kind m) (dm_digest m) then None
            else Some m))"

record promotion_receipt =
  rc_draft_id :: ustr
  rc_confirm_message_id :: ustr
  rc_slug :: ustr
  rc_note_sha256 :: ustr

section \<open>Proposals\<close>

datatype twin_kind = Twin_principle | Twin_preference | Twin_decision

fun twin_kind_value :: "twin_kind \<Rightarrow> ustr" where
  "twin_kind_value Twin_principle = lit ''principle''"
| "twin_kind_value Twin_preference = lit ''preference''"
| "twin_kind_value Twin_decision = lit ''decision''"

text \<open>The proposer's authority and provenance are the constants \<open>advisory\<close> and \<open>observed\<close>.\<close>

record proposal =
  pp_source_kind :: memory_kind
  pp_entry_text :: ustr
  pp_twin_kind :: twin_kind
  pp_slug :: ustr
  pp_title :: ustr
  pp_body :: ustr
  pp_entry_digest :: ustr
  pp_promotion_key :: ustr

definition DECISION_CUES :: "ustr list" where
  "DECISION_CUES = [[44208, 51221], [51221, 54664], [54616, 44592, 47196, 32, 54664], [47196, 32, 51221, 54620, 45796]]"

definition PREFERENCE_CUES :: "ustr list" where
  "PREFERENCE_CUES = [[49440, 54840], [51339, 50500], [49899, 50612], [52712, 54693]]"

definition PROMOTION_NOTE :: ustr where
  "PROMOTION_NOTE = [40, 51088, 52404, 32, 47700, 47784, 47532, 50640, 49436, 32, 51088, 46041, 32, 49849, 44201, 32, 8212, 32, 49548, 50976, 51088, 32, 54869, 51064, 32, 49884, 32, 48372, 50756, 41]"

definition content_hash :: "(ustr \<Rightarrow> ustr) \<Rightarrow> ustr \<Rightarrow> ustr" where
  "content_hash sha256 source = sha256 (join [32] (split_ws source))"

definition infer_twin_kind :: "ustr \<Rightarrow> twin_kind" where
  "infer_twin_kind source =
     (if list_ex (contains source) DECISION_CUES then Twin_decision
      else if list_ex (contains source) PREFERENCE_CUES then Twin_preference
      else Twin_principle)"

definition proposal_body :: "twin_kind \<Rightarrow> ustr \<Rightarrow> ustr" where
  "proposal_body kind source = (case kind of
      Twin_preference \<Rightarrow> lit ''## Preference'' @ [10] @ source @ [10, 10] @ lit ''## Boundary'' @ [10] @ PROMOTION_NOTE
    | Twin_decision \<Rightarrow>
        lit ''## Context'' @ [10] @ PROMOTION_NOTE @ [10, 10] @ lit ''## Decision'' @ [10] @ source @ [10, 10]
        @ lit ''## Rationale & Trade-offs'' @ [10] @ PROMOTION_NOTE @ [10, 10]
        @ lit ''## What would change my mind'' @ [10] @ PROMOTION_NOTE
    | Twin_principle \<Rightarrow>
        lit ''## Trigger'' @ [10] @ PROMOTION_NOTE @ [10, 10] @ lit ''## Rule'' @ [10] @ source @ [10, 10]
        @ lit ''## Exceptions'' @ [10] @ PROMOTION_NOTE)"

definition marker_for :: "memory_kind \<Rightarrow> ustr \<Rightarrow> deletion_marker" where
  "marker_for kind digest = \<lparr>dm_version = MARKER_VERSION, dm_key = promotion_key kind digest, dm_kind = kind,
     dm_digest = digest, dm_delete = True\<rparr>"

definition PROMOTION_TITLE :: ustr where
  "PROMOTION_TITLE = ([47700, 47784, 47532, 32, 49849, 44201, 40, 49849, 51064, 32, 49884, 32, 51088, 52404, 32, 47700, 47784, 47532, 50640, 49436, 32, 49325, 51228] @ lit ''): '')"

definition build_proposal :: "(ustr \<Rightarrow> ustr) \<Rightarrow> memory_kind \<Rightarrow> ustr \<Rightarrow> exn + proposal" where
  "build_proposal sha256 source_kind entry_text =
     (let twin = infer_twin_kind entry_text;
          digest = entry_digest sha256 source_kind entry_text;
          summary = take 24 (join [32] (split_ws entry_text)) in
      bindE (render_marker (marker_for source_kind digest)) (\<lambda>marker.
        Inr \<lparr>pp_source_kind = source_kind, pp_entry_text = entry_text, pp_twin_kind = twin,
          pp_slug = promoted_slug source_kind digest, pp_title = PROMOTION_TITLE @ summary,
          pp_body = proposal_body twin entry_text @ [10] @ marker, pp_entry_digest = digest,
          pp_promotion_key = promotion_key source_kind digest\<rparr>))"

fun new_proposals :: "(ustr \<Rightarrow> ustr) \<Rightarrow> memory_kind \<Rightarrow> ustr set \<Rightarrow> ustr list \<Rightarrow> exn + proposal list" where
  "new_proposals sha256 source_kind seen [] = Inr []"
| "new_proposals sha256 source_kind seen (e # es) =
     (let digest = content_hash sha256 e in
      if digest \<in> seen then new_proposals sha256 source_kind seen es
      else bindE (build_proposal sha256 source_kind e) (\<lambda>p.
           bindE (new_proposals sha256 source_kind (insert digest seen) es) (\<lambda>ps. Inr (p # ps))))"

section \<open>Reconciliation\<close>

datatype block_reason =
    Note_missing | Note_not_regular_file | Note_hash_mismatch | Marker_missing | Marker_mismatch
  | Entry_not_found | Entry_ambiguous

fun block_reason_value :: "block_reason \<Rightarrow> ustr" where
  "block_reason_value Note_missing = lit ''note_missing''"
| "block_reason_value Note_not_regular_file = lit ''note_not_regular_file''"
| "block_reason_value Note_hash_mismatch = lit ''note_hash_mismatch''"
| "block_reason_value Marker_missing = lit ''marker_missing''"
| "block_reason_value Marker_mismatch = lit ''marker_mismatch''"
| "block_reason_value Entry_not_found = lit ''entry_not_found''"
| "block_reason_value Entry_ambiguous = lit ''entry_ambiguous''"

datatype reconcile_decision =
    Reconcile_delete nat
  | Reconcile_skip "block_reason option"
  | Reconcile_terminal "block_reason option"

definition marker_binds :: "promotion \<Rightarrow> deletion_marker \<Rightarrow> bool" where
  "marker_binds r m \<longleftrightarrow> dm_key m = promotion_key (pm_source_kind r) (pm_entry_sha256 r)
     \<and> dm_kind m = pm_source_kind r \<and> dm_digest m = pm_entry_sha256 r \<and> dm_delete m"

definition entry_indices :: "(ustr \<Rightarrow> ustr) \<Rightarrow> promotion \<Rightarrow> ustr list \<Rightarrow> nat list" where
  "entry_indices sha256 r es =
     filter (\<lambda>i. entry_digest sha256 (pm_source_kind r) (es ! i) = pm_entry_sha256 r) [0..<length es]"

definition decide_reconcile ::
    "(blob \<Rightarrow> ustr) \<Rightarrow> promotion \<Rightarrow> blob option \<Rightarrow> bool \<Rightarrow> ustr list \<Rightarrow> reconcile_decision" where
  "decide_reconcile sha r note_bytes note_is_regular_file es =
     (if pm_status r = Promo_legacy_unbound then Reconcile_skip None
      else if pm_status r = Promo_reconciled then Reconcile_terminal None
      else case note_bytes of
        None \<Rightarrow> Reconcile_skip (Some Note_missing)
      | Some note \<Rightarrow>
          if \<not> note_is_regular_file then Reconcile_skip (Some Note_not_regular_file)
          else if sha note \<noteq> pm_note_sha256 r then Reconcile_skip (Some Note_hash_mismatch)
          else case decode_utf8 note of
            Inl _ \<Rightarrow> Reconcile_skip (Some Marker_missing)
          | Inr note_text \<Rightarrow> (case parse_marker note_text of
              None \<Rightarrow> Reconcile_skip (Some Marker_missing)
            | Some m \<Rightarrow>
                if \<not> marker_binds r m then Reconcile_skip (Some Marker_mismatch)
                else case entry_indices (\<lambda>s. sha (Utf8 s)) r es of
                  [] \<Rightarrow> Reconcile_terminal (Some Entry_not_found)
                | [i] \<Rightarrow> Reconcile_delete i
                | _ \<Rightarrow> Reconcile_skip (Some Entry_ambiguous)))"

section \<open>Occurrences\<close>

lemma starts_with_nl: "10 \<notin> set sub \<Longrightarrow> starts_with (a @ 10 # b) sub \<longleftrightarrow> starts_with a sub"
proof
  assume nl: "10 \<notin> set sub" and "starts_with (a @ 10 # b) sub"
  then obtain t where t: "a @ 10 # b = sub @ t" by (auto simp: starts_with_iff)
  show "starts_with a sub"
  proof (cases "length sub \<le> length a")
    case True
    then show ?thesis using t by (metis append_eq_append_conv_if starts_with_iff append_take_drop_id)
  next
    case False
    then have "sub ! length a = 10" using t by (metis leI nth_append nth_append_length)
    with nl False show ?thesis by (metis leI nth_mem)
  qed
qed (auto simp: starts_with_iff)

lemma count_str_nl:
  "10 \<notin> set sub \<Longrightarrow> count_str sub (a @ 10 # b) = count_str sub a + count_str sub b"
proof (induction sub a rule: count_str.induct)
  case (1 sub)
  then show ?case using starts_with_nl [of sub "[]" b] by (auto simp: starts_with_def)
next
  case (2 sub c cs)
  show ?case
  proof (cases "sub \<noteq> [] \<and> starts_with (c # cs) sub")
    case True
    then have "length sub \<le> length (c # cs)" by (auto simp: starts_with_iff) (metis le_add1 length_append length_Cons)
    then have "drop (length sub) ((c # cs) @ 10 # b) = drop (length sub) (c # cs) @ 10 # b"
      by (simp only: drop_append) simp
    then show ?thesis using True 2 starts_with_nl [OF 2(3), of "c # cs" b] by simp
  next
    case False
    then have "count_str sub ((c # cs) @ 10 # b) = count_str sub (cs @ 10 # b)"
      using starts_with_nl [OF 2(3), of "c # cs" b] by auto
    with False 2 show ?thesis by auto
  qed
qed

lemma count_str_absent: "c \<in> set sub \<Longrightarrow> c \<notin> set s \<Longrightarrow> count_str sub s = 0"
proof (induction sub s rule: count_str.induct)
  case (2 sub d ds)
  have "\<not> starts_with (d # ds) sub"
  proof
    assume "starts_with (d # ds) sub"
    then obtain t where "d # ds = sub @ t" by (auto simp: starts_with_iff)
    with 2(3,4) show False by (metis Un_iff set_append)
  qed
  with 2 show ?case by simp
qed simp

lemma find_at_nl:
  "10 \<notin> set sub \<Longrightarrow> sub \<noteq> [] \<Longrightarrow> find_at sub pos (a @ 10 # b) =
     (case find_at sub pos a of Some i \<Rightarrow> Some i | None \<Rightarrow> find_at sub (Suc (pos + length a)) b)"
proof (induction a arbitrary: pos)
  case Nil
  then show ?case using starts_with_nl [of sub "[]" b] by (auto simp: starts_with_def)
next
  case (Cons c a)
  then show ?case using starts_with_nl [of sub "c # a" b] by (simp split: option.splits)
qed

lemma find_at_count: "sub \<noteq> [] \<Longrightarrow> find_at sub pos s = None \<longleftrightarrow> count_str sub s = 0"
  by (induction sub s arbitrary: pos rule: count_str.induct) auto

lemma contains_count: "sub \<noteq> [] \<Longrightarrow> contains s sub \<longleftrightarrow> count_str sub s \<noteq> 0"
  by (simp add: contains_def find_from_def find_at_count [of sub])

section \<open>The marker of a proposal is found\<close>

lemma eat_append [simp]: "eat p (p @ s) = Some s"
  by (simp add: eat_def starts_with_def)

lemma eat_run_append: "list_all P w \<Longrightarrow> w \<noteq> [] \<Longrightarrow> \<not> P c \<Longrightarrow> eat_run P (w @ c # s) = Some (w, c # s)"
  by (simp add: eat_run_def takeWhile_append2 dropWhile_append2 list_all_iff)

definition hex64 :: "ustr \<Rightarrow> bool" where
  "hex64 d \<longleftrightarrow> length d = 64 \<and> list_all hex_char d"

definition plain_char :: "nat \<Rightarrow> bool" where
  "plain_char c \<longleftrightarrow> 33 \<le> c \<and> c \<le> 59 \<or> 63 \<le> c \<and> c \<le> 126"

lemma plain_key: "plain_char c \<Longrightarrow> key_char c"
  by (auto simp: plain_char_def key_char_def is_space_def)

lemma plain_keys: "list_all plain_char s \<Longrightarrow> list_all key_char s"
  by (auto simp: list_all_iff plain_key)

lemma hex_key: "hex_char c \<Longrightarrow> key_char c"
  by (rule plain_key) (auto simp: hex_char_def plain_char_def)

lemma plain_literals: "list_all plain_char (memory_kind_value kind)" "list_all plain_char (lit '':'')"
  "list_all plain_char MARKER_VERSION"
  by (cases kind; simp add: lit_def plain_char_def) (simp_all add: lit_def plain_char_def MARKER_VERSION_def)

lemma blank_ends: "\<not> version_char 32" "\<not> key_char 32" "\<not> hex_char 32"
  by (simp_all add: version_char_def ascii_alnum_def key_char_def is_space_def hex_char_def)

lemma eat_run_blank:
  "list_all P w \<Longrightarrow> w \<noteq> [] \<Longrightarrow> \<not> P 32 \<Longrightarrow> eat_run P (w @ lit (CHR '' '' # t) @ s) = Some (w, lit (CHR '' '' # t) @ s)"
  using eat_run_append [of P w 32 "lit t @ s"] by (simp add: lit_def)

lemma version_v1: "list_all version_char (lit ''v1'')"
  by (simp add: lit_def version_char_def ascii_alnum_def)

lemma hex64_keys: "hex64 d \<Longrightarrow> list_all key_char d"
  by (auto simp: hex64_def list_all_iff hex_key)

lemma key_of_hex:
  assumes "hex64 d"
  shows "list_all key_char (promotion_key kind d)"
proof -
  show ?thesis using hex64_keys [OF assms] plain_keys [OF plain_literals(1)] plain_keys [OF plain_literals(2)]
    by (simp add: promotion_key_def)
qed

lemma eat_kind: "eat_either [(lit ''memory'', Kind_memory), (lit ''user'', Kind_user)] (memory_kind_value kind @ s) = Some (kind, s)"
  by (cases kind) (simp_all add: eat_either_def starts_with_def lit_def)

lemma rendered_marker:
  assumes "hex64 d"
  shows "render_marker (marker_for kind d) = Inr (MARKER_PREFIX @ lit ''v1'' @ lit '' key='' @ promotion_key kind d
    @ lit '' kind='' @ memory_kind_value kind @ lit '' digest='' @ d @ lit '' delete-after-persist='' @ lit ''true'' @ lit '' -->'')"
proof -
  have "\<not> escapes_comment v" if "list_all key_char v" for v
  proof -
    have "\<not> key_char 10" "\<not> key_char 13" "\<not> key_char 62" by (simp_all add: key_char_def is_space_def)
    with that have "10 \<notin> set v" "13 \<notin> set v" "62 \<notin> set v" by (auto simp only: list_all_iff)
    moreover have "62 \<in> set (lit ''-->'')" by (simp add: lit_def)
    ultimately show ?thesis
      using count_str_absent [of 62 "lit ''-->''" v] by (simp add: escapes_comment_def contains_count)
  qed
  moreover note plain_keys [OF plain_literals(1)] plain_keys [OF plain_literals(3)]
  ultimately have "\<not> list_ex escapes_comment [MARKER_VERSION, promotion_key kind d, memory_kind_value kind, d]"
    using key_of_hex [OF assms, of kind] hex64_keys [OF assms] by simp
  moreover have "lit ''<!-- '' @ MARKER_VERSION = MARKER_PREFIX @ lit ''v1''"
    by (simp add: MARKER_VERSION_def MARKER_PREFIX_def lit_append [symmetric])
  then have "lit ''<!-- '' @ MARKER_VERSION @ s = MARKER_PREFIX @ lit ''v1'' @ s" for s
    by (metis append_assoc)
  ultimately show ?thesis by (simp add: render_marker_def marker_for_def)
qed

lemma match_rendered:
  assumes "hex64 d" and "render_marker (marker_for kind d) = Inr m"
  shows "match_marker (m @ post) = Some (marker_for kind d)"
proof -
  have d: "list_all hex_char d" "d \<noteq> []" "length d = 64" using assms(1) by (auto simp: hex64_def)
  have m: "m @ post = MARKER_PREFIX @ lit ''v1'' @ lit '' key='' @ promotion_key kind d
    @ lit '' kind='' @ memory_kind_value kind @ lit '' digest='' @ d @ lit '' delete-after-persist='' @ lit ''true'' @ lit '' -->'' @ post"
    using assms(2) rendered_marker [OF assms(1), of kind] by simp
  have key: "promotion_key kind d \<noteq> []" by (simp add: promotion_key_def)
  show ?thesis
    unfolding m match_marker_def
    apply (simp add: eat_run_blank [OF version_v1] eat_run_blank [OF key_of_hex [OF assms(1)] key] eat_run_blank [OF d(1,2)]
        blank_ends eat_kind d(3))
    apply (simp add: eat_either_def starts_with_def marker_for_def MARKER_VERSION_def lit_append [symmetric])
    done
qed

lemma count_str_start: "sub \<noteq> [] \<Longrightarrow> count_str sub (sub @ s) = Suc (count_str sub s)"
  by (cases sub) (simp_all add: starts_with_def)

lemma find_at_start: "starts_with s sub \<Longrightarrow> find_at sub k s = Some k"
  by (cases s) (auto simp: starts_with_def)

declare count_str.simps(2) [simp del]

lemma prefix_nl [simp]: "10 \<notin> set MARKER_PREFIX" "MARKER_PREFIX \<noteq> []" "60 \<in> set MARKER_PREFIX"
  by (simp_all add: MARKER_PREFIX_def lit_def)

lemma count_prefix_nl:
  "count_str MARKER_PREFIX (a @ 10 # b) = count_str MARKER_PREFIX a + count_str MARKER_PREFIX b"
  "count_str MARKER_PREFIX (10 # b) = count_str MARKER_PREFIX b"
  using count_str_nl [of MARKER_PREFIX a b] count_str_nl [of MARKER_PREFIX "[]" b] by simp_all

lemma body_literals:
  "60 \<notin> set (lit ''## Preference'')" "60 \<notin> set (lit ''## Boundary'')" "60 \<notin> set (lit ''## Context'')"
  "60 \<notin> set (lit ''## Decision'')" "60 \<notin> set (lit ''## Rationale & Trade-offs'')"
  "60 \<notin> set (lit ''## What would change my mind'')" "60 \<notin> set (lit ''## Trigger'')" "60 \<notin> set (lit ''## Rule'')"
  "60 \<notin> set (lit ''## Exceptions'')" "60 \<notin> set PROMOTION_NOTE"
  by (simp_all add: lit_def PROMOTION_NOTE_def)

lemma count_body: "count_str MARKER_PREFIX (proposal_body twin source) = count_str MARKER_PREFIX source"
  by (cases twin) (simp_all add: proposal_body_def count_prefix_nl count_str_absent [OF prefix_nl(3)] body_literals)

lemma count_marker:
  assumes "hex64 d" and "render_marker (marker_for kind d) = Inr m"
  shows "count_str MARKER_PREFIX m = 1" "starts_with m MARKER_PREFIX"
proof -
  let ?rest = "lit ''v1'' @ lit '' key='' @ promotion_key kind d @ lit '' kind='' @ memory_kind_value kind
      @ lit '' digest='' @ d @ lit '' delete-after-persist='' @ lit ''true'' @ lit '' -->''"
  have m: "m = MARKER_PREFIX @ ?rest" using assms(2) rendered_marker [OF assms(1), of kind] by simp
  then show "starts_with m MARKER_PREFIX" by (auto simp: starts_with_iff)
  have "\<not> key_char 60" by (simp add: key_char_def)
  then have k: "60 \<notin> set (promotion_key kind d)" "60 \<notin> set d" "60 \<notin> set (memory_kind_value kind)"
    using key_of_hex [OF assms(1), of kind] hex64_keys [OF assms(1)] plain_keys [OF plain_literals(1), of kind]
    by (auto simp only: list_all_iff)
  have "60 \<notin> set ?rest" using k by (simp add: lit_def)
  then have "count_str MARKER_PREFIX ?rest = 0" by (rule count_str_absent [OF prefix_nl(3)])
  then show "count_str MARKER_PREFIX m = 1" unfolding m by (subst count_str_start) simp_all
qed

lemma proposal_parts:
  assumes "build_proposal sha256 kind source = Inr p"
  shows "\<exists>m. render_marker (marker_for kind (pp_entry_digest p)) = Inr m
    \<and> pp_body p = proposal_body (infer_twin_kind source) source @ 10 # m
    \<and> pp_entry_digest p = entry_digest sha256 kind source"
  using assms by (auto simp: build_proposal_def Let_def)

lemma proposal_marker_spec:
  assumes "build_proposal sha256 kind source = Inr p" and "hex64 (entry_digest sha256 kind source)"
    and "\<not> contains before MARKER_PREFIX" and "\<not> contains after MARKER_PREFIX"
  shows "parse_marker (before @ [10] @ pp_body p @ [10] @ after) =
    (if contains source MARKER_PREFIX then None else Some (marker_for kind (entry_digest sha256 kind source)))"
proof -
  let ?d = "entry_digest sha256 kind source"
  obtain m where m: "render_marker (marker_for kind ?d) = Inr m"
    and body: "pp_body p = proposal_body (infer_twin_kind source) source @ 10 # m"
    using proposal_parts [OF assms(1)] by auto
  let ?b = "proposal_body (infer_twin_kind source) source"
  let ?note = "before @ 10 # ?b @ 10 # m @ 10 # after"
  note count = count_prefix_nl count_body count_marker(1) [OF assms(2) m] contains_count [OF prefix_nl(2)]
  have total: "count_str MARKER_PREFIX ?note = count_str MARKER_PREFIX source + 1"
    using assms(3,4) by (simp add: count)
  show ?thesis
  proof (cases "contains source MARKER_PREFIX")
    case True
    with total show ?thesis by (simp add: parse_marker_def body count)
  next
    case False
    have none: "find_at MARKER_PREFIX k before = None" "find_at MARKER_PREFIX k ?b = None" for k
      using assms(3) False by (simp_all add: find_at_count count)
    have "find_at MARKER_PREFIX k (m @ 10 # after) = Some k" for k
      using count_marker(2) [OF assms(2) m] starts_with_nl [of MARKER_PREFIX m after]
      by (simp add: find_at_start)
    then have "find_from ?note MARKER_PREFIX 0 = Some (length before + 1 + length ?b + 1)"
      by (simp add: find_from_def find_at_nl none)
    moreover have "drop (length before + 1 + length ?b + 1) ?note = m @ 10 # after" by simp
    moreover have "dm_key (marker_for kind ?d) = promotion_key (dm_kind (marker_for kind ?d)) (dm_digest (marker_for kind ?d))"
      "dm_version (marker_for kind ?d) = MARKER_VERSION" by (simp_all add: marker_for_def)
    ultimately show ?thesis
      using False total match_rendered [OF assms(2) m, of "10 # after"] by (simp add: parse_marker_def body count)
  qed
qed

text \<open>C28. A note that holds the body of a proposal on lines of its own, and no other marker around it, has
  the marker of exactly this entry. An entry whose own text has a marker gets a note with no valid marker,
  so it is never deleted.\<close>

theorem proposal_carries_marker:
  assumes "build_proposal sha256 kind source = Inr p" and "hex64 (entry_digest sha256 kind source)"
    and "\<not> contains before MARKER_PREFIX" and "\<not> contains after MARKER_PREFIX"
  shows "parse_marker (before @ [10] @ pp_body p @ [10] @ after) =
    (if contains source MARKER_PREFIX then None else Some (marker_for kind (entry_digest sha256 kind source)))"
  using assms by (rule proposal_marker_spec)

definition fixed_sha :: "ustr \<Rightarrow> ustr" where
  "fixed_sha _ = replicate 64 97"

lemma hex64_fixed: "hex64 (entry_digest fixed_sha kind source)"
  by (simp add: hex64_def entry_digest_def fixed_sha_def hex_char_def list_all_iff)

theorem proposal_carries_marker_witness:
  "\<exists>p. build_proposal fixed_sha Kind_memory (lit ''a'') = Inr p
    \<and> parse_marker (lit ''---'' @ [10] @ pp_body p @ [10] @ lit ''end'')
      = Some (marker_for Kind_memory (entry_digest fixed_sha Kind_memory (lit ''a'')))"
proof -
  obtain p where p: "build_proposal fixed_sha Kind_memory (lit ''a'') = Inr p"
    using rendered_marker [OF hex64_fixed, of Kind_memory Kind_memory "lit ''a''"] by (simp add: build_proposal_def Let_def)
  have "60 \<notin> set (lit ''---'')" "60 \<notin> set (lit ''end'')" "60 \<notin> set (lit ''a'')" by (simp_all add: lit_def)
  then have no: "\<not> contains (lit ''---'') MARKER_PREFIX" "\<not> contains (lit ''end'') MARKER_PREFIX" "\<not> contains (lit ''a'') MARKER_PREFIX"
    using count_str_absent [OF prefix_nl(3)] by (simp_all add: contains_count)
  show ?thesis using proposal_carries_marker [OF p hex64_fixed no(1,2)] no(3) p by simp
qed

lemma reconcile_deletes_spec:
  "decide_reconcile sha r note_bytes regular es = Reconcile_delete i \<longleftrightarrow>
    pm_status r \<in> {Promo_prepared, Promo_posted} \<and> regular
    \<and> (\<exists>note m. note_bytes = Some (Utf8 note) \<and> sha (Utf8 note) = pm_note_sha256 r
         \<and> parse_marker note = Some m \<and> marker_binds r m)
    \<and> i < length es \<and> {j. j < length es \<and> entry_digest (\<lambda>s. sha (Utf8 s)) (pm_source_kind r) (es ! j) = pm_entry_sha256 r} = {i}"
proof -
  have idx: "entry_indices (\<lambda>s. sha (Utf8 s)) r es = [i] \<longleftrightarrow> i < length es \<and>
      {j. j < length es \<and> entry_digest (\<lambda>s. sha (Utf8 s)) (pm_source_kind r) (es ! j) = pm_entry_sha256 r} = {i}" (is "?l = [i] \<longleftrightarrow> _ \<and> ?S = _")
  proof -
    have "distinct ?l" by (simp add: entry_indices_def)
    moreover have "set ?l = ?S" by (auto simp add: entry_indices_def)
    moreover note distinct_single [of ?l i]
    moreover have "?l = [i] \<Longrightarrow> set ?l = {i}" by (metis empty_set list.simps(15))
    ultimately have "?l = [i] \<longleftrightarrow> ?S = {i}" by metis
    moreover have "?S = {i} \<Longrightarrow> i < length es" by blast
    ultimately show ?thesis by blast
  qed
  have list: "(case l of [] \<Rightarrow> Reconcile_terminal x | [j] \<Rightarrow> Reconcile_delete j | _ \<Rightarrow> Reconcile_skip y) = Reconcile_delete i \<longleftrightarrow> l = [i]"
    for l x y by (auto split: list.splits)
  have "decide_reconcile sha r note_bytes regular es = Reconcile_delete i \<longleftrightarrow>
      pm_status r \<in> {Promo_prepared, Promo_posted} \<and> regular
      \<and> (\<exists>note m. note_bytes = Some (Utf8 note) \<and> sha (Utf8 note) = pm_note_sha256 r
           \<and> parse_marker note = Some m \<and> marker_binds r m) \<and> ?l = [i]"
  proof (cases "pm_status r \<in> {Promo_prepared, Promo_posted}")
    case False
    then show ?thesis by (cases "pm_status r") (simp_all add: decide_reconcile_def)
  next
    case live: True
    then have st: "pm_status r \<noteq> Promo_legacy_unbound" "pm_status r \<noteq> Promo_reconciled" by auto
    show ?thesis
    proof (cases note_bytes)
      case None
      with st show ?thesis by (simp add: decide_reconcile_def)
    next
      case (Some nb)
      show ?thesis
      proof (cases nb)
        case (Utf8 nt)
        with Some st live show ?thesis
          by (cases "parse_marker nt") (simp_all add: decide_reconcile_def decode_utf8_def list)
      next
        case (Not_utf8 x2)
        with Some st show ?thesis by (simp add: decide_reconcile_def decode_utf8_def)
      qed
    qed
  qed
  then show ?thesis unfolding idx .
qed

text \<open>C27. An entry is deleted exactly when its record is not done and not a legacy one, the saved note is a
  regular file with the recorded hash, its one marker names this record and asks for the deletion, and
  the digest fits exactly one entry of the file, the one that is deleted.\<close>

theorem reconcile_deletes_iff:
  "decide_reconcile sha r note_bytes regular es = Reconcile_delete i \<longleftrightarrow>
    pm_status r \<in> {Promo_prepared, Promo_posted} \<and> regular
    \<and> (\<exists>note m. note_bytes = Some (Utf8 note) \<and> sha (Utf8 note) = pm_note_sha256 r
         \<and> parse_marker note = Some m \<and> marker_binds r m)
    \<and> i < length es \<and> {j. j < length es \<and> entry_digest (\<lambda>s. sha (Utf8 s)) (pm_source_kind r) (es ! j) = pm_entry_sha256 r} = {i}"
  by (rule reconcile_deletes_spec)

end
