(* ===== verification/Reconcile.thy ===== *)
theory Reconcile
  imports Promotion
begin

text \<open>
  The steps of a curator tick: \<open>watch_steps.py\<close> (deleting what its saved note authorizes), \<open>candidates.py\<close>
  (proposing entries, biggest first), \<open>legacy_rebind.py\<close> and the previews of \<open>reporting.py\<close>, of
  \<open>automation/memory_curator\<close>. Reading a note of the twin is an argument, as is the effect that posts a
  proposal for the owner's confirmation.
\<close>

section \<open>Coverage by older records\<close>

definition legacy_covers :: "(ustr \<Rightarrow> ustr) \<Rightarrow> (ustr, promotion) dict \<Rightarrow> ustr \<Rightarrow> bool" where
  "legacy_covers sha256 promotions entry_text = (case dict_get promotions (content_hash sha256 entry_text) of
      None \<Rightarrow> False | Some legacy \<Rightarrow> pm_status legacy = Promo_legacy_unbound)"

datatype entry_status = Entry_unproposed | Entry_awaiting_artifact | Entry_verification_blocked | Entry_legacy_unbound

fun entry_status_value :: "entry_status \<Rightarrow> ustr" where
  "entry_status_value Entry_unproposed = lit ''unproposed''"
| "entry_status_value Entry_awaiting_artifact = lit ''awaiting_artifact''"
| "entry_status_value Entry_verification_blocked = lit ''verification_blocked''"
| "entry_status_value Entry_legacy_unbound = lit ''legacy_unbound''"

definition MANUAL_REASONS :: "ustr list" where
  "MANUAL_REASONS = [lit ''note_not_regular_file'', lit ''note_hash_mismatch'', lit ''marker_missing'',
     lit ''marker_mismatch'', lit ''entry_ambiguous'']"

definition VERIFICATION_REASONS :: "ustr list" where
  "VERIFICATION_REASONS = MANUAL_REASONS @ [lit ''post_failed'']"

definition candidate_status :: "(ustr \<Rightarrow> ustr) \<Rightarrow> memory_kind \<Rightarrow> ustr \<Rightarrow> (ustr, promotion) dict \<Rightarrow> entry_status" where
  "candidate_status sha256 kind entry_text promotions =
     (if legacy_covers sha256 promotions entry_text then Entry_legacy_unbound
      else case dict_get promotions (promotion_key kind (entry_digest sha256 kind entry_text)) of
        None \<Rightarrow> Entry_unproposed
      | Some r \<Rightarrow>
          if (case pm_last_block_reason r of None \<Rightarrow> False | Some x \<Rightarrow> x \<in> set VERIFICATION_REASONS)
          then Entry_verification_blocked
          else (case pm_status r of
              Promo_posted \<Rightarrow> Entry_awaiting_artifact
            | Promo_legacy_unbound \<Rightarrow> Entry_legacy_unbound
            | _ \<Rightarrow> Entry_unproposed))"

section \<open>Reconciliation\<close>

record blocked_item =
  bk_key :: ustr
  bk_reason :: ustr
  bk_text :: "ustr option"

record deleted_item =
  dl_key :: ustr
  dl_kind :: memory_kind
  dl_text :: ustr
  dl_freed :: int
  dl_backup :: "ustr option"
  dl_applied :: bool

record reconcile_request =
  rk_sha256 :: "blob \<Rightarrow> ustr"
  rk_read_twin :: "ustr \<Rightarrow> blob option"
  rk_stamp :: ustr
  rk_timestamp :: ustr
  rk_dry_run :: bool
  rk_faults :: disk_faults
  rk_backup_name :: "memory_kind \<times> ustr \<Rightarrow> ustr"

record reconcile_result =
  rx_promotions :: "(ustr, promotion) dict"
  rx_deleted :: "deleted_item list"
  rx_blocked :: "blocked_item list"
  rx_reasons :: "ustr set"

definition set_promotion :: "ustr \<Rightarrow> promotion \<Rightarrow> reconcile_result \<Rightarrow> reconcile_result" where
  "set_promotion key r rx = rx\<lparr>rx_promotions := dict_set (rx_promotions rx) key r\<rparr>"

definition delete_failed :: "ustr \<Rightarrow> promotion \<Rightarrow> ustr option \<Rightarrow> reconcile_result \<Rightarrow> reconcile_result" where
  "delete_failed key r entry_text rx =
     (set_promotion key (r\<lparr>pm_last_block_reason := Some (lit ''delete_failed'')\<rparr>) rx)
       \<lparr>rx_blocked := rx_blocked rx @ [\<lparr>bk_key = key, bk_reason = lit ''delete_failed'', bk_text = entry_text\<rparr>]\<rparr>"

text \<open>The \<open>delete\<close> branch, with the entry and the bytes that were read.\<close>

definition carry_out :: "reconcile_request \<Rightarrow> ustr \<Rightarrow> promotion \<Rightarrow> blob \<Rightarrow> memory_file \<Rightarrow> nat \<Rightarrow> reconcile_result \<Rightarrow> reconcile_result disk_eff" where
  "carry_out rk key r current_bytes f i rx =
     (if \<not> i < length (mf_entries f) then ret (delete_failed key r None rx)
      else let entry_text = mf_entries f ! i in
        if rk_dry_run rk
        then ret (rx\<lparr>rx_deleted := rx_deleted rx @ [\<lparr>dl_key = key, dl_kind = pm_source_kind r, dl_text = entry_text,
               dl_freed = int (char_count f) - int (char_count \<lparr>mf_kind = pm_source_kind r, mf_entries = without i (mf_entries f)\<rparr>),
               dl_backup = None, dl_applied = False\<rparr>]\<rparr>)
        else bindM (catchM
            (bindM (delete_entry (rk_faults rk) (pm_source_kind r) (int i) current_bytes (rk_stamp rk)) (\<lambda>out. ret (Some out)))
            (\<lambda>e. if e = DeletionError then Some (ret None) else None)) (\<lambda>outcome. case outcome of
          None \<Rightarrow> ret (delete_failed key r (Some entry_text) rx)
        | Some out \<Rightarrow>
            ret ((set_promotion key (r\<lparr>pm_status := Promo_reconciled, pm_reconciled_at := Some (rk_timestamp rk),
                  pm_backup_path := Some (rk_backup_name rk (do_backup out)), pm_last_block_reason := None\<rparr>) rx)
                \<lparr>rx_deleted := rx_deleted rx @ [\<lparr>dl_key = key, dl_kind = pm_source_kind r, dl_text = entry_text,
                   dl_freed = int (do_before_chars out) - int (do_after_chars out),
                   dl_backup = Some (rk_backup_name rk (do_backup out)), dl_applied = True\<rparr>]\<rparr>)))"

text \<open>The verdict on what was read.\<close>

definition reconcile_entry :: "reconcile_request \<Rightarrow> ustr \<Rightarrow> promotion \<Rightarrow> blob \<Rightarrow> memory_file \<Rightarrow> reconcile_result \<Rightarrow> reconcile_result disk_eff" where
  "reconcile_entry rk key r current_bytes f rx =
     (let note_bytes = rk_read_twin rk (pm_slug r) in
      case decide_reconcile (rk_sha256 rk) r note_bytes (note_bytes \<noteq> None) (mf_entries f) of
        Reconcile_delete i \<Rightarrow> carry_out rk key r current_bytes f i rx
      | Reconcile_terminal reason \<Rightarrow>
          ret (set_promotion key (r\<lparr>pm_status := Promo_reconciled, pm_reconciled_at := Some (rk_timestamp rk),
            pm_last_block_reason := map_option block_reason_value reason\<rparr>) rx)
      | Reconcile_skip reason \<Rightarrow>
          (let rx' = set_promotion key (r\<lparr>pm_last_block_reason := map_option block_reason_value reason\<rparr>) rx in
           case reason of
             None \<Rightarrow> ret rx'
           | Some x \<Rightarrow> ret (rx'\<lparr>rx_reasons := insert (block_reason_value x) (rx_reasons rx),
               rx_blocked := rx_blocked rx @ [\<lparr>bk_key = key, bk_reason = block_reason_value x, bk_text = None\<rparr>]\<rparr>)))"

definition reconcile_one :: "reconcile_request \<Rightarrow> ustr \<Rightarrow> promotion \<Rightarrow> reconcile_result \<Rightarrow> reconcile_result disk_eff" where
  "reconcile_one rk key r rx =
     (if pm_status r \<notin> {Promo_prepared, Promo_posted} then ret rx
      else bindM (read_native (pm_source_kind r)) (\<lambda>(current_bytes, f). reconcile_entry rk key r current_bytes f rx))"

fun reconcile_loop :: "reconcile_request \<Rightarrow> (ustr \<times> promotion) list \<Rightarrow> reconcile_result \<Rightarrow> reconcile_result disk_eff" where
  "reconcile_loop rk [] rx = ret rx"
| "reconcile_loop rk ((key, r) # rest) rx = bindM (reconcile_one rk key r rx) (reconcile_loop rk rest)"

definition reconcile_promotions :: "reconcile_request \<Rightarrow> (ustr, promotion) dict \<Rightarrow> reconcile_result disk_eff" where
  "reconcile_promotions rk promotions =
     reconcile_loop rk promotions \<lparr>rx_promotions = promotions, rx_deleted = [], rx_blocked = [], rx_reasons = {}\<rparr>"

section \<open>Proposing\<close>

record selection_result =
  se_promotions :: "(ustr, promotion) dict"
  se_promoted :: "(proposal \<times> promotion_receipt) list"
  se_blocked :: "blocked_item list"
  se_attempts :: nat

record 'w promoter =
  pr_sha256 :: "ustr \<Rightarrow> ustr"
  pr_promote :: "proposal \<Rightarrow> ('w, exn, promotion_receipt option) eff"
  pr_timestamp :: ustr
  pr_dry_run :: bool
  pr_max :: int

definition fresh_promotion :: "'w promoter \<Rightarrow> memory_kind \<Rightarrow> ustr \<Rightarrow> ustr \<Rightarrow> promotion" where
  "fresh_promotion pr kind digest slug =
     \<lparr>pm_source_kind = kind, pm_entry_sha256 = digest, pm_slug = slug, pm_created_at = pr_timestamp pr, pm_note_sha256 = [],
      pm_draft_id = None, pm_confirm_message_id = None, pm_status = Promo_prepared, pm_posted_at = None,
      pm_reconciled_at = None, pm_backup_path = None, pm_last_block_reason = None\<rparr>"

definition blocked_entry :: "ustr \<Rightarrow> string \<Rightarrow> ustr \<Rightarrow> selection_result \<Rightarrow> selection_result" where
  "blocked_entry key reason entry_text se =
     se\<lparr>se_blocked := se_blocked se @ [\<lparr>bk_key = key, bk_reason = lit reason, bk_text = Some entry_text\<rparr>]\<rparr>"

text \<open>What the receipt of a posted proposal does to the record.\<close>

definition record_receipt ::
    "'w promoter \<Rightarrow> ustr \<Rightarrow> ustr \<Rightarrow> proposal \<Rightarrow> promotion \<Rightarrow> promotion_receipt option \<Rightarrow> selection_result \<Rightarrow> selection_result" where
  "record_receipt pr key entry_text p r receipt se = (case receipt of
      None \<Rightarrow> blocked_entry key ''post_failed'' entry_text
        (se\<lparr>se_promotions := dict_set (se_promotions se) key (r\<lparr>pm_last_block_reason := Some (lit ''post_failed'')\<rparr>)\<rparr>)
    | Some rc \<Rightarrow> se\<lparr>
        se_promotions := dict_set (se_promotions se) key (r\<lparr>pm_status := Promo_posted, pm_draft_id := Some (rc_draft_id rc),
          pm_confirm_message_id := Some (rc_confirm_message_id rc), pm_note_sha256 := rc_note_sha256 rc,
          pm_posted_at := Some (pr_timestamp pr), pm_last_block_reason := None\<rparr>),
        se_promoted := se_promoted se @ [(p, rc)]\<rparr>)"

text \<open>One attempt: the record is set, the attempt counted, and the proposal posted unless this is a dry run.\<close>

definition start_attempt :: "ustr \<Rightarrow> promotion \<Rightarrow> selection_result \<Rightarrow> selection_result" where
  "start_attempt key r se = se\<lparr>se_promotions := dict_set (se_promotions se) key r, se_attempts := se_attempts se + 1\<rparr>"

definition attempt_promotion ::
    "'w promoter \<Rightarrow> memory_kind \<Rightarrow> ustr \<Rightarrow> promotion option \<Rightarrow> selection_result \<Rightarrow> ('w, exn, selection_result) eff" where
  "attempt_promotion pr kind entry_text existing se =
     (let digest = entry_digest (pr_sha256 pr) kind entry_text;
          key = promotion_key kind digest in
      bindM (liftE (build_proposal (pr_sha256 pr) kind entry_text)) (\<lambda>p.
        let r = (case existing of Some r \<Rightarrow> r | None \<Rightarrow> fresh_promotion pr kind digest (pp_slug p));
            started = start_attempt key r se in
        if pr_dry_run pr then ret (blocked_entry key ''dry_run'' entry_text started)
        else bindM (pr_promote pr p) (\<lambda>receipt. ret (record_receipt pr key entry_text p r receipt started))))"

fun select_entries :: "'w promoter \<Rightarrow> ranked_entry list \<Rightarrow> selection_result \<Rightarrow> ('w, exn, selection_result) eff" where
  "select_entries pr [] se = ret se"
| "select_entries pr ((kind, i, entry_text) # rest) se =
     (let key = promotion_key kind (entry_digest (pr_sha256 pr) kind entry_text);
          existing = dict_get (se_promotions se) key in
      if legacy_covers (pr_sha256 pr) (se_promotions se) entry_text then select_entries pr rest se
      else if (case existing of None \<Rightarrow> False | Some r \<Rightarrow> pm_status r \<noteq> Promo_prepared) then select_entries pr rest se
      else if int (se_attempts se) \<ge> pr_max pr then ret se
      else bindM (attempt_promotion pr kind entry_text existing se) (select_entries pr rest))"

definition select_promotions ::
    "'w promoter \<Rightarrow> (memory_kind, ustr list) dict \<Rightarrow> (memory_kind, memory_file) dict \<Rightarrow> (ustr, promotion) dict
      \<Rightarrow> ('w, exn, selection_result) eff" where
  "select_promotions pr candidates final_files promotions =
     bindM (liftE (order_by_reclaim (pr_sha256 pr) candidates final_files)) (\<lambda>ranked.
       select_entries pr ranked \<lparr>se_promotions = promotions, se_promoted = [], se_blocked = [], se_attempts = 0\<rparr>)"

section \<open>Owner events\<close>

definition token_char :: "nat \<Rightarrow> bool" where
  "token_char c \<longleftrightarrow> ascii_alnum c \<or> c \<in> {95, 46, 47, 43, 61, 45}"

text \<open>\<open>_TOKENISH.sub\<close>: every maximal run of at least sixteen token characters is redacted. \<open>run\<close> is the
  run up to here.\<close>

fun redact_runs :: "ustr \<Rightarrow> ustr \<Rightarrow> ustr" where
  "redact_runs run [] = (if length run \<ge> 16 then lit ''[REDACTED]'' else run)"
| "redact_runs run (c # cs) =
     (if token_char c then redact_runs (run @ [c]) cs
      else (if length run \<ge> 16 then lit ''[REDACTED]'' else run) @ c # redact_runs [] cs)"

definition PREVIEW_LIMIT :: nat where "PREVIEW_LIMIT = 28"

definition preview :: "ustr \<Rightarrow> ustr" where
  "preview source =
     (let redacted = redact_runs [] (join [32] (split_ws source)) in
      if length redacted \<le> PREVIEW_LIMIT then redacted else take PREVIEW_LIMIT redacted @ [8230])"

definition posted_event :: "proposal \<times> promotion_receipt \<Rightarrow> owner_event" where
  "posted_event pr = (case pr of (p, rc) \<Rightarrow>
     \<lparr>oe_key = pp_promotion_key p @ lit ''#posted'', oe_phase = Owner_posted, oe_preview = preview (pp_entry_text p),
      oe_twin_kind = Some (twin_kind_value (pp_twin_kind p)), oe_draft_id = Some (rc_draft_id rc), oe_freed_chars = None\<rparr>)"

definition deleted_event :: "deleted_item \<Rightarrow> owner_event" where
  "deleted_event d =
     \<lparr>oe_key = dl_key d @ lit ''#deleted'', oe_phase = Owner_deleted, oe_preview = preview (dl_text d),
      oe_twin_kind = None, oe_draft_id = None, oe_freed_chars = Some (dl_freed d)\<rparr>"

definition make_owner_events :: "(proposal \<times> promotion_receipt) list \<Rightarrow> deleted_item list \<Rightarrow> owner_event list" where
  "make_owner_events promoted deleted_applied = map posted_event promoted @ map deleted_event deleted_applied"

section \<open>Reopening legacy records\<close>

fun rebind_loop :: "ustr set \<Rightarrow> int \<Rightarrow> ustr list \<Rightarrow> (ustr, promotion) dict \<Rightarrow> (ustr, promotion) dict \<times> ustr list" where
  "rebind_loop present max_rebind dropped [] = ([], dropped)"
| "rebind_loop present max_rebind dropped ((key, r) # rest) =
     (if pm_status r = Promo_legacy_unbound \<and> pm_entry_sha256 r \<in> present \<and> int (length dropped) < max_rebind
      then rebind_loop present max_rebind (dropped @ [key]) rest
      else case rebind_loop present max_rebind dropped rest of (kept, ds) \<Rightarrow> ((key, r) # kept, ds))"

definition rebind_legacy :: "curator_state \<Rightarrow> ustr set \<Rightarrow> int \<Rightarrow> curator_state \<times> ustr list" where
  "rebind_legacy s present max_rebind =
     (case rebind_loop present max_rebind [] (ct_promotions s) of (kept, dropped) \<Rightarrow> (s\<lparr>ct_promotions := kept\<rparr>, dropped))"

section \<open>What a reconciliation may do\<close>

definition authorized :: "reconcile_request \<Rightarrow> promotion \<Rightarrow> bool" where
  "authorized rk r \<longleftrightarrow> pm_status r \<in> {Promo_prepared, Promo_posted} \<and>
     (\<exists>note_text m. rk_read_twin rk (pm_slug r) = Some (Utf8 note_text) \<and> rk_sha256 rk (Utf8 note_text) = pm_note_sha256 r
        \<and> parse_marker note_text = Some m \<and> marker_binds r m)"

abbreviation fits_record :: "reconcile_request \<Rightarrow> promotion \<Rightarrow> ustr \<Rightarrow> bool" where
  "fits_record rk r e \<equiv> entry_digest (\<lambda>s. rk_sha256 rk (Utf8 s)) (pm_source_kind r) e = pm_entry_sha256 r"

text \<open>The runs of deletions of entries that records of \<open>ps\<close> authorize.\<close>

inductive approved_deletions :: "reconcile_request \<Rightarrow> (ustr \<times> promotion) list \<Rightarrow> mem_disk \<Rightarrow> mem_disk \<Rightarrow> bool"
  for rk ps w where
  Start: "approved_deletions rk ps w w"
| Keep: "approved_deletions rk ps w w1 \<Longrightarrow> md_nodes w2 = md_nodes w1 \<Longrightarrow> approved_deletions rk ps w w2"
| Delete: "approved_deletions rk ps w w1 \<Longrightarrow> (key, r) \<in> set ps \<Longrightarrow> authorized rk r \<Longrightarrow> \<not> rk_dry_run rk \<Longrightarrow>
    on_disk w1 (pm_source_kind r) source \<Longrightarrow>
    fits_record rk r (mf_entries (parse_memory_file (pm_source_kind r) source) ! i) \<Longrightarrow>
    deleted_one (pm_source_kind r) (int i) (Utf8 source) (rk_stamp rk) w1 w2 \<Longrightarrow> approved_deletions rk ps w w2"

text \<open>What a step may do to a record.\<close>

definition advances :: "promotion \<Rightarrow> promotion \<Rightarrow> bool" where
  "advances r r' \<longleftrightarrow> pm_source_kind r' = pm_source_kind r \<and> pm_entry_sha256 r' = pm_entry_sha256 r
     \<and> pm_slug r' = pm_slug r \<and> pm_note_sha256 r' = pm_note_sha256 r \<and> pm_confirm_message_id r' = pm_confirm_message_id r
     \<and> (pm_status r' = pm_status r \<or> pm_status r' = Promo_reconciled \<and> pm_reconciled_at r' \<noteq> None)
     \<and> (pm_status r \<notin> {Promo_prepared, Promo_posted} \<longrightarrow> r' = r)"

definition stepped :: "ustr \<Rightarrow> promotion \<Rightarrow> reconcile_result \<Rightarrow> reconcile_result \<Rightarrow> bool" where
  "stepped key r rx rx' \<longleftrightarrow> (\<exists>r'. advances r r' \<and>
     (rx_promotions rx' = rx_promotions rx \<and> r' = r \<or> rx_promotions rx' = dict_set (rx_promotions rx) key r'))"

lemma stepped_same [intro]: "rx_promotions rx' = rx_promotions rx \<Longrightarrow> stepped key r rx rx'"
  by (auto simp: stepped_def advances_def)

lemma stepped_set [intro]: "advances r r' \<Longrightarrow> rx_promotions rx' = rx_promotions (set_promotion key r' rx) \<Longrightarrow> stepped key r rx rx'"
  by (auto simp: stepped_def set_promotion_def)

lemma advances_live:
  assumes "pm_status r \<in> {Promo_prepared, Promo_posted}"
  shows "advances r (r\<lparr>pm_last_block_reason := x\<rparr>)"
    "advances r (r\<lparr>pm_status := Promo_reconciled, pm_reconciled_at := Some t, pm_last_block_reason := x\<rparr>)"
    "advances r (r\<lparr>pm_status := Promo_reconciled, pm_reconciled_at := Some t, pm_backup_path := b, pm_last_block_reason := x\<rparr>)"
  using assms by (auto simp: advances_def)

lemma stepped_failed: "pm_status r \<in> {Promo_prepared, Promo_posted} \<Longrightarrow> stepped key r rx (delete_failed key r x rx)"
  by (rule stepped_set [OF advances_live(1)]) (simp_all add: delete_failed_def)

lemma carry_out_spec:
  assumes "carry_out rk key r bytes f i rx w = (res, w')" and "pm_status r \<in> {Promo_prepared, Promo_posted}"
  shows "(md_nodes w' = md_nodes w \<or> \<not> rk_dry_run rk \<and> deleted_one (pm_source_kind r) (int i) bytes (rk_stamp rk) w w')
    \<and> (\<exists>rx'. res = Inr rx' \<and> stepped key r rx rx')"
proof (cases "\<not> i < length (mf_entries f) \<or> rk_dry_run rk")
  case True
  with assms(1) show ?thesis
    using stepped_failed [OF assms(2)] by (auto simp: carry_out_def Let_def eff_simps intro!: stepped_same split: if_splits)
next
  case False
  obtain dres w2 where del: "delete_entry (rk_faults rk) (pm_source_kind r) (int i) bytes (rk_stamp rk) w = (dres, w2)"
    by (cases "delete_entry (rk_faults rk) (pm_source_kind r) (int i) bytes (rk_stamp rk) w")
  note spec = delete_entry_spec [OF del]
  show ?thesis
  proof (cases dres)
    case (Inl e)
    with spec have "e = DeletionError" by simp
    then have "res = Inr (delete_failed key r (Some (mf_entries f ! i)) rx)" "w' = w2"
      using assms(1) False Inl del by (simp_all add: carry_out_def Let_def eff_simps catchM_def)
    with spec Inl False stepped_failed [OF assms(2)] show ?thesis by simp
  next
    case (Inr out)
    then show ?thesis using assms(1) False del spec
      by (auto simp: carry_out_def Let_def eff_simps catchM_def intro!: stepped_set [OF advances_live(3) [OF assms(2)]])
  qed
qed

lemma reconcile_one_spec:
  assumes run: "reconcile_one rk key r rx w = (res, w')"
    and ad: "approved_deletions rk ps w0 w" and mem: "(key, r) \<in> set ps"
  shows "approved_deletions rk ps w0 w' \<and> (\<forall>rx'. res = Inr rx' \<longrightarrow> stepped key r rx rx')"
proof (cases "pm_status r \<in> {Promo_prepared, Promo_posted}")
  case False
  with run have "res = Inr rx" "w' = w" by (simp_all add: reconcile_one_def eff_simps)
  with ad show ?thesis by auto
next
  case live: True
  then have one: "reconcile_one rk key r rx = bindM (read_native (pm_source_kind r))
      (\<lambda>(current_bytes, f). reconcile_entry rk key r current_bytes f rx)" by (auto simp: reconcile_one_def)
  obtain rres w1 where read: "read_native (pm_source_kind r) w = (rres, w1)"
    by (cases "read_native (pm_source_kind r) w")
  note w1 = read_native_run(1) [OF read]
  show ?thesis
  proof (cases rres)
    case (Inl e)
    with run read w1 ad show ?thesis by (auto simp: one bindM_app)
  next
    case (Inr bf)
    obtain bytes f where bf: "bf = (bytes, f)" by (cases bf)
    obtain source where s: "bytes = Utf8 source" "f = parse_memory_file (pm_source_kind r) source"
      using read_native_run(2) [OF read] Inr bf by blast
    have entry: "reconcile_entry rk key r bytes f rx w = (res, w')"
      using run read Inr bf w1 by (simp add: one bindM_app)
    let ?note = "rk_read_twin rk (pm_slug r)"
    show ?thesis
    proof (cases "decide_reconcile (rk_sha256 rk) r ?note (?note \<noteq> None) (mf_entries f)")
      case (Reconcile_delete i)
      with entry have c: "carry_out rk key r bytes f i rx w = (res, w')" by (simp add: reconcile_entry_def Let_def)
      note c = carry_out_spec [OF c live]
      have iff: "authorized rk r" "fits_record rk r (mf_entries f ! i)"
        using iffD1 [OF reconcile_deletes_spec Reconcile_delete] by (auto simp: authorized_def)
      have "approved_deletions rk ps w0 w'"
      proof (cases "md_nodes w' = md_nodes w")
        case True
        with ad show ?thesis by (rule approved_deletions.Keep)
      next
        case False
        with c have d: "\<not> rk_dry_run rk" "deleted_one (pm_source_kind r) (int i) bytes (rk_stamp rk) w w'" by auto
        then have "on_disk w (pm_source_kind r) source" by (auto simp: deleted_one_def s)
        with approved_deletions.Delete [OF ad mem iff(1) d(1), of source i w'] d(2) iff(2) show ?thesis by (simp add: s)
      qed
      with c show ?thesis by blast
    next
      case (Reconcile_skip reason)
      with entry ad show ?thesis
        by (cases reason) (auto simp: reconcile_entry_def Let_def eff_simps intro!: stepped_set [OF advances_live(1) [OF live]])
    next
      case (Reconcile_terminal reason)
      with entry ad show ?thesis
        by (auto simp: reconcile_entry_def Let_def eff_simps intro!: stepped_set [OF advances_live(2) [OF live]])
    qed
  qed
qed

text \<open>The records of the dictionary at the start against those at the end.\<close>

definition all_advance :: "(ustr \<times> promotion) list \<Rightarrow> (ustr, promotion) dict \<Rightarrow> (ustr, promotion) dict \<Rightarrow> bool" where
  "all_advance done d d' \<longleftrightarrow> dict_keys d' = dict_keys d \<and>
     (\<forall>k. dict_get d' k = dict_get d k \<or> (\<exists>r r'. (k, r) \<in> set done \<and> dict_get d' k = Some r' \<and> advances r r'))"

lemma keys_set_present: "k \<in> set (dict_keys d) \<Longrightarrow> dict_keys (dict_set d k v) = dict_keys d"
  unfolding dict_keys_def dict_set_def by (induction d) auto

lemma reconcile_loop_spec:
  assumes "reconcile_loop rk items rx w = (res, w')" and "approved_deletions rk ps w0 w"
    and "set items \<subseteq> set ps" and "set (map fst items) \<subseteq> set (dict_keys (rx_promotions rx))"
  shows "approved_deletions rk ps w0 w' \<and>
    (\<forall>rx'. res = Inr rx' \<longrightarrow> all_advance items (rx_promotions rx) (rx_promotions rx'))"
  using assms
proof (induction items arbitrary: rx w)
  case Nil
  then show ?case by (auto simp: eff_simps all_advance_def)
next
  case (Cons kr items)
  obtain key r where kr: "kr = (key, r)" by (cases kr)
  obtain out w1 where one: "reconcile_one rk key r rx w = (out, w1)" by (cases "reconcile_one rk key r rx w")
  have s: "approved_deletions rk ps w0 w1 \<and> (\<forall>rx'. out = Inr rx' \<longrightarrow> stepped key r rx rx')"
    using reconcile_one_spec [OF one Cons.prems(2)] Cons.prems(3) kr by simp
  show ?case
  proof (cases out)
    case (Inl e)
    with Cons.prems(1) kr one s show ?thesis by (auto simp: bindM_app)
  next
    case (Inr rx1)
    then have loop: "reconcile_loop rk items rx1 w1 = (res, w')" using Cons.prems(1) kr one by (simp add: bindM_app)
    obtain r' where r': "advances r r'"
      "rx_promotions rx1 = rx_promotions rx \<or> rx_promotions rx1 = dict_set (rx_promotions rx) key r'"
      using s Inr by (auto simp: stepped_def)
    have keys: "dict_keys (rx_promotions rx1) = dict_keys (rx_promotions rx)"
      using r'(2) Cons.prems(4) kr keys_set_present [of key "rx_promotions rx" r'] by auto
    from Cons.IH [OF loop] s Cons.prems(3,4) keys
    have IH: "approved_deletions rk ps w0 w'" "\<And>rx'. res = Inr rx' \<Longrightarrow> all_advance items (rx_promotions rx1) (rx_promotions rx')"
      by auto
    have "all_advance (kr # items) (rx_promotions rx) (rx_promotions rx')" if "res = Inr rx'" for rx'
      unfolding all_advance_def
    proof (intro conjI allI)
      show "dict_keys (rx_promotions rx') = dict_keys (rx_promotions rx)"
        using IH(2) [OF that] keys by (simp add: all_advance_def)
    next
      fix k
      have "dict_get (rx_promotions rx') k = dict_get (rx_promotions rx1) k \<or>
        (\<exists>q q'. (k, q) \<in> set items \<and> dict_get (rx_promotions rx') k = Some q' \<and> advances q q')"
        using IH(2) [OF that] by (simp add: all_advance_def)
      moreover have "dict_get (rx_promotions rx1) k = dict_get (rx_promotions rx) k \<or> k = key \<and> dict_get (rx_promotions rx1) k = Some r'"
        using r'(2) by (auto split: if_splits)
      ultimately show "dict_get (rx_promotions rx') k = dict_get (rx_promotions rx) k \<or>
        (\<exists>q q'. (k, q) \<in> set (kr # items) \<and> dict_get (rx_promotions rx') k = Some q' \<and> advances q q')"
        using kr r'(1) by auto
    qed
    with IH(1) show ?thesis by blast
  qed
qed

lemma reconcile_spec:
  assumes "reconcile_promotions rk ps w = (res, w')"
  shows "approved_deletions rk ps w w' \<and> (\<forall>rx. res = Inr rx \<longrightarrow> all_advance ps ps (rx_promotions rx))"
  using reconcile_loop_spec [OF assms [unfolded reconcile_promotions_def] approved_deletions.Start, of ps]
  by (simp add: dict_keys_def)

text \<open>What approved deletions leave of a file.\<close>

lemma approved_entries:
  assumes "approved_deletions rk ps w w'" and "on_disk w kind source"
  shows "\<exists>source'. on_disk w' kind source' \<and> (rk_dry_run rk \<longrightarrow> source' = source)
    \<and> set (mf_entries (parse_memory_file kind source')) \<subseteq> set (mf_entries (parse_memory_file kind source))
    \<and> (\<forall>e \<in> set (mf_entries (parse_memory_file kind source)) - set (mf_entries (parse_memory_file kind source')).
         \<exists>(key, r) \<in> set ps. authorized rk r \<and> pm_source_kind r = kind \<and> fits_record rk r e)"
  using assms(1)
proof induction
  case Start
  with assms(2) show ?case by auto
next
  case (Keep w1 w2)
  then show ?case by (simp add: on_disk_def)
next
  case (Delete w1 key r s i w2)
  let ?es = "\<lambda>x. mf_entries (parse_memory_file kind x)"
  from Delete.IH obtain s1 where s1: "on_disk w1 kind s1" "set (?es s1) \<subseteq> set (?es source)"
    "\<forall>e \<in> set (?es source) - set (?es s1). \<exists>(key, r) \<in> set ps. authorized rk r \<and> pm_source_kind r = kind \<and> fits_record rk r e"
    using Delete.hyps(4) by auto
  show ?case
  proof (cases "pm_source_kind r = kind")
    case False
    then have "on_disk w2 kind s1" using s1(1) Delete.hyps(7) by (auto simp: on_disk_def deleted_one_def)
    with s1 Delete.hyps(4) show ?thesis by auto
  next
    case True
    let ?s2 = "rewritten_source kind s i"
    have s: "s = s1" using True s1(1) Delete.hyps(5) by (simp add: on_disk_def)
    have w2: "on_disk w2 kind ?s2" and i: "i < length (?es s)"
      using Delete.hyps(7) True by (auto simp: on_disk_def deleted_one_def)
    have es2: "?es ?s2 = without i (?es s)" by (simp add: parse_rewritten)
    have lost: "e = ?es s ! i" if "e \<in> set (?es s)" "e \<notin> set (?es ?s2)" for e
    proof -
      from that(1) obtain j where j: "j < length (?es s)" "?es s ! j = e" by (auto simp: in_set_conv_nth)
      have "?es s ! j \<in> set (without i (?es s))" if "j \<noteq> i"
      proof (cases "j < i")
        case True
        with j show ?thesis by (auto simp: without_def in_set_conv_nth intro!: disjI1 exI [of _ j])
      next
        case False
        with \<open>j \<noteq> i\<close> j show ?thesis by (auto simp: without_def in_set_conv_nth intro!: disjI2 exI [of _ "j - Suc i"])
      qed
      with that(2) j es2 show ?thesis by auto
    qed
    have "\<exists>(key, r) \<in> set ps. authorized rk r \<and> pm_source_kind r = kind \<and> fits_record rk r e"
      if e: "e \<in> set (?es source) - set (?es ?s2)" for e
    proof (cases "e \<in> set (?es s1)")
      case False
      with e s1(3) show ?thesis by blast
    next
      case t: True
      then have "e = ?es s ! i" using lost e s by auto
      then show ?thesis using Delete.hyps(2,3,6) True by auto
    qed
    moreover have "set (?es ?s2) \<subseteq> set (?es source)" using es2 set_without [of i "?es s"] s s1(2) by auto
    ultimately show ?thesis using w2 Delete.hyps(4) by blast
  qed
qed

text \<open>A reconciliation never adds an entry to the native memory, and every entry it takes away is named by
  the digest of a live record whose saved note has the recorded hash and one marker that binds this very
  record; a dry run takes away nothing. This holds whatever fails on the way.\<close>

lemma curator_deletes_authorized:
  assumes "reconcile_promotions rk ps w = (res, w')" and "on_disk w kind source"
  shows "\<exists>source'. on_disk w' kind source' \<and> (rk_dry_run rk \<longrightarrow> source' = source)
    \<and> set (mf_entries (parse_memory_file kind source')) \<subseteq> set (mf_entries (parse_memory_file kind source))
    \<and> (\<forall>e \<in> set (mf_entries (parse_memory_file kind source)) - set (mf_entries (parse_memory_file kind source')).
         \<exists>(key, r) \<in> set ps. authorized rk r \<and> pm_source_kind r = kind \<and> fits_record rk r e)"
  using reconcile_spec [OF assms(1)] assms(2) by (blast intro: approved_entries)

definition demo_sha :: "blob \<Rightarrow> ustr" where
  "demo_sha b = replicate 63 97 @ [case b of Utf8 s \<Rightarrow> if s \<noteq> [] \<and> last s = 97 then 97 else 98 | Not_utf8 _ \<Rightarrow> 98]"

lemma hex64_demo: "hex64 (demo_sha b)"
  by (simp add: hex64_def demo_sha_def hex_char_def list_all_iff split: blob.splits)

definition demo_digest :: ustr where
  "demo_digest = entry_digest (\<lambda>s. demo_sha (Utf8 s)) Kind_memory (lit ''a'')"

definition demo_saved_note :: ustr where
  "demo_saved_note = (case build_proposal (\<lambda>s. demo_sha (Utf8 s)) Kind_memory (lit ''a'') of
      Inr p \<Rightarrow> lit ''---'' @ [10] @ pp_body p @ [10] @ lit ''end'' | Inl _ \<Rightarrow> [])"

definition demo_promotion :: promotion where
  "demo_promotion = sample_promotion\<lparr>pm_entry_sha256 := demo_digest, pm_note_sha256 := demo_sha (Utf8 demo_saved_note)\<rparr>"

definition reconcile_demo :: reconcile_request where
  "reconcile_demo = \<lparr>rk_sha256 = demo_sha, rk_read_twin = (\<lambda>_. Some (Utf8 demo_saved_note)), rk_stamp = lit ''now'',
     rk_timestamp = lit ''t'', rk_dry_run = False, rk_faults = no_faults, rk_backup_name = snd\<rparr>"

lemma demo_marker: "parse_marker demo_saved_note = Some (marker_for Kind_memory demo_digest)"
proof -
  let ?sha = "\<lambda>s. demo_sha (Utf8 s)"
  have hex: "hex64 (entry_digest ?sha Kind_memory (lit ''a''))" by (simp add: entry_digest_def hex64_demo)
  obtain p where p: "build_proposal ?sha Kind_memory (lit ''a'') = Inr p"
    using rendered_marker [OF hex, of Kind_memory] by (simp add: build_proposal_def Let_def)
  have "60 \<notin> set (lit ''---'')" "60 \<notin> set (lit ''end'')" "60 \<notin> set (lit ''a'')" by (simp_all add: lit_def)
  then have no: "\<not> contains (lit ''---'') MARKER_PREFIX" "\<not> contains (lit ''end'') MARKER_PREFIX" "\<not> contains (lit ''a'') MARKER_PREFIX"
    using count_str_absent [OF prefix_nl(3)] by (simp_all add: contains_count)
  show ?thesis
    using proposal_marker_spec [OF p hex no(1,2)] no(3) p by (simp add: demo_saved_note_def demo_digest_def)
qed

lemma demo_decision:
  "decide_reconcile demo_sha demo_promotion (Some (Utf8 demo_saved_note)) True [lit ''a'', lit ''b''] = Reconcile_delete 0"
proof -
  have "entry_indices (\<lambda>s. demo_sha (Utf8 s)) demo_promotion [lit ''a'', lit ''b''] = [0]"
    by (simp add: entry_indices_def demo_promotion_def demo_digest_def entry_digest_def demo_sha_def sample_promotion_def
        legacy_record_def upt_rec lit_def)
  then show ?thesis
    using demo_marker by (simp add: decide_reconcile_def decode_utf8_def demo_promotion_def sample_promotion_def marker_binds_def
        marker_for_def legacy_record_def)
qed

lemma delete_entry_backup: "returns (delete_entry df kind i expected stamp) (\<lambda>out. do_backup out = (kind, stamp))"
  unfolding delete_entry_def Let_def by (intro returns_bindM) simp

lemma reconcile_demo_run:
  "\<exists>rx w'. reconcile_promotions reconcile_demo [(lit ''k'', demo_promotion)] (disk_of (two_entries (lit ''a'') (lit ''b''))) = (Inr rx, w')
     \<and> dict_get (rx_promotions rx) (lit ''k'') = Some (demo_promotion\<lparr>pm_status := Promo_reconciled, pm_reconciled_at := Some (lit ''t''),
         pm_backup_path := Some (lit ''now''), pm_last_block_reason := None\<rparr>)
     \<and> on_disk w' Kind_memory (lit ''b'')"
proof -
  let ?s = "two_entries (lit ''a'') (lit ''b'')" and ?k = Kind_memory
  have parse: "parse_memory_file ?k ?s = \<lparr>mf_kind = ?k, mf_entries = [lit ''a'', lit ''b'']\<rparr>"
    by (rule parse_two_entries [OF sample_entries])
  have "deletable ?k 0 ?s (lit ''now'') (disk_of ?s)"
    by (simp add: deletable_def disk_of_def on_disk_def parse other_entries_differ_def Let_def without_def)
  then have "is_Inr (fst (delete_entry no_faults ?k 0 (Utf8 ?s) (lit ''now'') (disk_of ?s)))"
    by (subst delete_entry_returns) (simp_all add: no_faults_def)
  then obtain d w' where del: "delete_entry no_faults ?k 0 (Utf8 ?s) (lit ''now'') (disk_of ?s) = (Inr d, w')"
    by (cases "delete_entry no_faults ?k 0 (Utf8 ?s) (lit ''now'') (disk_of ?s)") (auto simp: is_Inr_def split: sum.splits)
  have kind: "pm_source_kind demo_promotion = ?k" "pm_status demo_promotion = Promo_posted"
    by (simp_all add: demo_promotion_def sample_promotion_def legacy_record_def)
  have rw: "rewritten_source ?k ?s 0 = lit ''b''"
    by (simp add: rewritten_source_def parse without_def serialize_memory_file_def)
  have "on_disk w' ?k (lit ''b'')"
    using delete_entry_spec [OF del] rw by (auto simp: deleted_one_def on_disk_def)
  moreover have "do_backup d = (?k, lit ''now'')"
    using del by (rule returnsD [OF delete_entry_backup])
  moreover have read: "read_native ?k (disk_of ?s) = (Inr (Utf8 ?s, \<lparr>mf_kind = ?k, mf_entries = [lit ''a'', lit ''b'']\<rparr>), disk_of ?s)"
    by (simp add: read_native_def disk_of_def eff_simps decode_utf8_def liftE_def parse)
  have twin: "rk_read_twin reconcile_demo x = Some (Utf8 demo_saved_note)" "rk_sha256 reconcile_demo = demo_sha" for x
    by (simp_all add: reconcile_demo_def)
  ultimately show ?thesis
    using del
    apply (simp add: reconcile_promotions_def reconcile_one_def kind bindM_app read reconcile_entry_def twin demo_decision)
    apply (simp add: carry_out_def reconcile_demo_def bindM_def catchM_def ret_app kind set_promotion_def Let_def)
    done
qed

lemma curator_deletes_authorized_witness:
  "\<exists>rx w'. reconcile_promotions reconcile_demo [(lit ''k'', demo_promotion)] (disk_of (two_entries (lit ''a'') (lit ''b''))) = (Inr rx, w')
     \<and> on_disk w' Kind_memory (lit ''b'') \<and> authorized reconcile_demo demo_promotion
     \<and> fits_record reconcile_demo demo_promotion (lit ''a'')"
proof -
  let ?s = "two_entries (lit ''a'') (lit ''b'')"
  obtain rx w' where run: "reconcile_promotions reconcile_demo [(lit ''k'', demo_promotion)] (disk_of ?s) = (Inr rx, w')"
    and w': "on_disk w' Kind_memory (lit ''b'')" using reconcile_demo_run by blast
  have "on_disk (disk_of ?s) Kind_memory ?s" by (simp add: disk_of_def on_disk_def)
  from curator_deletes_authorized [OF run this] obtain source' where src: "on_disk w' Kind_memory source'"
    and lost: "\<forall>e \<in> set (mf_entries (parse_memory_file Kind_memory ?s)) - set (mf_entries (parse_memory_file Kind_memory source')).
      \<exists>(key, r) \<in> set [(lit ''k'', demo_promotion)]. authorized reconcile_demo r \<and> pm_source_kind r = Kind_memory
        \<and> fits_record reconcile_demo r e" by blast
  have "source' = lit ''b''" using src w' by (simp add: on_disk_def)
  moreover have "parse_memory_file Kind_memory (lit ''b'') = \<lparr>mf_kind = Kind_memory, mf_entries = [lit ''b'']\<rparr>"
    using parse_serialized [of "[lit ''b'']"] sample_entries by (simp add: parse_memory_file_def)
  ultimately have "lit ''a'' \<in> set (mf_entries (parse_memory_file Kind_memory ?s)) - set (mf_entries (parse_memory_file Kind_memory source'))"
    by (simp add: parse_two_entries [OF sample_entries])
  from bspec [OF lost this] obtain key r where "(key, r) \<in> set [(lit ''k'', demo_promotion)]"
    and r: "authorized reconcile_demo r" "fits_record reconcile_demo r (lit ''a'')" by blast
  then have "r = demo_promotion" by simp
  with r have "authorized reconcile_demo demo_promotion" "fits_record reconcile_demo demo_promotion (lit ''a'')" by blast+
  with run w' show ?thesis by (intro exI conjI)
qed

text \<open>C29. A reconciliation that returns has kept the keys of the records; a record it changed was waiting and
  is waiting or reconciled now, still bound to its entry, its note and its confirmation. Records that are
  done, and the legacy ones, are untouched.\<close>

theorem reconcile_keeps_records:
  assumes "reconcile_promotions rk ps w = (Inr rx, w')" and "wf_dict ps" and "dict_get ps key = Some r"
  shows "dict_keys (rx_promotions rx) = dict_keys ps
    \<and> (\<exists>r'. dict_get (rx_promotions rx) key = Some r' \<and> advances r r')"
proof -
  have adv: "all_advance ps ps (rx_promotions rx)" using reconcile_spec [OF assms(1)] by simp
  have "dict_get (rx_promotions rx) key = dict_get ps key \<or>
      (\<exists>q q'. (key, q) \<in> set ps \<and> dict_get (rx_promotions rx) key = Some q' \<and> advances q q')"
    using adv by (simp add: all_advance_def)
  then have "\<exists>r'. dict_get (rx_promotions rx) key = Some r' \<and> advances r r'"
  proof
    assume "dict_get (rx_promotions rx) key = dict_get ps key"
    with assms(3) show ?thesis by (auto simp: advances_def)
  next
    assume "\<exists>q q'. (key, q) \<in> set ps \<and> dict_get (rx_promotions rx) key = Some q' \<and> advances q q'"
    then obtain q q' where q: "(key, q) \<in> set ps" "dict_get (rx_promotions rx) key = Some q'" "advances q q'" by blast
    then have "q = r" using dict_get_iff [OF assms(2), of key q] assms(3) by simp
    with q show ?thesis by blast
  qed
  with adv show ?thesis by (simp add: all_advance_def)
qed

theorem reconcile_keeps_records_witness:
  "\<exists>rx w' r'. reconcile_promotions reconcile_demo [(lit ''k'', demo_promotion)] (disk_of (two_entries (lit ''a'') (lit ''b''))) = (Inr rx, w')
     \<and> dict_get (rx_promotions rx) (lit ''k'') = Some r' \<and> pm_status r' = Promo_reconciled \<and> advances demo_promotion r'"
proof -
  obtain rx w' where run: "reconcile_promotions reconcile_demo [(lit ''k'', demo_promotion)] (disk_of (two_entries (lit ''a'') (lit ''b''))) = (Inr rx, w')"
    and r: "dict_get (rx_promotions rx) (lit ''k'') = Some (demo_promotion\<lparr>pm_status := Promo_reconciled, pm_reconciled_at := Some (lit ''t''),
         pm_backup_path := Some (lit ''now''), pm_last_block_reason := None\<rparr>)" using reconcile_demo_run by blast
  have "wf_dict [(lit ''k'', demo_promotion)]" "dict_get [(lit ''k'', demo_promotion)] (lit ''k'') = Some demo_promotion"
    by (simp_all add: wf_dict_def dict_get_Cons)
  from reconcile_keeps_records [OF run this] run r show ?thesis by auto
qed

section \<open>Proposals of one tick\<close>

abbreviation waits :: "promotion option \<Rightarrow> bool" where
  "waits existing \<equiv> (case existing of None \<Rightarrow> True | Some r \<Rightarrow> pm_status r = Promo_prepared)"

abbreviation promoted_keys :: "selection_result \<Rightarrow> ustr list" where
  "promoted_keys se \<equiv> map (\<lambda>(p, rc). pp_promotion_key p) (se_promoted se)"

definition posted_for :: "selection_result \<Rightarrow> proposal \<times> promotion_receipt \<Rightarrow> bool" where
  "posted_for se = (\<lambda>(p, rc). \<exists>r. dict_get (se_promotions se) (pp_promotion_key p) = Some r \<and> pm_status r = Promo_posted
     \<and> pm_note_sha256 r = rc_note_sha256 rc \<and> pm_confirm_message_id r = Some (rc_confirm_message_id rc))"

definition selection_ok :: "'w promoter \<Rightarrow> (ustr, promotion) dict \<Rightarrow> selection_result \<Rightarrow> bool" where
  "selection_ok pr ps se \<longleftrightarrow> int (se_attempts se) \<le> max 0 (pr_max pr) \<and> length (se_promoted se) \<le> se_attempts se
     \<and> distinct (promoted_keys se) \<and> list_all (posted_for se) (se_promoted se)
     \<and> (\<forall>k. \<not> waits (dict_get ps k) \<longrightarrow> dict_get (se_promotions se) k = dict_get ps k \<and> k \<notin> set (promoted_keys se))"

lemma proposal_key: "build_proposal sha256 kind e = Inr p \<Longrightarrow> pp_promotion_key p = promotion_key kind (entry_digest sha256 kind e)"
  by (auto simp: build_proposal_def Let_def)

lemma waits_before:
  assumes "selection_ok pr ps se" and "waits (dict_get (se_promotions se) key)"
  shows "waits (dict_get ps key)" "key \<notin> set (promoted_keys se)"
proof -
  show "waits (dict_get ps key)" using assms unfolding selection_ok_def by metis
  show "key \<notin> set (promoted_keys se)"
  proof
    assume "key \<in> set (promoted_keys se)"
    then obtain p rc where "(p, rc) \<in> set (se_promoted se)" "key = pp_promotion_key p" by auto
    with assms(1) have "\<exists>r. dict_get (se_promotions se) key = Some r \<and> pm_status r = Promo_posted"
      by (auto simp: selection_ok_def list_all_iff posted_for_def)
    with assms(2) show False by auto
  qed
qed

lemma selection_ok_set:
  assumes "selection_ok pr ps se" and "waits (dict_get (se_promotions se) key)"
    and "se_promotions se' = dict_set (se_promotions se) key r" and "se_promoted se' = se_promoted se"
    and "se_attempts se' = se_attempts se + 1" and "int (se_attempts se) < pr_max pr"
  shows "selection_ok pr ps se'"
proof -
  note w = waits_before [OF assms(1,2)]
  have "posted_for se' x" if "x \<in> set (se_promoted se)" for x
  proof -
    have "posted_for se x" using assms(1) that by (auto simp: selection_ok_def list_all_iff)
    moreover have "(case x of (p, rc) \<Rightarrow> pp_promotion_key p) \<noteq> key" using w(2) that by force
    ultimately show ?thesis by (cases x) (simp add: posted_for_def assms(3))
  qed
  with assms w show ?thesis by (auto simp: selection_ok_def list_all_iff)
qed

lemma selection_ok_post:
  assumes "selection_ok pr ps se" and "waits (dict_get (se_promotions se) key)"
    and "se_promotions se' = dict_set (se_promotions se) key r" and "se_promoted se' = se_promoted se @ [(p, rc)]"
    and "se_attempts se' = se_attempts se + 1" and "int (se_attempts se) < pr_max pr"
    and "pp_promotion_key p = key" and "pm_status r = Promo_posted" and "pm_note_sha256 r = rc_note_sha256 rc"
    and "pm_confirm_message_id r = Some (rc_confirm_message_id rc)"
  shows "selection_ok pr ps se'"
proof -
  note w = waits_before [OF assms(1,2)]
  have "posted_for se' x" if "x \<in> set (se_promoted se)" for x
  proof -
    have "posted_for se x" using assms(1) that by (auto simp: selection_ok_def list_all_iff)
    moreover have "(case x of (p, rc) \<Rightarrow> pp_promotion_key p) \<noteq> key" using w(2) that by force
    ultimately show ?thesis by (cases x) (simp add: posted_for_def assms(3))
  qed
  moreover have "posted_for se' (p, rc)" by (simp add: posted_for_def assms(3,7-10))
  ultimately show ?thesis using assms w by (auto simp: selection_ok_def list_all_iff)
qed

lemma dict_set_twice: "dict_set (dict_set d k v) k u = dict_set d k u"
  unfolding dict_set_def by (induction d) auto

lemma attempt_ok:
  assumes "selection_ok pr ps se" and "existing = dict_get (se_promotions se) (promotion_key kind (entry_digest (pr_sha256 pr) kind e))"
    and "waits existing" and "int (se_attempts se) < pr_max pr"
    and run: "attempt_promotion pr kind e existing se w = (Inr se', w')"
  shows "selection_ok pr ps se'"
proof -
  let ?key = "promotion_key kind (entry_digest (pr_sha256 pr) kind e)"
  have wait: "waits (dict_get (se_promotions se) ?key)" using assms(2,3) by simp
  note set = selection_ok_set [OF assms(1) wait _ _ _ assms(4)] and post = selection_ok_post [OF assms(1) wait _ _ _ assms(4)]
  from run obtain p where p: "build_proposal (pr_sha256 pr) kind e = Inr p"
    by (auto simp: attempt_promotion_def Let_def run_simps)
  define r where "r = (case existing of Some r \<Rightarrow> r | None \<Rightarrow> fresh_promotion pr kind (entry_digest (pr_sha256 pr) kind e) (pp_slug p))"
  define se1 where "se1 = start_attempt ?key r se"
  note se1 = se1_def [unfolded start_attempt_def]
  show ?thesis
  proof (cases "pr_dry_run pr")
    case True
    with run p have "se' = blocked_entry ?key ''dry_run'' e se1"
      by (simp add: attempt_promotion_def Let_def liftE_def eff_simps r_def se1_def)
    then show ?thesis by (intro set) (simp_all add: blocked_entry_def se1)
  next
    case False
    with run p obtain receipt where se': "se' = record_receipt pr ?key e p r receipt se1"
      by (auto simp: attempt_promotion_def Let_def liftE_def bindM_eq_Inr ret_eq r_def se1_def)
    show ?thesis
    proof (cases receipt)
      case None
      then show ?thesis
        unfolding se' by (intro set) (simp_all add: record_receipt_def blocked_entry_def se1 dict_set_twice)
    next
      case (Some rc)
      then show ?thesis
        unfolding se' by (intro post [where p = p and rc = rc and r = "r\<lparr>pm_status := Promo_posted, pm_draft_id := Some (rc_draft_id rc),
            pm_confirm_message_id := Some (rc_confirm_message_id rc), pm_note_sha256 := rc_note_sha256 rc,
            pm_posted_at := Some (pr_timestamp pr), pm_last_block_reason := None\<rparr>"])
          (simp_all add: record_receipt_def se1 dict_set_twice proposal_key [OF p])
    qed
  qed
qed

lemma select_entries_ok:
  "select_entries pr ranked se w = (Inr se', w') \<Longrightarrow> selection_ok pr ps se \<Longrightarrow> selection_ok pr ps se'"
proof (induction ranked arbitrary: se w)
  case (Cons x ranked)
  obtain kind i e where x: "x = (kind, i, e)" by (cases x)
  let ?key = "promotion_key kind (entry_digest (pr_sha256 pr) kind e)"
  let ?existing = "dict_get (se_promotions se) ?key"
  consider (skip) "legacy_covers (pr_sha256 pr) (se_promotions se) e \<or> \<not> waits ?existing"
    | (stop) "\<not> legacy_covers (pr_sha256 pr) (se_promotions se) e" "waits ?existing" "int (se_attempts se) \<ge> pr_max pr"
    | (attempt) "\<not> legacy_covers (pr_sha256 pr) (se_promotions se) e" "waits ?existing" "int (se_attempts se) < pr_max pr"
    by linarith
  then show ?case
  proof cases
    case skip
    then have "select_entries pr ranked se w = (Inr se', w')"
      using Cons.prems(1) by (auto simp: x Let_def split: if_splits option.splits)
    with Cons show ?thesis by blast
  next
    case stop
    then show ?thesis using Cons.prems by (auto simp: x Let_def eff_simps split: option.splits)
  next
    case attempt
    then obtain se1 w1 where "attempt_promotion pr kind e ?existing se w = (Inr se1, w1)"
      "select_entries pr ranked se1 w1 = (Inr se', w')"
      using Cons.prems(1) by (auto simp: x Let_def bindM_eq_Inr split: option.splits)
    with attempt_ok [OF Cons.prems(2) refl attempt(2,3)] Cons.IH show ?thesis by blast
  qed
qed (simp add: eff_simps)


definition demo_promoter :: "nat promoter" where
  "demo_promoter = \<lparr>pr_sha256 = (\<lambda>s. demo_sha (Utf8 s)), pr_promote = (\<lambda>p n. (Inr (Some \<lparr>rc_draft_id = lit ''d'',
     rc_confirm_message_id = lit ''m'', rc_slug = pp_slug p, rc_note_sha256 = lit ''h''\<rparr>), Suc n)),
     pr_timestamp = lit ''t'', pr_dry_run = False, pr_max = 1\<rparr>"

definition demo_files :: "(memory_kind, memory_file) dict" where
  "demo_files = [(Kind_memory, \<lparr>mf_kind = Kind_memory, mf_entries = [lit ''a'', lit ''bb'']\<rparr>)]"


end
