(* ===== verification/CuratorWatch.thy ===== *)
theory CuratorWatch
  imports Reconcile
begin

text \<open>
  One tick of the memory curator: \<open>apply.py\<close> (compacting a file on the disk), \<open>alerting.py\<close> (when the owner is
  told), \<open>reporting.py\<close> (what the owner is told) and \<open>watch.py\<close> (the tick) of \<open>automation/memory_curator\<close>. The
  effects that post a proposal and send the summary, the classifier and the clock are arguments.
\<close>

section \<open>The world\<close>

record 'm curator_world =
  cw_disk :: mem_disk
  cw_baks :: "(memory_kind \<times> ustr, ustr) dict"
  cw_state :: file_read
  cw_outside :: 'm

definition at_disk :: "'a disk_eff \<Rightarrow> ('m curator_world, exn, 'a) eff" where
  "at_disk m w = (case m (cw_disk w) of (r, d) \<Rightarrow> (r, w\<lparr>cw_disk := d\<rparr>))"

definition at_outside :: "('m, exn, 'a) eff \<Rightarrow> ('m curator_world, exn, 'a) eff" where
  "at_outside m w = (case m (cw_outside w) of (r, o') \<Rightarrow> (r, w\<lparr>cw_outside := o'\<rparr>))"

section \<open>Compaction on the disk\<close>

text \<open>\<open>Path.read_text\<close> translates the line ends it reads.\<close>

fun universal_newlines :: "ustr \<Rightarrow> ustr" where
  "universal_newlines [] = []"
| "universal_newlines (c # cs) =
     (if c = 13 then 10 # universal_newlines (if starts_with cs [10] then tl cs else cs)
      else c # universal_newlines cs)"

record curation_result =
  cr_kind :: memory_kind
  cr_plan :: curation_plan
  cr_changed :: bool
  cr_backup :: "(memory_kind \<times> ustr) option"

datatype curation_call = Call_bak | Call_tmp

definition read_memory_text :: "memory_kind \<Rightarrow> ustr disk_eff" where
  "read_memory_text kind =
     bindM (getM (\<lambda>w. follow (md_nodes w kind))) (\<lambda>n. case n of
         Leads_nowhere \<Rightarrow> ret []
       | Leads_elsewhere \<Rightarrow> raise_exn OSError
       | Leads_to data \<Rightarrow> bindM (liftE (decode_utf8 data)) (\<lambda>source. ret (universal_newlines source)))"

definition apply_curation ::
    "(ustr \<Rightarrow> ustr) \<Rightarrow> (curation_call \<Rightarrow> bool) \<Rightarrow> memory_kind \<Rightarrow> bool \<Rightarrow> ustr \<Rightarrow> ('m curator_world, exn, curation_result) eff" where
  "apply_curation casefold fails_on kind dry_run stamp =
     bindM (at_disk (read_memory_text kind)) (\<lambda>original.
       let plan = curate casefold (parse_memory_file kind original);
           canonical_text = serialize_memory_file (cp_compacted plan);
           changed = (canonical_text \<noteq> original) in
       if dry_run \<or> \<not> changed
       then ret \<lparr>cr_kind = kind, cr_plan = plan, cr_changed = changed, cr_backup = None\<rparr>
       else bindM (ensure (\<not> fails_on Call_bak) OSError) (\<lambda>_.
         bindM (modM (\<lambda>w. w\<lparr>cw_baks := dict_set (cw_baks w) (kind, stamp) original\<rparr>)) (\<lambda>_.
         bindM (ensure (\<not> fails_on Call_tmp) OSError) (\<lambda>_.
         bindM (at_disk (modM (\<lambda>w. w\<lparr>md_nodes := (md_nodes w)(kind := Node_file (Utf8 canonical_text))\<rparr>))) (\<lambda>_.
           ret \<lparr>cr_kind = kind, cr_plan = plan, cr_changed = changed, cr_backup = Some (kind, stamp)\<rparr>)))))"

section \<open>Alerts\<close>

datatype near_cap_bucket = Bucket_ok | Bucket_near | Bucket_critical | Bucket_over

fun near_cap_value :: "near_cap_bucket \<Rightarrow> ustr" where
  "near_cap_value Bucket_ok = lit ''ok''"
| "near_cap_value Bucket_near = lit ''near''"
| "near_cap_value Bucket_critical = lit ''critical''"
| "near_cap_value Bucket_over = lit ''over''"

definition bucket_for :: "rat \<Rightarrow> near_cap_bucket" where
  "bucket_for ratio =
     (if ratio \<ge> 1 then Bucket_over else if ratio \<ge> 95 / 100 then Bucket_critical
      else if ratio \<ge> 85 / 100 then Bucket_near else Bucket_ok)"

record actionable_state =
  ac_buckets :: "(memory_kind, near_cap_bucket) dict"
  ac_entries :: "(ustr, entry_status) dict"
  ac_reasons :: "ustr list"

definition alert_signature :: "(rat \<Rightarrow> ustr) \<Rightarrow> (ustr \<Rightarrow> ustr) \<Rightarrow> actionable_state \<Rightarrow> ustr" where
  "alert_signature float_repr sha256 s = sha256 (canonical float_repr (JObj
     [(lit ''buckets'', JObj (sort_key fst (map (\<lambda>(k, b). (memory_kind_value k, JStr (near_cap_value b))) (ac_buckets s)))),
      (lit ''entries'', JObj (sort_key fst (map (\<lambda>(k, e). (k, JStr (entry_status_value e))) (ac_entries s)))),
      (lit ''manual_reasons'', JArr (map JStr (sorted_list_of_set (set (ac_reasons s)))))]))"

definition quiet_state :: actionable_state where
  "quiet_state = \<lparr>ac_buckets = [(Kind_memory, Bucket_ok), (Kind_user, Bucket_ok)], ac_entries = [], ac_reasons = []\<rparr>"

datatype alert_decision = Alert_send | Alert_hold | Alert_silent

text \<open>A clock reading in microseconds, and \<open>strftime\<close> and \<open>strptime\<close> in the format of the state.\<close>

record alert_clock =
  ak_now :: int
  ak_format :: "int \<Rightarrow> ustr"
  ak_parse :: "ustr \<Rightarrow> int option"

definition DEFAULT_COOLDOWN :: int where "DEFAULT_COOLDOWN = 24 * 60 * 60 * 1000000"

definition sent_now :: "alert_clock \<Rightarrow> ustr \<Rightarrow> alert_state" where
  "sent_now ak sig = \<lparr>as_last_observed = Some sig, as_last_sent = Some sig, as_last_sent_at = Some (ak_format ak (ak_now ak)),
     as_pending = None\<rparr>"

definition decide_alert :: "alert_clock \<Rightarrow> ustr \<Rightarrow> ustr \<Rightarrow> alert_state \<Rightarrow> exn + alert_decision \<times> alert_state" where
  "decide_alert ak quiet sig prior =
     (let observed = prior\<lparr>as_last_observed := Some sig, as_pending := None\<rparr> in
      if sig = quiet then Inr (Alert_silent, observed)
      else if as_last_sent prior = Some sig then Inr (Alert_silent, observed)
      else if as_last_sent prior = None then Inr (Alert_send, sent_now ak sig)
      else case as_last_sent_at prior of
        None \<Rightarrow> Inr (Alert_send, sent_now ak sig)
      | Some t \<Rightarrow> (case ak_parse ak t of
          None \<Rightarrow> Inl ValueError
        | Some sent_at \<Rightarrow>
            if ak_now ak - sent_at \<ge> DEFAULT_COOLDOWN then Inr (Alert_send, sent_now ak sig)
            else Inr (Alert_hold, prior\<lparr>as_last_observed := Some sig, as_pending := Some sig\<rparr>)))"

section \<open>The report\<close>

definition KINDS :: "memory_kind list" where "KINDS = [Kind_memory, Kind_user]"

fun memory_filename :: "memory_kind \<Rightarrow> ustr" where
  "memory_filename Kind_memory = lit ''MEMORY.md''"
| "memory_filename Kind_user = lit ''USER.md''"

record owner_report =
  or_compacted :: "(memory_kind, curation_result) dict"
  or_events :: "owner_event list"
  or_final_files :: "(memory_kind, memory_file) dict"
  or_near_cap :: "memory_kind list"

definition freed_line :: "int \<Rightarrow> ustr" where
  "freed_line freed = [51221, 47532, 58, 32, 51473, 48373, 32, 51228, 44144, 47196, 32] @ dec_int freed @ [51088, 32, 54869, 48372]"

definition deleted_line :: "nat \<Rightarrow> int \<Rightarrow> ustr" where
  "deleted_line n chars = ([49325, 51228, 32, 50756, 47308, 40, 53944, 50952, 32, 51200, 51109, 32, 44160, 51613, 32, 54980] @ lit ''): '') @ dec_nat n @ [44148, 44, 32] @ dec_int chars @ [51088, 32, 54869, 48372]"

definition posted_line :: "nat \<Rightarrow> ustr" where
  "posted_line n = [53944, 50952, 32, 49849, 44201, 32, 51228, 50504, 32] @ dec_nat n @ ([44148, 32, 8212] @ lit '' DM '' @ [9989, 32, 49884, 32, 51088, 52404, 32, 47700, 47784, 47532, 50640, 49436, 32, 49325, 51228, 46121, 45768, 45796, 58])"

text \<open>\<open>percent\<close> is \<open>round(fill_ratio * 100)\<close> in the arithmetic of floats.\<close>

definition near_cap_line :: "(memory_file \<Rightarrow> int) \<Rightarrow> memory_kind \<Rightarrow> memory_file \<Rightarrow> ustr" where
  "near_cap_line percent kind f = [9888, 65039, 32, 51088, 52404, 32, 47700, 47784, 47532, 32, 44540, 51217, 58, 32] @ memory_filename kind @ [32]
     @ dec_int (percent f) @ lit ''%''"

definition or_default :: "'a \<Rightarrow> 'a option \<Rightarrow> 'a" where
  "or_default d x = (case x of Some v \<Rightarrow> v | None \<Rightarrow> d)"

text \<open>The shape of an event is checked when the state is read, so a posted event has its fields.\<close>

definition deleted_event_line :: "owner_event \<Rightarrow> ustr" where
  "deleted_event_line e = lit ''- '' @ [39] @ oe_preview e @ [39]"

definition posted_event_line :: "owner_event \<Rightarrow> ustr" where
  "posted_event_line e = [45, 32, 51200, 51109, 32] @ or_default (lit ''None'') (oe_draft_id e) @ lit '': '' @ [39] @ oe_preview e @ [39]
     @ [32, 8594, 32] @ or_default (lit ''None'') (oe_twin_kind e)"

definition freed_total :: "(memory_kind, curation_result) dict \<Rightarrow> int" where
  "freed_total compacted = sum_list (map (\<lambda>(k, c). freed_chars (cr_plan c)) compacted)"

definition report_lines :: "(memory_file \<Rightarrow> int) \<Rightarrow> owner_report \<Rightarrow> ustr list" where
  "report_lines percent r =
     (let freed = freed_total (or_compacted r);
          events = sort_key oe_key (or_events r);
          deleted = filter (\<lambda>e. oe_phase e = Owner_deleted) events;
          posted = filter (\<lambda>e. oe_phase e \<noteq> Owner_deleted) events in
      (if freed > 0 then [freed_line freed] else [])
      @ (if deleted = [] then [] else
           deleted_line (length deleted) (sum_list (map (\<lambda>e. or_default 0 (oe_freed_chars e)) deleted))
             # map deleted_event_line deleted)
      @ (if posted = [] then [] else posted_line (length posted) # map posted_event_line posted)
      @ concat (map (\<lambda>k. case dict_get (or_final_files r) k of
           Some f \<Rightarrow> [near_cap_line percent k f] | None \<Rightarrow> []) (or_near_cap r)))"

definition build_report :: "(memory_file \<Rightarrow> int) \<Rightarrow> owner_report \<Rightarrow> ustr option" where
  "build_report percent r = (if report_lines percent r = [] then None
     else Some ([129504, 32, 47700, 47784, 47532, 32, 53328, 47112, 51060, 53552] @ [10] @ join [10] (report_lines percent r)))"

section \<open>The tick\<close>

record entry_route =
  er_source_kind :: memory_kind
  er_entry_text :: ustr
  er_route :: ustr

record 'm curator_env =
  ce_casefold :: "ustr \<Rightarrow> ustr"
  ce_sha256 :: "blob \<Rightarrow> ustr"
  ce_float_repr :: "rat \<Rightarrow> ustr"
  ce_read_twin :: "ustr \<Rightarrow> blob option"
  ce_promote :: "proposal \<Rightarrow> ('m, exn, promotion_receipt option) eff"
  ce_alert :: "ustr \<Rightarrow> ('m, exn, bool) eff"
  ce_classify :: "((memory_kind, ustr list) dict \<Rightarrow> ('m, exn, entry_route list) eff) option"
  ce_clock :: alert_clock
  ce_stamp :: ustr
  ce_dry_run :: bool
  ce_max_promotions :: int
  ce_faults :: disk_faults
  ce_curation_fails :: "curation_call \<Rightarrow> bool"
  ce_save_fails :: "curator_state \<Rightarrow> bool"
  ce_percent :: "memory_file \<Rightarrow> int"
  ce_backup_name :: "memory_kind \<times> ustr \<Rightarrow> ustr"

definition sha_text :: "'m curator_env \<Rightarrow> ustr \<Rightarrow> ustr" where
  "sha_text ce s = ce_sha256 ce (Utf8 s)"

definition timestamp :: "'m curator_env \<Rightarrow> ustr" where
  "timestamp ce = ak_format (ce_clock ce) (ak_now (ce_clock ce))"

definition save_curator :: "'m curator_env \<Rightarrow> curator_state \<Rightarrow> ('m curator_world, exn, unit) eff" where
  "save_curator ce s = (if ce_save_fails ce s then raise_exn StateError
     else modM (\<lambda>w. w\<lparr>cw_state := saved_curator_state s\<rparr>))"

text \<open>The loop that adds the entries the classifier sends to the twin.\<close>

fun add_classified :: "(ustr \<Rightarrow> ustr) \<Rightarrow> ustr set \<Rightarrow> ustr set \<Rightarrow> ustr list \<Rightarrow> ustr list" where
  "add_classified digest_of twins seen [] = []"
| "add_classified digest_of twins seen (e # es) =
     (let d = digest_of e in
      if d \<in> twins \<and> d \<notin> seen then e # add_classified digest_of twins (insert d seen) es
      else add_classified digest_of twins seen es)"

definition combine_candidates ::
    "(ustr \<Rightarrow> ustr) \<Rightarrow> (memory_kind, ustr list) dict \<Rightarrow> (memory_kind, ustr list) dict \<Rightarrow> entry_route list
      \<Rightarrow> (memory_kind, ustr list) dict" where
  "combine_candidates sha256 candidates entries verdicts =
     map (\<lambda>kind.
       let digest_of = entry_digest sha256 kind;
           twins = set (map (\<lambda>v. digest_of (er_entry_text v))
             (filter (\<lambda>v. er_source_kind v = kind \<and> er_route v = lit ''TWIN'') verdicts));
           selected = or_default [] (dict_get candidates kind) in
       (kind, selected @ add_classified digest_of twins (set (map digest_of selected)) (or_default [] (dict_get entries kind)))) KINDS"

definition with_classifier ::
    "'m curator_env \<Rightarrow> (memory_kind, ustr list) dict \<Rightarrow> (memory_kind, ustr list) dict
      \<Rightarrow> ('m curator_world, exn, (memory_kind, ustr list) dict) eff" where
  "with_classifier ce candidates entries = (case ce_classify ce of
      None \<Rightarrow> ret candidates
    | Some classifier \<Rightarrow>
        catchM (bindM (at_outside (classifier entries)) (\<lambda>verdicts.
          ret (combine_candidates (sha_text ce) candidates entries verdicts))) (\<lambda>_. Some (ret candidates)))"

definition reconcile_env :: "'m curator_env \<Rightarrow> reconcile_request" where
  "reconcile_env ce = \<lparr>rk_sha256 = ce_sha256 ce, rk_read_twin = ce_read_twin ce, rk_stamp = ce_stamp ce,
     rk_timestamp = timestamp ce, rk_dry_run = ce_dry_run ce, rk_faults = ce_faults ce, rk_backup_name = ce_backup_name ce\<rparr>"

definition promoter_of :: "'m curator_env \<Rightarrow> 'm curator_world promoter" where
  "promoter_of ce = \<lparr>pr_sha256 = sha_text ce, pr_promote = (\<lambda>p. at_outside (ce_promote ce p)), pr_timestamp = timestamp ce,
     pr_dry_run = ce_dry_run ce, pr_max = ce_max_promotions ce\<rparr>"

text \<open>The plan of a file after the reconciliation.\<close>

definition final_plan ::
    "'m curator_env \<Rightarrow> (memory_kind, curation_result) dict \<Rightarrow> memory_kind \<Rightarrow> ('m curator_world, exn, memory_kind \<times> curation_plan) eff" where
  "final_plan ce compacted kind =
     (if ce_dry_run ce
      then (case dict_get compacted kind of Some c \<Rightarrow> ret (kind, cr_plan c) | None \<Rightarrow> raise_exn KeyError)
      else bindM (at_disk (read_native kind)) (\<lambda>(_, f). ret (kind, curate (ce_casefold ce) f)))"

definition near_cap_kinds :: "(memory_kind, memory_file) dict \<Rightarrow> memory_kind list" where
  "near_cap_kinds final_files =
     map fst (filter (\<lambda>(k, f). bucket_for (fill_ratio f) \<noteq> Bucket_ok) final_files)"

definition actionable ::
    "'m curator_env \<Rightarrow> (memory_kind, memory_file) dict \<Rightarrow> (memory_kind, ustr list) dict \<Rightarrow> (ustr, promotion) dict \<Rightarrow> ustr set
      \<Rightarrow> actionable_state" where
  "actionable ce final_files candidates promotions reasons =
     \<lparr>ac_buckets = map (\<lambda>(k, f). (k, bucket_for (fill_ratio f))) final_files,
      ac_entries = dict_of (concat (map (\<lambda>(kind, es). map (\<lambda>e.
        (promotion_key kind (entry_digest (sha_text ce) kind e), candidate_status (sha_text ce) kind e promotions)) es) candidates)),
      ac_reasons = filter (\<lambda>x. x \<in> reasons) MANUAL_REASONS\<rparr>"

fun add_events :: "(ustr, owner_event) dict \<Rightarrow> owner_event list \<Rightarrow> exn + (ustr, owner_event) dict" where
  "add_events waiting [] = Inr waiting"
| "add_events waiting (e # es) = (case dict_get waiting (oe_key e) of
      None \<Rightarrow> add_events (dict_set waiting (oe_key e) e) es
    | Some other \<Rightarrow> if other \<noteq> e then Inl StateError else add_events waiting es)"

record cycle_result =
  cy_compacted :: "(memory_kind, curation_result) dict"
  cy_promoted :: "(proposal \<times> promotion_receipt) list"
  cy_deleted :: "deleted_item list"
  cy_blocked :: "blocked_item list"
  cy_near_cap :: "memory_kind list"
  cy_decision :: alert_decision
  cy_alerted :: bool

text \<open>The end of the tick: the state is saved before the summary is sent and again once it was.\<close>

definition deliver_events ::
    "'m curator_env \<Rightarrow> curator_state \<Rightarrow> (ustr, promotion) dict \<Rightarrow> (ustr, owner_event) dict \<Rightarrow> alert_decision \<Rightarrow> alert_state
      \<Rightarrow> ustr \<Rightarrow> (owner_event list \<Rightarrow> memory_kind list \<Rightarrow> owner_report) \<Rightarrow> memory_kind list \<Rightarrow> ('m curator_world, exn, bool) eff" where
  "deliver_events ce s promotions waiting decision next_alert sig mk_report near =
     (let events_due = sort_key oe_key (map snd waiting);
          near_cap_due = (decision = Alert_send);
          checkpoint = (if near_cap_due then (ct_alert s)\<lparr>as_last_observed := Some sig\<rparr> else next_alert);
          state_with = (\<lambda>al events. \<lparr>ct_version = ct_version s, ct_promotions = promotions, ct_alert = al, ct_events = events\<rparr>) in
      if events_due \<noteq> [] \<or> near_cap_due
      then bindM (save_curator ce (state_with checkpoint waiting)) (\<lambda>_.
        bindM (case build_report (ce_percent ce) (mk_report events_due (if near_cap_due then near else [])) of
            None \<Rightarrow> ret False
          | Some report \<Rightarrow> if ce_dry_run ce then ret False else at_outside (ce_alert ce report)) (\<lambda>sent.
        if sent
        then bindM (save_curator ce (state_with (if near_cap_due then next_alert else checkpoint) [])) (\<lambda>_. ret True)
        else ret False))
      else bindM (save_curator ce (state_with next_alert waiting)) (\<lambda>_. ret False))"

definition plans_of :: "(memory_kind \<times> curation_plan) list \<Rightarrow> (memory_kind, memory_file) dict" where
  "plans_of plans = map (\<lambda>(k, p). (k, cp_compacted p)) plans"

definition run_cycle :: "'m curator_env \<Rightarrow> ('m curator_world, exn, cycle_result) eff" where
  "run_cycle ce =
     bindM (getM cw_state) (\<lambda>f. bindM (liftE (load_curator_state f)) (\<lambda>s.
     bindM (mapM (\<lambda>kind. bindM (apply_curation (ce_casefold ce) (ce_curation_fails ce) kind (ce_dry_run ce) (ce_stamp ce))
         (\<lambda>c. ret (kind, c))) KINDS) (\<lambda>compacted.
     bindM (at_disk (reconcile_promotions (reconcile_env ce) (ct_promotions s))) (\<lambda>rx.
     bindM (mapM (final_plan ce compacted) KINDS) (\<lambda>plans.
     let final_files = plans_of plans;
         entries = map (\<lambda>(k, p). (k, mf_entries (cp_compacted p))) plans in
     bindM (with_classifier ce (map (\<lambda>(k, p). (k, cp_promotion_candidates p)) plans) entries) (\<lambda>candidates.
     bindM (select_promotions (promoter_of ce) candidates final_files (rx_promotions rx)) (\<lambda>se.
     let sig = alert_signature (ce_float_repr ce) (sha_text ce)
           (actionable ce final_files candidates (se_promotions se) (rx_reasons rx));
         near = near_cap_kinds final_files in
     bindM (liftE (decide_alert (ce_clock ce) (alert_signature (ce_float_repr ce) (sha_text ce) quiet_state) sig (ct_alert s)))
       (\<lambda>(decision, next_alert).
     bindM (liftE (add_events (ct_events s) (make_owner_events (se_promoted se) (filter dl_applied (rx_deleted rx))))) (\<lambda>waiting.
     bindM (deliver_events ce s (se_promotions se) waiting decision next_alert sig
         (\<lambda>events near_due. \<lparr>or_compacted = compacted, or_events = events, or_final_files = final_files, or_near_cap = near_due\<rparr>) near) (\<lambda>sent.
       ret \<lparr>cy_compacted = compacted, cy_promoted = se_promoted se, cy_deleted = rx_deleted rx,
         cy_blocked = rx_blocked rx @ se_blocked se, cy_near_cap = near, cy_decision = decision, cy_alerted = sent\<rparr>))))))))))"

end
