(* ===== verification/CuratorRuns.thy ===== *)
theory CuratorRuns
  imports CuratorWatch
begin

text \<open>
  What a tick of the memory curator guarantees: which entries of the native memory it may lose, which owner
  events it keeps, how often it alerts, and what a summary leaves out.
\<close>

section \<open>What the parts of a tick leave alone\<close>

lemma unchanged_at_outside [unchanged_rules, simp]: "unchanged cw_disk (at_outside m)" "unchanged cw_state (at_outside m)"
  by (simp_all add: unchanged_def at_outside_def split: prod.splits)

lemma unchanged_at_disk [unchanged_rules, simp]: "unchanged cw_state (at_disk m)"
  by (simp add: unchanged_def at_disk_def split: prod.splits)

lemma unchanged_read_native [unchanged_rules]: "unchanged cw_disk (at_disk (read_native kind))"
proof -
  have "snd (read_native kind d) = d" for d using read_native_run(1) by (metis prod.collapse)
  then show ?thesis by (simp add: unchanged_def at_disk_def split: prod.splits) (metis snd_conv)
qed

lemma unchanged_attempt:
  assumes "\<And>p. unchanged f (pr_promote pr p)"
  shows "unchanged f (attempt_promotion pr kind e existing se)"
  unfolding attempt_promotion_def Let_def
  by (intro unchanged_bindM) (use assms in \<open>auto intro!: unchanged_bindM simp: Let_def\<close>)

lemma unchanged_select_entries:
  assumes "\<And>p. unchanged f (pr_promote pr p)"
  shows "unchanged f (select_entries pr ranked se)"
  by (induction ranked arbitrary: se)
    (use assms in \<open>auto simp: Let_def intro!: unchanged_bindM unchanged_attempt split: option.splits\<close>)

lemma unchanged_select:
  assumes "\<And>p. unchanged f (pr_promote pr p)"
  shows "unchanged f (select_promotions pr candidates final_files ps)"
  unfolding select_promotions_def
  by (intro unchanged_bindM unchanged_select_entries unchanged_basic assms)

lemma unchanged_promoter [unchanged_rules]: "unchanged cw_disk (pr_promote (promoter_of ce) p)" "unchanged cw_state (pr_promote (promoter_of ce) p)"
  by (simp_all add: promoter_of_def)

lemma unchanged_classifier [unchanged_rules]:
  "unchanged cw_disk (with_classifier ce candidates entries)" "unchanged cw_state (with_classifier ce candidates entries)"
  unfolding with_classifier_def
  by (auto split: option.splits intro!: unchanged_catchM unchanged_bindM)

lemma unchanged_final_plan [unchanged_rules]: "unchanged cw_disk (final_plan ce compacted kind)" "unchanged cw_state (final_plan ce compacted kind)"
  unfolding final_plan_def by (auto intro!: unchanged_bindM unchanged_read_native split: option.splits)

lemma unchanged_save [unchanged_rules]: "unchanged cw_disk (save_curator ce s)"
  by (simp add: save_curator_def unchanged_modM)

lemma unchanged_deliver [unchanged_rules]: "unchanged cw_disk (deliver_events ce s ps waiting decision next_alert sig mk near)"
  unfolding deliver_events_def Let_def
  by (auto intro!: unchanged_bindM unchanged_save split: option.splits)

lemma unchanged_apply_curation [unchanged_rules]: "unchanged cw_state (apply_curation cf fails_on kind dry stamp)"
  unfolding apply_curation_def Let_def
  by (auto intro!: unchanged_bindM unchanged_modM)

section \<open>What a tick may take from the native memory\<close>

abbreviation native_entries :: "memory_kind \<Rightarrow> ustr \<Rightarrow> ustr list" where
  "native_entries kind source \<equiv> mf_entries (parse_memory_file kind source)"

text \<open>\<open>source'\<close> has entries of \<open>source\<close> only, and one for every normalized text of it.\<close>

definition same_texts :: "(ustr \<Rightarrow> ustr) \<Rightarrow> memory_kind \<Rightarrow> ustr \<Rightarrow> ustr \<Rightarrow> bool" where
  "same_texts cf kind source source' \<longleftrightarrow> set (native_entries kind source') \<subseteq> set (native_entries kind source)
     \<and> normalize_entry cf ` set (native_entries kind source') = normalize_entry cf ` set (native_entries kind source)"

lemma same_texts_refl: "same_texts cf kind source source"
  by (simp add: same_texts_def)

lemma same_texts_curate:
  "same_texts cf kind source (serialize_memory_file (cp_compacted (curate cf (parse_memory_file kind source))))"
proof -
  let ?f = "parse_memory_file kind source" and ?c = "cp_compacted (curate cf (parse_memory_file kind source))"
  have sub: "set (mf_entries ?c) \<subseteq> set (mf_entries ?f)"
    using curate_lossless [of cf ?f] by (auto dest: list_emb_set)
  then have "list_all entry_ok (mf_entries ?c)" using parse_ok [of kind source] by (auto simp: list_all_iff)
  moreover have "mf_kind ?c = kind" by (simp add: curate_def Let_def parse_memory_file_def)
  ultimately have "parse_memory_file kind (serialize_memory_file ?c) = ?c" using parse_serialize [of ?c] by simp
  with sub curate_lossless [of cf ?f] show ?thesis by (simp add: same_texts_def)
qed

text \<open>Translating line ends does not change the lines.\<close>

lemma splitlines_aux_Cons: "c \<noteq> 13 \<Longrightarrow> splitlines_aux cur (c # s) =
     (if line_break c then rev cur # splitlines_aux [] s else splitlines_aux (c # cur) s)"
  by (cases s) auto

lemma splitlines_newlines: "splitlines_aux cur (universal_newlines s) = splitlines_aux cur s"
proof (induction cur s rule: splitlines_aux.induct)
  case (2 cur c)
  then show ?case by (cases "c = 13") (simp_all add: starts_with_def line_break_def)
next
  case (3 cur c d cs)
  have lf: "splitlines_aux cur (10 # s) = rev cur # splitlines_aux [] s" for s
    by (simp add: splitlines_aux_Cons line_break_def)
  show ?case
  proof (cases "c = 13")
    case True
    with 3 show ?thesis by (cases "d = 10") (simp_all add: starts_with_def lf line_break_def del: universal_newlines.simps(2) add: universal_newlines.simps(2) [of 13])
  next
    case False
    with 3 show ?thesis by (simp add: splitlines_aux_Cons del: universal_newlines.simps(2) add: universal_newlines.simps(2) [of c])
  qed
qed simp

lemma parse_newlines [simp]: "parse_memory_file kind (universal_newlines source) = parse_memory_file kind source"
  by (simp add: parse_memory_file_def splitlines_def splitlines_newlines)

lemma read_memory_on_disk:
  assumes "on_disk (cw_disk w) kind source"
  shows "at_disk (read_memory_text kind) w = (Inr (universal_newlines source), w)"
  using assms by (simp add: at_disk_def read_memory_text_def on_disk_def eff_simps decode_utf8_def liftE_def)

lemma at_disk_modM: "at_disk (modM g) w = (Inr (), w\<lparr>cw_disk := g (cw_disk w)\<rparr>)"
  by (simp add: at_disk_def eff_simps)

lemma curation_on_disk:
  assumes "apply_curation cf fails_on kind dry stamp w = (res, w')" and "on_disk (cw_disk w) kind source"
  shows "\<exists>source'. on_disk (cw_disk w') kind source' \<and> (dry \<longrightarrow> source' = source) \<and> same_texts cf kind source source'"
proof -
  let ?s = "serialize_memory_file (cp_compacted (curate cf (parse_memory_file kind source)))"
  have "cw_disk w' = cw_disk w \<or> \<not> dry \<and> md_nodes (cw_disk w') kind = Node_file (Utf8 ?s)"
    using assms(1) by (auto simp: apply_curation_def bindM_app read_memory_on_disk [OF assms(2)] Let_def eff_simps at_disk_modM
      split: if_splits)
  with assms(2) same_texts_curate [of cf kind source] same_texts_refl [of cf kind source] show ?thesis
    by (auto simp: on_disk_def)
qed

lemma curation_other_kind:
  assumes "apply_curation cf fails_on kind dry stamp w = (res, w')" and "k \<noteq> kind"
  shows "md_nodes (cw_disk w') k = md_nodes (cw_disk w) k"
proof -
  have "unchanged (\<lambda>w. md_nodes (cw_disk w) k) (at_disk (read_memory_text kind) :: ('a curator_world, exn, ustr) eff)"
    by (auto simp: unchanged_def at_disk_def read_memory_text_def eff_simps liftE_def split: prod.splits followed.splits sum.splits)
  moreover have "unchanged (\<lambda>w. md_nodes (cw_disk w) k)
      (at_disk (modM (\<lambda>w. w\<lparr>md_nodes := (md_nodes w)(kind := Node_file (Utf8 t))\<rparr>)) :: ('a curator_world, exn, unit) eff)" for t
    using assms(2) by (simp add: unchanged_def at_disk_def eff_simps)
  ultimately have "unchanged (\<lambda>w. md_nodes (cw_disk w) k) (apply_curation cf fails_on kind dry stamp :: ('a curator_world, exn, curation_result) eff)"
    unfolding apply_curation_def Let_def by (auto intro!: unchanged_bindM unchanged_modM)
  from unchangedD [OF this assms(1)] show ?thesis .
qed

text \<open>What the start of a tick leaves of a file: the compaction of both files, then the reconciliation.\<close>

lemma cycle_start_disk:
  assumes run: "mapM (\<lambda>kind. bindM (apply_curation cf fails_on kind dry stamp) (\<lambda>c. ret (kind, c))) KINDS w = (res, w')"
    and disk: "on_disk (cw_disk w) kind source"
  shows "\<exists>source'. on_disk (cw_disk w') kind source' \<and> (dry \<longrightarrow> source' = source) \<and> same_texts cf kind source source'"
proof -
  let ?m = "\<lambda>k. bindM (apply_curation cf fails_on k dry stamp) (\<lambda>c. ret (k, c))"
  have self: "\<exists>source'. on_disk (cw_disk w2) kind source' \<and> (dry \<longrightarrow> source' = source) \<and> same_texts cf kind source source'"
    if "?m kind w1 = (r, w2)" "on_disk (cw_disk w1) kind source" for w1 w2 r
  proof -
    from that(1) obtain r0 where "apply_curation cf fails_on kind dry stamp w1 = (r0, w2)"
      by (auto simp: bindM_app eff_simps split: prod.splits sum.splits)
    from curation_on_disk [OF this that(2)] show ?thesis .
  qed
  have other: "on_disk (cw_disk w2) kind t \<longleftrightarrow> on_disk (cw_disk w1) kind t" if "?m k w1 = (r, w2)" "kind \<noteq> k" for k w1 w2 r t
  proof -
    from that(1) obtain r0 where "apply_curation cf fails_on k dry stamp w1 = (r0, w2)"
      by (auto simp: bindM_app eff_simps split: prod.splits sum.splits)
    from curation_other_kind [OF this that(2)] show ?thesis by (simp add: on_disk_def)
  qed
  obtain r1 w1 where r1: "?m Kind_memory w = (r1, w1)" by fastforce
  obtain r2 w2 where r2: "?m Kind_user w1 = (r2, w2)" by fastforce
  have "w' = w1 \<or> w' = w2" using run r1 r2
    by (auto simp: KINDS_def bindM_app [of "?m _"] bindM_app [of "mapM _ _"] eff_simps bindM_app split: sum.splits prod.splits)
  with self [of w r1 w1] self [of w1 r2 w2] other [of Kind_memory w r1 w1] other [of Kind_user w1 r2 w2] r1 r2 disk same_texts_refl [of cf kind source]
  show ?thesis by (cases kind) auto
qed

text \<open>The tick after its reconciliation does not touch the native memory.\<close>

lemma cycle_end_keeps:
  "unchanged cw_disk (bindM (mapM (final_plan ce compacted) KINDS) (\<lambda>plans.
     let final_files = plans_of plans;
         entries = map (\<lambda>(k, p). (k, mf_entries (cp_compacted p))) plans in
     bindM (with_classifier ce (map (\<lambda>(k, p). (k, cp_promotion_candidates p)) plans) entries) (\<lambda>candidates.
     bindM (select_promotions (promoter_of ce) candidates final_files (rx_promotions rx)) (\<lambda>se.
     let sig = alert_signature (ce_float_repr ce) (sha_text ce)
           (actionable ce final_files candidates (se_promotions se) (rx_reasons rx));
         near = near_cap_kinds final_files in
     bindM (liftE (decide_alert (ce_clock ce) (alert_signature (ce_float_repr ce) (sha_text ce) quiet_state) sig (ct_alert s)))
       (\<lambda>(decision, next_alert).
     bindM (liftE (add_events (ct_events s) (make_owner_events (se_promoted se) (filter dl_applied (rx_deleted rx))))) (\<lambda>waiting.
     bindM (deliver_events ce s (se_promotions se) waiting decision next_alert sig
         (\<lambda>events near_due. \<lparr>or_compacted = compacted, or_events = events, or_final_files = final_files, or_near_cap = near_due\<rparr>) near) (\<lambda>sent.
       ret \<lparr>cy_compacted = compacted, cy_promoted = se_promoted se, cy_deleted = rx_deleted rx,
         cy_blocked = rx_blocked rx @ se_blocked se, cy_near_cap = near, cy_decision = decision, cy_alerted = sent\<rparr>)))))))"
  unfolding Let_def
  by (intro unchanged_bindM unchanged_mapM unchanged_final_plan unchanged_classifier unchanged_select unchanged_promoter unchanged_basic)
    (auto intro!: unchanged_bindM unchanged_deliver)

abbreviation compaction_steps :: "'m curator_env \<Rightarrow> ('m curator_world, exn, (memory_kind, curation_result) dict) eff" where
  "compaction_steps ce \<equiv> mapM (\<lambda>kind. bindM (apply_curation (ce_casefold ce) (ce_curation_fails ce) kind (ce_dry_run ce) (ce_stamp ce))
         (\<lambda>c. ret (kind, c))) KINDS"

lemma cycle_after_reconcile:
  fixes ce :: "'m curator_env"
  assumes run: "run_cycle ce w = (res, w')" and load: "load_curator_state (cw_state w) = Inr s"
    and r1: "compaction_steps ce w = (Inr compacted, w1)"
    and r2: "at_disk (reconcile_promotions (reconcile_env ce) (ct_promotions s)) w1 = (r2, w2)"
  shows "cw_disk w' = cw_disk w2"
proof -
  let ?m = "compaction_steps ce"
  let ?r = "at_disk (reconcile_promotions (reconcile_env ce) (ct_promotions s)) :: ('m curator_world, exn, reconcile_result) eff"
  show ?thesis
  proof (cases r2)
    case (Inl e)
    with run load r1 r2 show ?thesis
      by (simp add: run_cycle_def bindM_app [of "getM _"] bindM_app [of "liftE _"] bindM_app [of ?m] bindM_app [of ?r] eff_simps liftE_def)
  next
    case rx: (Inr rx)
    note * = run [unfolded run_cycle_def bindM_app [of "getM _"] bindM_app [of "liftE (load_curator_state _)"] bindM_app [of ?m] bindM_app [of ?r]]
    show ?thesis
      by (rule unchangedD [OF cycle_end_keeps [of ce compacted rx s], of w2 res w'])
        (use * load r1 r2 rx in \<open>simp add: state_app bindM_app [of ?m] bindM_app [of ?r] liftE_def ret_app\<close>)
  qed
qed

lemma cycle_disk:
  assumes run: "run_cycle ce w = (res, w')" and disk: "on_disk (cw_disk w) kind source"
  obtains source1 source' where "same_texts (ce_casefold ce) kind source source1" "on_disk (cw_disk w') kind source'"
    "ce_dry_run ce \<longrightarrow> source' = source" "source' = source1 \<or> (\<exists>s d d'. load_curator_state (cw_state w) = Inr s \<and>
      on_disk d kind source1 \<and> on_disk d' kind source' \<and> approved_deletions (reconcile_env ce) (ct_promotions s) d d')"
proof (cases "load_curator_state (cw_state w)")
  case (Inl e)
  with run have "w' = w" by (simp add: run_cycle_def bindM_app eff_simps liftE_def)
  with disk that [OF same_texts_refl] show ?thesis by blast
next
  case (Inr s)
  let ?m = "compaction_steps ce"
  obtain r1 w1 where r1: "?m w = (r1, w1)" by fastforce
  from cycle_start_disk [OF r1 disk] obtain source1 where s1: "on_disk (cw_disk w1) kind source1"
    "ce_dry_run ce \<longrightarrow> source1 = source" "same_texts (ce_casefold ce) kind source source1" by blast
  show ?thesis
  proof (cases r1)
    case (Inl e)
    with run Inr r1 have "w' = w1" by (simp add: run_cycle_def bindM_app [of "getM _"] bindM_app [of "liftE _"] bindM_app [of ?m] eff_simps liftE_def)
    with s1 that show ?thesis by blast
  next
    case compacted: (Inr compacted)
    let ?r = "at_disk (reconcile_promotions (reconcile_env ce) (ct_promotions s)) :: ('a curator_world, exn, reconcile_result) eff"
    obtain r2 w2 where r2: "?r w1 = (r2, w2)" by fastforce
    then have ad: "approved_deletions (reconcile_env ce) (ct_promotions s) (cw_disk w1) (cw_disk w2)"
      using reconcile_spec by (auto simp: at_disk_def split: prod.splits)
    have "cw_disk w' = cw_disk w2" using cycle_after_reconcile [OF run Inr] r1 r2 compacted by blast
    with approved_entries [OF ad s1(1)] obtain source' where "on_disk (cw_disk w') kind source'" "on_disk (cw_disk w2) kind source'"
      "ce_dry_run ce \<longrightarrow> source' = source1" by (auto simp: reconcile_env_def)
    with s1 ad Inr that show ?thesis by metis
  qed
qed

lemma cycle_loses_spec:
  assumes "run_cycle ce w = (res, w')" and "on_disk (cw_disk w) kind source"
  shows "\<exists>source'. on_disk (cw_disk w') kind source' \<and> (ce_dry_run ce \<longrightarrow> source' = source)
    \<and> set (native_entries kind source') \<subseteq> set (native_entries kind source)
    \<and> (\<forall>e \<in> set (native_entries kind source). normalize_entry (ce_casefold ce) e \<notin> normalize_entry (ce_casefold ce) ` set (native_entries kind source')
         \<longrightarrow> (\<exists>s e' key r. load_curator_state (cw_state w) = Inr s \<and> (key, r) \<in> set (ct_promotions s)
           \<and> authorized (reconcile_env ce) r \<and> pm_source_kind r = kind \<and> fits_record (reconcile_env ce) r e'
           \<and> e' \<in> set (native_entries kind source) \<and> normalize_entry (ce_casefold ce) e' = normalize_entry (ce_casefold ce) e))"
proof -
  let ?n = "normalize_entry (ce_casefold ce)" and ?es = "\<lambda>x. set (native_entries kind x)"
  from cycle_disk [OF assms] obtain s1 s2 where st: "same_texts (ce_casefold ce) kind source s1" "on_disk (cw_disk w') kind s2"
    "ce_dry_run ce \<longrightarrow> s2 = source" and ad: "s2 = s1 \<or> (\<exists>s d d'. load_curator_state (cw_state w) = Inr s \<and>
      on_disk d kind s1 \<and> on_disk d' kind s2 \<and> approved_deletions (reconcile_env ce) (ct_promotions s) d d')" .
  have lost: "?es s2 \<subseteq> ?es s1 \<and> (\<forall>e \<in> ?es s1 - ?es s2. \<exists>s key r. load_curator_state (cw_state w) = Inr s
      \<and> (key, r) \<in> set (ct_promotions s) \<and> authorized (reconcile_env ce) r \<and> pm_source_kind r = kind \<and> fits_record (reconcile_env ce) r e)"
    using ad
  proof
    assume "\<exists>s d d'. load_curator_state (cw_state w) = Inr s \<and>
      on_disk d kind s1 \<and> on_disk d' kind s2 \<and> approved_deletions (reconcile_env ce) (ct_promotions s) d d'"
    then obtain s d d' where s: "load_curator_state (cw_state w) = Inr s" "on_disk d kind s1" "on_disk d' kind s2"
      "approved_deletions (reconcile_env ce) (ct_promotions s) d d'" by blast
    from approved_entries [OF s(4,2)] s(3) have "?es s2 \<subseteq> ?es s1 \<and> (\<forall>e \<in> ?es s1 - ?es s2. \<exists>(key, r) \<in> set (ct_promotions s).
      authorized (reconcile_env ce) r \<and> pm_source_kind r = kind \<and> fits_record (reconcile_env ce) r e)"
      by (auto simp: on_disk_def)
    with s(1) show ?thesis by fast
  qed simp
  have "\<exists>s e' key r. load_curator_state (cw_state w) = Inr s \<and> (key, r) \<in> set (ct_promotions s)
           \<and> authorized (reconcile_env ce) r \<and> pm_source_kind r = kind \<and> fits_record (reconcile_env ce) r e'
           \<and> e' \<in> ?es source \<and> ?n e' = ?n e" if e: "e \<in> ?es source" "?n e \<notin> ?n ` ?es s2" for e
  proof -
    have "?n ` ?es s1 = ?n ` ?es source" "?es s1 \<subseteq> ?es source" using st(1) by (simp_all add: same_texts_def)
    with e(1) obtain e' where e': "e' \<in> ?es s1" "?n e' = ?n e" by force
    with e(2) have "e' \<in> ?es s1 - ?es s2" by (metis DiffI imageI)
    with lost e' \<open>?es s1 \<subseteq> ?es source\<close> show ?thesis by blast
  qed
  with st lost show ?thesis by (intro exI [of _ s2]) (auto simp: same_texts_def)
qed

text \<open>C14. One whole tick, however it ends, adds no entry to the native memory. Every text (up to case and
  white space) it takes away is the text of an entry that a record of the state authorizes to delete: its
  digest is the record's, and the saved note has the recorded hash and one marker that binds the record.
  A dry run changes nothing.\<close>

theorem cycle_loses_only_authorized:
  assumes "run_cycle ce w = (res, w')" and "on_disk (cw_disk w) kind source"
  shows "\<exists>source'. on_disk (cw_disk w') kind source' \<and> (ce_dry_run ce \<longrightarrow> source' = source)
    \<and> set (native_entries kind source') \<subseteq> set (native_entries kind source)
    \<and> (\<forall>e \<in> set (native_entries kind source). normalize_entry (ce_casefold ce) e \<notin> normalize_entry (ce_casefold ce) ` set (native_entries kind source')
         \<longrightarrow> (\<exists>s e' key r. load_curator_state (cw_state w) = Inr s \<and> (key, r) \<in> set (ct_promotions s)
           \<and> authorized (reconcile_env ce) r \<and> pm_source_kind r = kind \<and> fits_record (reconcile_env ce) r e'
           \<and> e' \<in> set (native_entries kind source) \<and> normalize_entry (ce_casefold ce) e' = normalize_entry (ce_casefold ce) e))"
  by (rule cycle_loses_spec [OF assms])

section \<open>Owner events\<close>

lemma add_events_Inr:
  "add_events waiting es = Inr d \<Longrightarrow>
     (\<forall>k e. dict_get waiting k = Some e \<longrightarrow> dict_get d k = Some e) \<and> (\<forall>e \<in> set es. dict_get d (oe_key e) = Some e)"
proof (induction es arbitrary: waiting)
  case (Cons e es)
  show ?case
  proof (cases "dict_get waiting (oe_key e)")
    case None
    with Cons.prems have "add_events (dict_set waiting (oe_key e) e) es = Inr d" by simp
    from Cons.IH [OF this] None have "dict_get d (oe_key e) = Some e" "\<forall>e \<in> set es. dict_get d (oe_key e) = Some e"
      "dict_get waiting k = Some x \<Longrightarrow> dict_get d k = Some x" for k x by (auto split: if_splits) (metis option.distinct(1))
    then show ?thesis by simp
  next
    case (Some other)
    with Cons.prems have "other = e" "add_events waiting es = Inr d" by (auto split: if_splits)
    with Cons.IH Some show ?thesis by auto
  qed
qed simp

text \<open>The alert state a tick leaves.\<close>

definition alert_after :: "alert_decision \<Rightarrow> bool \<Rightarrow> alert_state \<Rightarrow> ustr \<Rightarrow> alert_state \<Rightarrow> alert_state" where
  "alert_after decision sent prior sig next_alert =
     (if decision = Alert_send \<and> \<not> sent then prior\<lparr>as_last_observed := Some sig\<rparr> else next_alert)"

definition summary_sent :: "'m curator_env \<Rightarrow> owner_report \<Rightarrow> bool" where
  "summary_sent ce r \<longleftrightarrow> \<not> ce_dry_run ce \<and> (\<exists>report o1 o2. build_report (ce_percent ce) r = Some report \<and> ce_alert ce report o1 = (Inr True, o2))"

lemma deliver_events_run:
  assumes "deliver_events ce s ps waiting decision next_alert sig mk near w = (Inr sent, w')"
  shows "cw_state w' = saved_curator_state \<lparr>ct_version = ct_version s, ct_promotions = ps,
      ct_alert = alert_after decision sent (ct_alert s) sig next_alert, ct_events = (if sent then [] else waiting)\<rparr>"
    and "sent \<Longrightarrow> summary_sent ce (mk (sort_key oe_key (map snd waiting)) (if decision = Alert_send then near else []))"
  using assms
  by (auto simp: deliver_events_def Let_def save_curator_def run_simps at_outside_def alert_after_def summary_sent_def
      split: if_splits option.splits prod.splits)

text \<open>The steps of a tick that returns.\<close>

lemma cycle_return:
  assumes "run_cycle ce w = (Inr res, w')" and "load_curator_state (cw_state w) = Inr s"
  obtains compacted and rx :: reconcile_result and plans candidates and se :: selection_result
    and decision next_alert waiting w1 sig where
    "sig = alert_signature (ce_float_repr ce) (sha_text ce) (actionable ce (plans_of plans) candidates (se_promotions se) (rx_reasons rx))"
    "decide_alert (ce_clock ce) (alert_signature (ce_float_repr ce) (sha_text ce) quiet_state) sig (ct_alert s) = Inr (decision, next_alert)"
    "add_events (ct_events s) (make_owner_events (se_promoted se) (filter dl_applied (rx_deleted rx))) = Inr waiting"
    "deliver_events ce s (se_promotions se) waiting decision next_alert sig
         (\<lambda>events near_due. \<lparr>or_compacted = compacted, or_events = events, or_final_files = plans_of plans, or_near_cap = near_due\<rparr>)
         (cy_near_cap res) w1 = (Inr (cy_alerted res), w')"
    "cy_compacted res = compacted" "cy_promoted res = se_promoted se" "cy_deleted res = rx_deleted rx"
    "cy_near_cap res = near_cap_kinds (plans_of plans)" "cy_decision res = decision"
proof -
  from assms(1,2) have "\<exists>(rx :: reconcile_result) plans candidates (se :: selection_result) next_alert waiting w1.
      deliver_events ce s (se_promotions se) waiting (cy_decision res) next_alert
        (alert_signature (ce_float_repr ce) (sha_text ce) (actionable ce (plans_of plans) candidates (se_promotions se) (rx_reasons rx)))
        (\<lambda>events near_due. \<lparr>or_compacted = cy_compacted res, or_events = events, or_final_files = plans_of plans, or_near_cap = near_due\<rparr>)
        (cy_near_cap res) w1 = (Inr (cy_alerted res), w')
      \<and> decide_alert (ce_clock ce) (alert_signature (ce_float_repr ce) (sha_text ce) quiet_state)
        (alert_signature (ce_float_repr ce) (sha_text ce) (actionable ce (plans_of plans) candidates (se_promotions se) (rx_reasons rx)))
        (ct_alert s) = Inr (cy_decision res, next_alert)
      \<and> add_events (ct_events s) (make_owner_events (se_promoted se) (filter dl_applied (rx_deleted rx))) = Inr waiting
      \<and> cy_promoted res = se_promoted se \<and> cy_deleted res = rx_deleted rx \<and> cy_near_cap res = near_cap_kinds (plans_of plans)"
    unfolding run_cycle_def
    apply (clarsimp simp: run_simps Let_def)
    subgoal for x w1 rx w2 plans w3 candidates w4 se w5 decision next_alert waiting sent
      by (rule exI [of _ rx], rule exI [of _ plans], rule exI [of _ candidates], rule exI [of _ se], rule exI [of _ next_alert],
          rule exI [of _ waiting]) auto
    done
  with that show ?thesis by blast
qed

text \<open>C15. A tick that returns has lost no owner event: the events that waited, one for every proposal it
  posted and one for every entry it deleted are all in the summary it has delivered, or all in the state it
  has saved. A dry run delivers no summary.\<close>

theorem cycle_keeps_events:
  assumes "run_cycle ce w = (Inr res, w')" and "load_curator_state (cw_state w) = Inr s"
  shows "\<exists>waiting ps al. (\<forall>k e. dict_get (ct_events s) k = Some e \<longrightarrow> dict_get waiting k = Some e)
    \<and> (\<forall>e \<in> posted_event ` set (cy_promoted res) \<union> deleted_event ` {d \<in> set (cy_deleted res). dl_applied d}. dict_get waiting (oe_key e) = Some e)
    \<and> cw_state w' = saved_curator_state \<lparr>ct_version = ct_version s, ct_promotions = ps, ct_alert = al,
        ct_events = (if cy_alerted res then [] else waiting)\<rparr>
    \<and> (cy_alerted res \<longrightarrow> (\<exists>r. summary_sent ce r \<and> or_events r = sort_key oe_key (map snd waiting)))"
proof (rule cycle_return [OF assms], goal_cases)
  case (1 compacted rx plans candidates se decision next_alert waiting w1 sig)
  have "(\<forall>e \<in> posted_event ` set (cy_promoted res) \<union> deleted_event ` {d \<in> set (cy_deleted res). dl_applied d}. dict_get waiting (oe_key e) = Some e)"
    using add_events_Inr [OF 1(3)] by (auto simp: make_owner_events_def 1)
  moreover have "cy_alerted res \<longrightarrow> (\<exists>r. summary_sent ce r \<and> or_events r = sort_key oe_key (map snd waiting))"
    using deliver_events_run(2) [OF 1(4)] by auto
  ultimately show ?case using add_events_Inr [OF 1(3)] deliver_events_run(1) [OF 1(4)] by blast
qed

section \<open>How often the owner is alerted\<close>

text \<open>The alert state along a run of ticks: the clock, the signature of what is to be done, and whether the
  summary was delivered. The result lists the alerts that were.\<close>

fun delivered_alerts ::
    "alert_clock \<Rightarrow> ustr \<Rightarrow> (int \<times> ustr \<times> bool) list \<Rightarrow> alert_state \<Rightarrow> exn + (int \<times> ustr) list" where
  "delivered_alerts ak quiet [] prior = Inr []"
| "delivered_alerts ak quiet ((now, sig, delivered) # ticks) prior =
     bindE (decide_alert (ak\<lparr>ak_now := now\<rparr>) quiet sig prior) (\<lambda>(decision, next_alert).
     bindE (delivered_alerts ak quiet ticks (alert_after decision delivered prior sig next_alert)) (\<lambda>alerts.
       Inr (if decision = Alert_send \<and> delivered then (now, sig) # alerts else alerts)))"

text \<open>A tick that returns moves the alert state as \<open>delivered_alerts\<close> does.\<close>

lemma cycle_alert_state:
  assumes "run_cycle ce w = (Inr res, w')" and "load_curator_state (cw_state w) = Inr s"
  shows "\<exists>sig next_alert ps ev. decide_alert (ce_clock ce) (alert_signature (ce_float_repr ce) (sha_text ce) quiet_state) sig (ct_alert s)
        = Inr (cy_decision res, next_alert)
    \<and> cw_state w' = saved_curator_state \<lparr>ct_version = ct_version s, ct_promotions = ps,
        ct_alert = alert_after (cy_decision res) (cy_alerted res) (ct_alert s) sig next_alert, ct_events = ev\<rparr>"
proof (rule cycle_return [OF assms], goal_cases)
  case (1 compacted rx plans candidates se decision next_alert waiting w1 sig)
  then show ?case using deliver_events_run(1) [OF 1(4)] by blast
qed

lemma decide_alert_send:
  assumes "decide_alert ak quiet sig prior = Inr (Alert_send, next_alert)"
  shows "sig \<noteq> quiet" "as_last_sent prior \<noteq> Some sig" "next_alert = sent_now ak sig"
    "as_last_sent prior \<noteq> None \<Longrightarrow> as_last_sent_at prior = Some t \<Longrightarrow> ak_parse ak t = Some sent_at \<Longrightarrow> ak_now ak - sent_at \<ge> DEFAULT_COOLDOWN"
  using assms by (auto simp: decide_alert_def Let_def split: if_splits option.splits)

lemma decide_alert_other:
  assumes "decide_alert ak quiet sig prior = Inr (decision, next_alert)" and "decision \<noteq> Alert_send"
  shows "as_last_sent next_alert = as_last_sent prior" "as_last_sent_at next_alert = as_last_sent_at prior"
  using assms by (auto simp: decide_alert_def Let_def split: if_splits option.splits)

definition second :: int where "second = 1000000"

definition clock_ok :: "alert_clock \<Rightarrow> bool" where
  "clock_ok ak \<longleftrightarrow> (\<forall>t. 0 \<le> t \<longrightarrow> ak_parse ak (ak_format ak t) = Some (t - t mod second))"

text \<open>Two alerts in a row.\<close>

definition alert_apart :: "int \<times> ustr \<Rightarrow> int \<times> ustr \<Rightarrow> bool" where
  "alert_apart a b \<longleftrightarrow> fst a + (DEFAULT_COOLDOWN - second) < fst b \<and> snd a \<noteq> snd b"

definition after_alert :: "alert_clock \<Rightarrow> (int \<times> ustr) option \<Rightarrow> alert_state \<Rightarrow> bool" where
  "after_alert ak prev s \<longleftrightarrow> (case prev of None \<Rightarrow> True
     | Some (t, sig) \<Rightarrow> 0 \<le> t \<and> as_last_sent s = Some sig \<and> as_last_sent_at s = Some (ak_format ak t))"

lemma alerts_apart:
  assumes "clock_ok ak" and "list_all (\<lambda>(now, _). 0 \<le> now) ticks"
    and "delivered_alerts ak quiet ticks prior = Inr alerts" and "after_alert ak prev prior"
  shows "quiet \<notin> snd ` set alerts \<and> successively alert_apart (case prev of None \<Rightarrow> alerts | Some a \<Rightarrow> a # alerts)"
  using assms(2-4)
proof (induction ticks arbitrary: prior alerts prev)
  case Nil
  then show ?case by (auto split: option.splits)
next
  case (Cons tick ticks)
  obtain now sig d where tick: "tick = (now, sig, d)" by (cases tick)
  let ?ak = "ak\<lparr>ak_now := now\<rparr>"
  from Cons.prems(2) obtain decision next_alert alerts1 where dec: "decide_alert ?ak quiet sig prior = Inr (decision, next_alert)"
    and rest: "delivered_alerts ak quiet ticks (alert_after decision d prior sig next_alert) = Inr alerts1"
    and alerts: "alerts = (if decision = Alert_send \<and> d then (now, sig) # alerts1 else alerts1)"
    by (auto simp: tick split: prod.splits)
  have ticks: "list_all (\<lambda>(now, _). 0 \<le> now) ticks" and now: "0 \<le> now" using Cons.prems(1) by (simp_all add: tick)
  show ?case
  proof (cases "decision = Alert_send \<and> d")
    case True
    note send = decide_alert_send [OF dec [unfolded conjunct1 [OF True]]]
    have "after_alert ak (Some (now, sig)) (alert_after decision d prior sig next_alert)"
      using True send(3) now by (simp add: alert_after_def after_alert_def sent_now_def)
    from Cons.IH [OF ticks rest this] have IH: "quiet \<notin> snd ` set alerts1" "successively alert_apart ((now, sig) # alerts1)" by simp_all
    have "alert_apart a (now, sig)" if "prev = Some a" for a
    proof -
      obtain t s0 where a: "a = (t, s0)" by (cases a)
      with that Cons.prems(3) have p: "0 \<le> t" "as_last_sent prior = Some s0" "as_last_sent_at prior = Some (ak_format ak t)"
        by (simp_all add: after_alert_def)
      have "ak_parse ?ak (ak_format ak t) = Some (t - t mod second)" using assms(1) p(1) by (simp add: clock_ok_def)
      from send(4) [OF _ p(3) this] p(2) have "now - (t - t mod second) \<ge> DEFAULT_COOLDOWN" by simp
      moreover have "t mod second < second" by (simp add: second_def)
      ultimately show ?thesis using send(2) p(2) by (simp add: alert_apart_def a)
    qed
    with IH send(1) True show ?thesis by (auto simp: alerts split: option.splits)
  next
    case False
    have "after_alert ak prev (alert_after decision d prior sig next_alert)"
      using Cons.prems(3) False decide_alert_other [OF dec] by (auto simp: after_alert_def alert_after_def split: option.splits)
    moreover have "alerts = alerts1" using False by (simp add: alerts)
    ultimately show ?thesis using Cons.IH [OF ticks rest] by blast
  qed
qed


definition demo_clock :: alert_clock where
  "demo_clock = \<lparr>ak_now = 0, ak_format = (\<lambda>t. [nat (t div second)]), ak_parse = (\<lambda>s. case s of [n] \<Rightarrow> Some (int n * second) | _ \<Rightarrow> None)\<rparr>"

lemma demo_clock_ok: "clock_ok demo_clock"
  by (simp add: clock_ok_def demo_clock_def second_def minus_mod_eq_div_mult pos_imp_zdiv_nonneg_iff)


definition demo_tick :: "nat curator_env" where
  "demo_tick = \<lparr>ce_casefold = (\<lambda>s. s), ce_sha256 = demo_sha, ce_float_repr = (\<lambda>_. []), ce_read_twin = (\<lambda>_. Some (Utf8 demo_saved_note)),
     ce_promote = (\<lambda>p. ret None), ce_alert = (\<lambda>report n. (Inr True, Suc n)), ce_classify = None,
     ce_clock = demo_clock\<lparr>ak_format := (\<lambda>_. lit ''t'')\<rparr>, ce_stamp = lit ''now'', ce_dry_run = False, ce_max_promotions = 3,
     ce_faults = no_faults, ce_curation_fails = (\<lambda>_. False), ce_save_fails = (\<lambda>_. False), ce_percent = (\<lambda>_. 90), ce_backup_name = snd\<rparr>"

definition demo_state :: curator_state where
  "demo_state = curator_empty\<lparr>ct_promotions := [(lit ''k'', demo_promotion)]\<rparr>"

definition demo_cw :: "nat curator_world" where
  "demo_cw = \<lparr>cw_disk = disk_of (two_entries (lit ''a'') (lit ''b'')), cw_baks = [], cw_state = saved_curator_state demo_state, cw_outside = 0\<rparr>"

lemma load_saved: "curator_ok s \<Longrightarrow> load_curator_state (saved_curator_state s) = Inr (curator_in_order s)"
  by (simp add: load_curator_state_def saved_curator_state_def parse_saved_curator)

lemma load_demo: "load_curator_state (cw_state demo_cw) = Inr demo_state"
proof -
  have "curator_ok demo_state" "curator_in_order demo_state = demo_state"
    by (simp_all add: curator_ok_def curator_in_order_def demo_state_def curator_empty_def wf_dict_def)
  with load_saved [of demo_state] show ?thesis by (simp add: demo_cw_def)
qed

lemma reconcile_demo_tick: "reconcile_env demo_tick = reconcile_demo"
  by (simp add: reconcile_env_def demo_tick_def reconcile_demo_def timestamp_def)

lemma curate_two: "normalize_entry cf a \<noteq> normalize_entry cf b \<Longrightarrow> cp_compacted (curate cf \<lparr>mf_kind = k, mf_entries = [a, b]\<rparr>) = \<lparr>mf_kind = k, mf_entries = [a, b]\<rparr>"
  by (simp add: curate_def Let_def)

lemma curation_unchanged:
  assumes "at_disk (read_memory_text kind) w = (Inr source, w)"
    and "serialize_memory_file (cp_compacted (curate cf (parse_memory_file kind source))) = source"
  shows "\<exists>c. apply_curation cf fails_on kind dry stamp w = (Inr c, w)"
  using assms by (simp add: apply_curation_def bindM_app Let_def eff_simps)

lemma demo_norm: "normalize_entry (\<lambda>s. s) (lit ''a'') = lit ''a''" "normalize_entry (\<lambda>s. s) (lit ''b'') = lit ''b''"
  by (simp_all add: normalize_entry_def split_ws_def lit_def is_space_def)

lemma demo_compaction: "\<exists>cs. compaction_steps demo_tick demo_cw = (Inr cs, demo_cw)"
proof -
  let ?s = "two_entries (lit ''a'') (lit ''b'')"
  have nl: "universal_newlines ?s = ?s" by (simp add: two_entries_def JOIN_def lit_def SECTION_SIGN_def)
  have "at_disk (read_memory_text Kind_memory) demo_cw = (Inr ?s, demo_cw)"
    using read_memory_on_disk [of demo_cw Kind_memory ?s] by (simp add: demo_cw_def disk_of_def on_disk_def nl)
  moreover have "serialize_memory_file (cp_compacted (curate (\<lambda>s. s) (parse_memory_file Kind_memory ?s))) = ?s"
    unfolding parse_two_entries [OF sample_entries] by (simp add: curate_two demo_norm serialize_memory_file_def two_entries_def)
  ultimately obtain c1 where c1: "apply_curation (\<lambda>s. s) (\<lambda>_. False) Kind_memory False (lit ''now'') demo_cw = (Inr c1, demo_cw)"
    using curation_unchanged by blast
  have "at_disk (read_memory_text Kind_user) demo_cw = (Inr [], demo_cw)"
    by (simp add: at_disk_def read_memory_text_def demo_cw_def disk_of_def eff_simps)
  moreover have "serialize_memory_file (cp_compacted (curate (\<lambda>s. s) (parse_memory_file Kind_user []))) = []"
    by (simp add: parse_memory_file_def splitlines_def flush_entry_def strip_def lstrip_def rstrip_def curate_def Let_def serialize_memory_file_def)
  ultimately obtain c2 where c2: "apply_curation (\<lambda>s. s) (\<lambda>_. False) Kind_user False (lit ''now'') demo_cw = (Inr c2, demo_cw)"
    using curation_unchanged by blast
  show ?thesis by (simp add: KINDS_def demo_tick_def bindM_app c1 c2 eff_simps)
qed

lemma demo_cycle_disk: "on_disk (cw_disk (snd (run_cycle demo_tick demo_cw))) Kind_memory (lit ''b'')"
proof -
  obtain rx d where d: "reconcile_promotions reconcile_demo [(lit ''k'', demo_promotion)] (disk_of (two_entries (lit ''a'') (lit ''b''))) = (Inr rx, d)"
    "on_disk d Kind_memory (lit ''b'')" using reconcile_demo_run by blast
  then have "at_disk (reconcile_promotions (reconcile_env demo_tick) (ct_promotions demo_state)) demo_cw = (Inr rx, demo_cw\<lparr>cw_disk := d\<rparr>)"
    by (simp add: at_disk_def reconcile_demo_tick demo_state_def demo_cw_def)
  moreover obtain cs where "compaction_steps demo_tick demo_cw = (Inr cs, demo_cw)" using demo_compaction by blast
  moreover obtain res w' where run: "run_cycle demo_tick demo_cw = (res, w')" by fastforce
  ultimately have "cw_disk w' = d" using cycle_after_reconcile [OF run load_demo] by simp
  with d(2) run show ?thesis by simp
qed

theorem cycle_loses_only_authorized_witness:
  "on_disk (cw_disk (snd (run_cycle demo_tick demo_cw))) Kind_memory (lit ''b'')
     \<and> authorized (reconcile_env demo_tick) demo_promotion \<and> fits_record (reconcile_env demo_tick) demo_promotion (lit ''a'')"
proof -
  let ?s = "two_entries (lit ''a'') (lit ''b'')"
  obtain res w' where run: "run_cycle demo_tick demo_cw = (res, w')" by fastforce
  with demo_cycle_disk have w': "on_disk (cw_disk w') Kind_memory (lit ''b'')" by simp
  have "on_disk (cw_disk demo_cw) Kind_memory ?s" by (simp add: demo_cw_def disk_of_def on_disk_def)
  from cycle_loses_only_authorized [OF run this] obtain source' where src: "on_disk (cw_disk w') Kind_memory source'"
    and lost: "\<forall>e \<in> set (native_entries Kind_memory ?s). normalize_entry (ce_casefold demo_tick) e \<notin> normalize_entry (ce_casefold demo_tick) ` set (native_entries Kind_memory source')
         \<longrightarrow> (\<exists>s e' key r. load_curator_state (cw_state demo_cw) = Inr s \<and> (key, r) \<in> set (ct_promotions s)
           \<and> authorized (reconcile_env demo_tick) r \<and> pm_source_kind r = Kind_memory \<and> fits_record (reconcile_env demo_tick) r e'
           \<and> e' \<in> set (native_entries Kind_memory ?s) \<and> normalize_entry (ce_casefold demo_tick) e' = normalize_entry (ce_casefold demo_tick) e)"
    by blast
  have fold: "ce_casefold demo_tick = (\<lambda>s. s)" by (simp add: demo_tick_def)
  have es: "native_entries Kind_memory ?s = [lit ''a'', lit ''b'']" by (simp only: parse_two_entries [OF sample_entries]) simp
  have "source' = lit ''b''" using src w' by (simp add: on_disk_def)
  moreover have "native_entries Kind_memory (lit ''b'') = [lit ''b'']"
    using parse_serialized [of "[lit ''b'']"] sample_entries by (simp add: parse_memory_file_def)
  ultimately obtain s e' key r where "load_curator_state (cw_state demo_cw) = Inr s" "(key, r) \<in> set (ct_promotions s)"
    and r: "authorized (reconcile_env demo_tick) r" "fits_record (reconcile_env demo_tick) r e'"
    and e': "e' \<in> set [lit ''a'', lit ''b'']" "normalize_entry (\<lambda>s. s) e' = normalize_entry (\<lambda>s. s) (lit ''a'')"
    using lost [rule_format, of "lit ''a''", unfolded es fold] demo_norm by auto
  then have "r = demo_promotion" using load_demo by (auto simp: demo_state_def)
  moreover have "e' = lit ''a''" using e' demo_norm by auto
  ultimately show ?thesis using r demo_cycle_disk by simp
qed

lemma bindM_run: "m w = (Inr x, w1) \<Longrightarrow> f x w1 = r \<Longrightarrow> bindM m f w = r"
  by (simp add: bindM_app)

lemma lift_run: "liftE (Inr x) w = (Inr x, w)"
  by (simp add: liftE_def ret_app)

definition quiet_cw :: "nat curator_world" where
  "quiet_cw = \<lparr>cw_disk = \<lparr>md_nodes = (\<lambda>_. Node_missing), md_locked = (\<lambda>_. False), md_backups = []\<rparr>, cw_baks = [],
     cw_state = saved_curator_state (sample_curator\<lparr>ct_promotions := []\<rparr>), cw_outside = 0\<rparr>"

lemma empty_file: "parse_memory_file kind [] = \<lparr>mf_kind = kind, mf_entries = []\<rparr>"
  by (simp add: parse_memory_file_def splitlines_def flush_entry_def strip_def lstrip_def rstrip_def)

lemma curate_empty: "curate cf \<lparr>mf_kind = kind, mf_entries = []\<rparr> = \<lparr>cp_kind = kind, cp_original_chars = 0,
    cp_compacted = \<lparr>mf_kind = kind, mf_entries = []\<rparr>, cp_compacted_chars = 0, cp_char_cap = char_cap \<lparr>mf_kind = kind, mf_entries = []\<rparr>,
    cp_promotion_candidates = [], cp_near_cap = False\<rparr>"
  by (simp add: curate_def Let_def char_count_def fill_ratio_def NEAR_CAP_RATIO_def)

lemma load_quiet: "load_curator_state (cw_state quiet_cw) = Inr (sample_curator\<lparr>ct_promotions := []\<rparr>)"
proof -
  have "curator_ok (sample_curator\<lparr>ct_promotions := []\<rparr>)" using sample_curator_ok by (simp add: curator_ok_def wf_dict_def)
  moreover have "curator_in_order (sample_curator\<lparr>ct_promotions := []\<rparr>) = sample_curator\<lparr>ct_promotions := []\<rparr>"
    by (simp add: curator_in_order_def sample_curator_def)
  ultimately show ?thesis using load_saved by (simp add: quiet_cw_def)
qed

lemma quiet_steps:
  shows "at_disk (read_memory_text kind) quiet_cw = (Inr [], quiet_cw)"
    and "at_disk (read_native kind) quiet_cw = (Inr (Utf8 [], \<lparr>mf_kind = kind, mf_entries = []\<rparr>), quiet_cw)"
  by (simp_all add: at_disk_def read_memory_text_def read_native_def quiet_cw_def eff_simps decode_utf8_def liftE_def empty_file)

lemma quiet_curation: "apply_curation cf fails_on kind dry stamp quiet_cw
    = (Inr \<lparr>cr_kind = kind, cr_plan = curate cf \<lparr>mf_kind = kind, mf_entries = []\<rparr>, cr_changed = False, cr_backup = None\<rparr>, quiet_cw)"
  by (simp add: apply_curation_def bindM_app quiet_steps empty_file curate_empty Let_def eff_simps serialize_memory_file_def)

lemma quiet_run:
  "\<exists>res w'. run_cycle demo_tick quiet_cw = (Inr res, w') \<and> cy_alerted res"
proof -
  let ?s = "sample_curator\<lparr>ct_promotions := []\<rparr>"
  have dry: "ce_dry_run demo_tick = False" "ce_classify demo_tick = None" by (simp_all add: demo_tick_def)
  have files: "mapM (final_plan demo_tick cs) KINDS quiet_cw = (Inr (map (\<lambda>k. (k, curate (ce_casefold demo_tick) \<lparr>mf_kind = k, mf_entries = []\<rparr>)) KINDS), quiet_cw)" for cs
    by (simp add: KINDS_def final_plan_def dry bindM_app quiet_steps eff_simps)
  have comp: "\<exists>cs. compaction_steps demo_tick quiet_cw = (Inr cs, quiet_cw)"
    by (simp add: KINDS_def bindM_app quiet_curation eff_simps)
  then obtain cs where cs: "compaction_steps demo_tick quiet_cw = (Inr cs, quiet_cw)" by blast
  have rec: "at_disk (reconcile_promotions (reconcile_env demo_tick) []) quiet_cw
      = (Inr \<lparr>rx_promotions = [], rx_deleted = [], rx_blocked = [], rx_reasons = {}\<rparr>, quiet_cw)"
    by (simp add: at_disk_def reconcile_promotions_def eff_simps)
  have quiet: "actionable demo_tick [(Kind_memory, \<lparr>mf_kind = Kind_memory, mf_entries = []\<rparr>), (Kind_user, \<lparr>mf_kind = Kind_user, mf_entries = []\<rparr>)]
      [(Kind_memory, []), (Kind_user, [])] [] {} = quiet_state"
    by (simp add: actionable_def quiet_state_def fill_ratio_def char_count_def bucket_for_def dict_of_def)
  have select: "select_promotions (promoter_of demo_tick) [(Kind_memory, []), (Kind_user, [])]
      [(Kind_memory, \<lparr>mf_kind = Kind_memory, mf_entries = []\<rparr>), (Kind_user, \<lparr>mf_kind = Kind_user, mf_entries = []\<rparr>)] [] quiet_cw
      = (Inr \<lparr>se_promotions = [], se_promoted = [], se_blocked = [], se_attempts = 0\<rparr>, quiet_cw)"
    by (simp add: select_promotions_def order_by_reclaim_def dict_get_Cons liftE_def eff_simps)
  have decide: "\<exists>al. decide_alert ak q q prior = Inr (Alert_silent, al)" for ak q prior
    by (simp add: decide_alert_def Let_def)
  have deliver: "\<exists>w'. deliver_events demo_tick ?s [] (ct_events sample_curator) Alert_silent al sig
      (\<lambda>events near_due. \<lparr>or_compacted = cs, or_events = events, or_final_files = ff, or_near_cap = near_due\<rparr>) near quiet_cw = (Inr True, w')" for al sig ff near
    by (simp add: deliver_events_def Let_def sample_curator_def save_curator_def demo_tick_def build_report_def report_lines_def at_outside_def eff_simps)
  let ?q = "alert_signature (ce_float_repr demo_tick) (sha_text demo_tick) quiet_state"
  have plans: "plans_of (map (\<lambda>k. (k, curate (ce_casefold demo_tick) \<lparr>mf_kind = k, mf_entries = []\<rparr>)) KINDS)
      = [(Kind_memory, \<lparr>mf_kind = Kind_memory, mf_entries = []\<rparr>), (Kind_user, \<lparr>mf_kind = Kind_user, mf_entries = []\<rparr>)]"
    "map (\<lambda>(k, p). (k, cp_promotion_candidates p)) (map (\<lambda>k. (k, curate (ce_casefold demo_tick) \<lparr>mf_kind = k, mf_entries = []\<rparr>)) KINDS)
      = [(Kind_memory, []), (Kind_user, [])]"
    by (simp_all add: plans_of_def KINDS_def curate_empty)
  obtain al where al: "decide_alert (ce_clock demo_tick) ?q ?q (ct_alert ?s) = Inr (Alert_silent, al)" using decide by blast
  have ps: "ct_promotions ?s = []" "ct_events ?s = ct_events sample_curator" by simp_all
  obtain w' where d: "deliver_events demo_tick ?s [] (ct_events sample_curator) Alert_silent al ?q
      (\<lambda>events near_due. \<lparr>or_compacted = cs, or_events = events, or_final_files =
        [(Kind_memory, \<lparr>mf_kind = Kind_memory, mf_entries = []\<rparr>), (Kind_user, \<lparr>mf_kind = Kind_user, mf_entries = []\<rparr>)],
        or_near_cap = near_due\<rparr>) (near_cap_kinds [(Kind_memory, \<lparr>mf_kind = Kind_memory, mf_entries = []\<rparr>), (Kind_user, \<lparr>mf_kind = Kind_user, mf_entries = []\<rparr>)])
        quiet_cw = (Inr True, w')" using deliver by blast
  show ?thesis
    apply (rule exI, rule exI [of _ w'], rule conjI)
     apply (unfold run_cycle_def Let_def)
     apply (rule bindM_run, rule state_app(1))
     apply (unfold load_quiet)
     apply (rule bindM_run, rule lift_run)
     apply (rule bindM_run, rule cs)
     apply (unfold ps)
     apply (rule bindM_run, rule rec)
     apply (rule bindM_run, rule files)
     apply (unfold plans with_classifier_def dry option.case bindM_ret reconcile_result.simps)
     apply (rule bindM_run, rule select)
     apply (unfold selection_result.simps quiet al)
     apply (rule bindM_run, rule lift_run)
     apply (simp only: prod.case)
     apply (rule bindM_run)
      apply (simp only: make_owner_events_def filter.simps list.map append_Nil add_events.simps, rule lift_run)
     apply (rule bindM_run, rule d)
     apply (rule ret_app)
    apply simp
    done
qed

theorem cycle_keeps_events_witness:
  "\<exists>res w'. run_cycle demo_tick quiet_cw = (Inr res, w') \<and> cy_alerted res
     \<and> (\<exists>ps al. cw_state w' = saved_curator_state \<lparr>ct_version = CURATOR_VERSION, ct_promotions = ps, ct_alert = al, ct_events = []\<rparr>)
     \<and> (\<exists>r e. summary_sent demo_tick r \<and> e \<in> set (or_events r) \<and> oe_key e = lit ''k#deleted'')"
proof -
  obtain res w' where run: "run_cycle demo_tick quiet_cw = (Inr res, w')" and sent: "cy_alerted res" using quiet_run by blast
  let ?e = "snd (hd (ct_events sample_curator))"
  have e: "dict_get (ct_events (sample_curator\<lparr>ct_promotions := []\<rparr>)) (lit ''k#deleted'') = Some ?e" "oe_key ?e = lit ''k#deleted''"
    by (simp_all add: sample_curator_def dict_get_Cons)
  from cycle_keeps_events [OF run load_quiet] sent obtain waiting ps al r where
    "dict_get waiting (lit ''k#deleted'') = Some ?e" and r: "summary_sent demo_tick r" "or_events r = sort_key oe_key (map snd waiting)"
    and st: "cw_state w' = saved_curator_state \<lparr>ct_version = CURATOR_VERSION, ct_promotions = ps, ct_alert = al, ct_events = []\<rparr>"
    using e(1) by (force simp: sample_curator_def)
  then have "(lit ''k#deleted'', ?e) \<in> set waiting" by (intro dict_get_in)
  then have "?e \<in> set (or_events r)" unfolding r(2) by (simp add: image_iff) (metis snd_conv)
  with e(2) r(1) st run sent show ?thesis by blast
qed

section \<open>What the summary leaves out\<close>

text \<open>The alert signature covers the entries that wait and the records that need the owner, the report does
  not: with no event, no freed character and no file near its cap there is no report, so the alert that is
  due is not sent, whatever the signature says, and it is due again at the next tick.\<close>

lemma alert_without_report:
  assumes "deliver_events ce s ps [] Alert_send next_alert sig
      (\<lambda>events near_due. \<lparr>or_compacted = compacted, or_events = events, or_final_files = final_files, or_near_cap = near_due\<rparr>) [] w = (Inr sent, w')"
    and "freed_total compacted \<le> 0"
  shows "\<not> sent" "cw_outside w' = cw_outside w"
  using assms by (auto simp: deliver_events_def Let_def build_report_def report_lines_def save_curator_def run_simps split: if_splits)

text \<open>An entry that waits is part of the signature.\<close>

lemma entries_are_actionable: "ac_entries (actionable ce [] [(kind, [e])] ps reasons) \<noteq> ac_entries quiet_state"
  by (simp add: actionable_def quiet_state_def dict_of_def dict_set_def)

text \<open>The copy that \<open>apply_curation\<close> makes before it rewrites a file has the translated line ends, not the
  bytes of the file.\<close>

lemma curation_backup_translated:
  assumes "apply_curation cf fails_on kind dry stamp w = (Inr c, w')" and "on_disk (cw_disk w) kind source"
    and "cr_backup c = Some b"
  shows "dict_get (cw_baks w') b = Some (universal_newlines source)"
  using assms by (auto simp: apply_curation_def bindM_app read_memory_on_disk [OF assms(2)] Let_def eff_simps at_disk_modM
      split: if_splits)

lemma translated_differs: "universal_newlines [97, 13, 10] \<noteq> [97, 13, 10]"
  by (simp add: starts_with_def)

end
