(* ===== verification/Spec2Isabelle.thy ===== *)
theory Spec2Isabelle
  imports ApprovalProtocol DriveWatch CoordinationRuns ChannelDirectory InteropPlugin EntityGate
    RelocateRuns CuratorRuns
begin

text \<open>
  A model of the deterministic core of autophagy: the automation library that stands between a
  language-model agent and the outside world. The library decides what may happen without the owner,
  asks the owner for the rest by messages and reactions, carries out what was approved, and talks to
  the agent of a peer. Everything below \<open>src/automation\<close> that is named here is Python; the model is a
  shallow embedding, one definition per function or method and in the order of the modules.

  The parts and how they interact.
  \<^item> Approvals. A producer (drive archive, memory relocation, skill gate) asks for the owner's approval
    through one facade, \<open>interop/approval_lifecycle.py\<close> (theory \<open>ApprovalLifecycle\<close>). The facade works
    over a gate, which stores the pending requests and reads the owner's reactions, over a file lease
    for each key and over a journal of postings (\<open>interop/approval_lease.py\<close>, theory \<open>ApprovalLease\<close>).
    Where a request is posted is decided by the versioned ledger of \<open>interop/approval_surface.py\<close>
    (\<open>ApprovalSurface\<close>), which asks the directory of \<open>interop/approval_directory.py\<close>
    (\<open>ChannelDirectory\<close>).
  \<^item> Effects. \<open>interop/external_effect_gate.py\<close> (\<open>ExternalEffectGate\<close>, over the canonical JSON of
    \<open>CanonicalJson\<close>) blocks a tool call on the denylist unless the log records the approval of exactly
    this call. The agent host asks it, the kill switch and the loop guard through the hooks of
    \<open>interop/hermes_plugin\<close> (\<open>InteropPlugin\<close>).
  \<^item> Drive archive. \<open>drive_archive/\<close> collects files, asks for the approval of their content hashes and
    uploads them: \<open>manifest.py\<close> and \<open>pending.py\<close> are \<open>DrivePending\<close>, \<open>routing.py\<close> and \<open>digest.py\<close> are
    \<open>DriveDigest\<close>, the gate and the reaction watcher (\<open>approval_adapter.py\<close>, \<open>confirm.py\<close>,
    \<open>confirm_reaction_watch.py\<close>) are \<open>DriveArchive\<close> and \<open>DriveUpload\<close>, which also has \<open>uploader.py\<close>,
    \<open>gate_binding.py\<close> and the commands of \<open>sync_cli.py\<close>.
  \<^item> Peers. \<open>interop/coordination.py\<close> and \<open>delegation.py\<close> negotiate a meeting with the agent of a peer by
    JSON envelopes (\<open>Coordination\<close>, \<open>CoordinationRuns\<close>). Messages are cut, sent, masked and throttled by
    \<open>chunker.py\<close>, \<open>discord_transport.py\<close>, \<open>report.py\<close>, \<open>loop_guard.py\<close> and \<open>killswitch.py\<close> (\<open>Messaging\<close>).
  \<^item> Entity preflight. \<open>entity_preflight/\<close> resolves the names in a dictated request before anything is
    written outside: contracts and detection (\<open>EntityContracts\<close>), the selection policy and the phases of
    a write (\<open>EntityPolicy\<close>), and the guarded write with its idempotency store (\<open>EntityGate\<close>).
  \<^item> Native memory. \<open>memory_curator/\<close> reads, compacts and rewrites the two capped memory files of the agent:
    \<open>model.py\<close>, \<open>curator.py\<close> and \<open>reclaim.py\<close> are \<open>MemoryFile\<close>, \<open>deletion.py\<close> is \<open>MemoryDelete\<close>. A tick
    proposes durable entries as notes of the twin and deletes an entry once its note is saved: the state is
    \<open>CuratorState\<close> (\<open>state_models.py\<close>, \<open>state_fields.py\<close>, \<open>state.py\<close>, \<open>state_store.py\<close>), the marker in the note and
    the verdict on it \<open>Promotion\<close> (\<open>binding.py\<close>, \<open>promotion.py\<close>, \<open>reconcile.py\<close>), the steps \<open>Reconcile\<close>
    (\<open>watch_steps.py\<close>, \<open>candidates.py\<close>, \<open>legacy_rebind.py\<close>) and the tick with its alert and summary \<open>CuratorWatch\<close>
    (\<open>apply.py\<close>, \<open>alerting.py\<close>, \<open>reporting.py\<close>, \<open>watch.py\<close>). \<open>RecordCodec\<close> has what the saved records share.
  \<^item> Relocation. \<open>memory_relocate/\<close> moves a fact out of that memory into a note, with the owner's approval:
    the record and its codec are \<open>RelocationRecord\<close>, the planned note (\<open>obsidian_write/note.py\<close>), the choice
    of a candidate and the approval message \<open>RelocationPlan\<close>, the check that the retrieval index has the
    note \<open>RagChunks\<close> (\<open>rag_ingest/chunking.py\<close>, \<open>hashing.py\<close>, \<open>rag_verify.py\<close>), the store and the gate over the
    approval facade \<open>RelocateGate\<close>, and the deletion, the tick and its live effects \<open>Relocate\<close>.

  How the code appears in the model. A class of data is a record, an enumeration a datatype with the
  source's members, a string a list of code points (\<open>Prelude\<close>), a dictionary an association list in
  insertion order, an integer an unbounded \<open>int\<close> and a finite float a rational. A raised exception is
  the left side of a sum whose type \<open>exn\<close> names the classes that handlers distinguish (\<open>Effects\<close>). Code
  with effects is a function from the world to an exception or a value and the next world, composed
  by \<open>bindM\<close>, \<open>catchM\<close> and \<open>finallyM\<close>, with a weakest precondition \<open>wp\<close> for its proofs. Collaborators
  that are passed in by the code (a gate, a transport, a connector, a resolver) are arguments of the
  definitions; the theorems hold for all of them unless a hypothesis says otherwise.

  What the lemmas show.
  \<^item> \<open>ApprovalProtocol\<close> wraps the collaborators of the facade so that every call leaves an event, and
    proves that the events of every run are accepted by a monitor of the rules L1 to L4 of the module:
    changes only under the lease, one live request for a key, reservation before posting, deletion
    before dropping, and nothing more after a request that could not be cleared.
  \<^item> \<open>ApprovalStore\<close> states the contract of a gate as the locale \<open>approval_store\<close> and proves what each
    answer of the facade means for the store; \<open>DriveArchive\<close> interprets it on the drive gate and
    \<open>RelocateGate\<close> on the relocation gate.
  \<^item> \<open>MemoryFile\<close> and \<open>MemoryDelete\<close> prove that the memory files survive rewriting and that a deletion takes
    away one entry or nothing. \<open>CuratorRuns\<close> proves that a whole tick takes away only duplicates and entries
    whose note is saved unchanged with the marker of their record, that it loses no event the owner is to be
    told of, and that alerts are a day apart. \<open>RelocateRuns\<close> proves that only an approved entry is deleted, that a tick keeps
    the life cycle of every record, and that the channel bound with a posted message does not survive
    the tick.
  \<^item> \<open>DriveProperties\<close> and \<open>DriveWatch\<close> compose gate, facade, watcher and upload: only approved content is
    sent, the watcher acts only on decisions of the owner or on expiry, progress survives a failure.
  \<^item> \<open>CoordinationRuns\<close> defines the reachable states of the negotiation by a step relation and proves by
    rule induction that a calendar write needs both consents, and that every run ends and is reported.
  \<^item> \<open>EntityGate\<close> proves that a key is written at most once whatever fails, that a write that returns was
    verified, and that a question to the owner means that nothing was written.
  \<^item> The other theories hold round trips of the codecs, the policies with their bounds, and the
    behaviour on malformed input, for each component.

  Recursion and bounds. Loops over lists are structural recursions; the string scans (slug, chunker,
  substitution, span search) have measures on what is left of the string. A Discord send that is
  rate limited forever never returns in the code; it takes a list of answers here, and \<open>None\<close> is the
  run that uses them all up. No other definition has fuel.

  Parameters of the model: SHA-256 and HMAC, the regular expression engine, \<open>str.casefold\<close>, Unicode
  normalisation and the case and classes of letters, \<open>json.loads\<close> and \<open>repr\<close> of floats, the parse and format of ISO
  dates, the Discord, Drive and CalDAV services, the push of a note, reading a note of the twin, posting a proposal, the entry classifier, the clock,
  and which file-system call fails. What is relied on is a named hypothesis,
  for example that the parse of a formatted date gives the date back.

  Not modelled: the skills under \<open>src/skills\<close>, which mostly drive a language model and render documents;
  the configuration servers under \<open>src/configs\<close>; shell scripts; argument parsing and printed output; the
  patches of the third-party agent host. The rest of \<open>src/automation\<close> (the vetoes of the memory classifier, managed skill
  synchronisation, the skill gate, the ingest pipeline, reminders, self repair, report hub) is not
  reached yet; it is planned in this order, because these parts keep their own state machines and
  approval gates over the library that is modelled here.
\<close>

end
